theory Spec2Isabelle
  imports Main "HOL-Library.AList"
begin

section \<open>JavaScript values and collections\<close>

text \<open>
  The server is TypeScript on Node. The embedding keeps the shapes the code works on:
  a JavaScript \<open>Map\<close> is an association list in insertion order (\<open>Map.set\<close> on an
  existing key replaces the value where it stands, on a new key appends), a JavaScript
  \<open>Set\<close> is a list in insertion order, a nullable or optional field is an \<open>option\<close>,
  and time stamps (\<open>new Date()\<close>) and identifiers (\<open>randomUUID()\<close>) are inputs of the
  operation that draws them.
\<close>

datatype json =
    JNull
  | JBool bool
  | JNum int
  | JStr string
  | JArr "json list"
  | JObj "(string \<times> json) list"

type_synonym timestamp = nat

text \<open>\<open>m.get(k)\<close>, \<open>m.has(k)\<close>, \<open>m.set(k, v)\<close>, \<open>m.delete(k)\<close> and
  \<open>Array.from(m.values())\<close> of a JavaScript \<open>Map\<close>.\<close>

definition Map_get :: "('k \<times> 'v) list \<Rightarrow> 'k \<Rightarrow> 'v option" where
  "Map_get m k = map_of m k"

definition Map_has :: "('k \<times> 'v) list \<Rightarrow> 'k \<Rightarrow> bool" where
  "Map_has m k = (map_of m k \<noteq> None)"

definition Map_set :: "'k \<Rightarrow> 'v \<Rightarrow> ('k \<times> 'v) list \<Rightarrow> ('k \<times> 'v) list" where
  "Map_set k v m = AList.update k v m"

definition Map_delete :: "'k \<Rightarrow> ('k \<times> 'v) list \<Rightarrow> ('k \<times> 'v) list" where
  "Map_delete k m = AList.delete k m"

definition Map_values :: "('k \<times> 'v) list \<Rightarrow> 'v list" where
  "Map_values m = map snd m"

text \<open>\<open>s.add(x)\<close>, \<open>s.delete(x)\<close>, \<open>s.has(x)\<close> and \<open>s.size\<close> of a JavaScript \<open>Set\<close>.\<close>

definition Set_add :: "'a \<Rightarrow> 'a list \<Rightarrow> 'a list" where
  "Set_add x s = (if x \<in> set s then s else s @ [x])"

definition Set_delete :: "'a \<Rightarrow> 'a list \<Rightarrow> 'a list" where
  "Set_delete x s = removeAll x s"

definition Set_has :: "'a list \<Rightarrow> 'a \<Rightarrow> bool" where
  "Set_has s x = (x \<in> set s)"

definition Set_size :: "'a list \<Rightarrow> nat" where
  "Set_size s = length s"

text \<open>\<open>x || null\<close> on an optional string: \<open>undefined\<close>, \<open>null\<close> and the empty
  string are falsy.\<close>

definition or_null :: "string option \<Rightarrow> string option" where
  "or_null x = (case x of None \<Rightarrow> None | Some s \<Rightarrow> if s = [] then None else Some s)"

text \<open>Truthiness of a JSON value, for \<open>insertNotification.data || null\<close>.\<close>

fun truthy :: "json \<Rightarrow> bool" where
  "truthy JNull = False"
| "truthy (JBool b) = b"
| "truthy (JNum n) = (n \<noteq> 0)"
| "truthy (JStr s) = (s \<noteq> [])"
| "truthy (JArr xs) = True"
| "truthy (JObj kvs) = True"

definition json_or_null :: "json option \<Rightarrow> json option" where
  "json_or_null x = (case x of None \<Rightarrow> None | Some j \<Rightarrow> if truthy j then Some j else None)"


section \<open>The schema (shared/schema.ts)\<close>

text \<open>The row types of the four tables. A column without \<open>notNull()\<close> is nullable.\<close>

record InsertUser =
  username :: string
  password :: string
  email :: string
  firstName :: string
  lastName :: string
  gender :: string
  profilePhoto :: "string option"
  age :: int
  location :: "string option"
  bio :: "string option"
  photos :: "json option"
  filterGender :: "string option"
  filterLocation :: "string option"
  filterAgeMin :: "int option"
  filterAgeMax :: "int option"

record User = InsertUser +
  id_U :: string
  isOnline :: "bool option"
  lastSeen :: "timestamp option"
  createdAt_U :: "timestamp option"

text \<open>\<open>Partial<User>\<close>: each property is present (\<open>Some\<close>) or absent.\<close>

record UserUpdates =
  set_id :: "string option"
  set_username :: "string option"
  set_password :: "string option"
  set_email :: "string option"
  set_firstName :: "string option"
  set_lastName :: "string option"
  set_gender :: "string option"
  set_profilePhoto :: "string option option"
  set_age :: "int option"
  set_location :: "string option option"
  set_bio :: "string option option"
  set_photos :: "json option option"
  set_filterGender :: "string option option"
  set_filterLocation :: "string option option"
  set_filterAgeMin :: "int option option"
  set_filterAgeMax :: "int option option"
  set_isOnline :: "bool option option"
  set_lastSeen :: "timestamp option option"
  set_createdAt :: "timestamp option option"

record InsertConversation =
  participant1Id :: string
  participant2Id :: string

record Conversation = InsertConversation +
  id_C :: string
  lastMessageAt :: "timestamp option"
  createdAt_C :: "timestamp option"

record InsertMessage =
  conversationId_M :: string
  senderId :: string
  content :: "string option"
  imageUrl :: "string option"

record Message = InsertMessage +
  id_M :: string
  timestamp_M :: "timestamp option"

record InsertNotification =
  userId_N :: string
  type_N :: string
  fromUserId :: string
  conversationId_N :: "string option"
  data_N :: "json option"

record Notification = InsertNotification +
  id_N :: string
  isRead :: "bool option"
  createdAt_N :: "timestamp option"


section \<open>MemStorage (server/storage.ts)\<close>

text \<open>The in-memory implementation of \<open>IStorage\<close>. The program itself runs on
  \<open>PgStorage\<close> (next section).\<close>

record MemStorage =
  users :: "(string \<times> User) list"
  conversations :: "(string \<times> Conversation) list"
  messages :: "(string \<times> Message) list"
  notifications :: "(string \<times> Notification) list"

definition MemStorage_new :: MemStorage where
  "MemStorage_new = \<lparr>users = [], conversations = [], messages = [], notifications = []\<rparr>"

definition getUser :: "MemStorage \<Rightarrow> string \<Rightarrow> User option" where
  "getUser st i = Map_get (users st) i"

definition createUser :: "MemStorage \<Rightarrow> string \<Rightarrow> timestamp \<Rightarrow> InsertUser \<Rightarrow> MemStorage \<times> User" where
  "createUser st i now insertUser =
     (let u = \<lparr>username = username insertUser, password = password insertUser,
               email = email insertUser, firstName = firstName insertUser,
               lastName = lastName insertUser, gender = gender insertUser,
               profilePhoto = or_null (profilePhoto insertUser), age = age insertUser,
               location = or_null (location insertUser), bio = or_null (bio insertUser),
               photos = json_or_null (photos insertUser),
               filterGender = filterGender insertUser, filterLocation = filterLocation insertUser,
               filterAgeMin = filterAgeMin insertUser, filterAgeMax = filterAgeMax insertUser,
               id_U = i, isOnline = Some False, lastSeen = Some now, createdAt_U = Some now\<rparr>
      in (st\<lparr>users := Map_set i u (users st)\<rparr>, u))"

text \<open>\<open>{ ...user, ...updates }\<close>: a property of \<open>updates\<close> replaces that of \<open>user\<close>.\<close>

definition spread :: "'a \<Rightarrow> 'a option \<Rightarrow> 'a" where
  "spread old new = (case new of None \<Rightarrow> old | Some v \<Rightarrow> v)"

definition spread_User :: "User \<Rightarrow> UserUpdates \<Rightarrow> User" where
  "spread_User u updates =
     \<lparr>username = spread (username u) (set_username updates),
      password = spread (password u) (set_password updates),
      email = spread (email u) (set_email updates),
      firstName = spread (firstName u) (set_firstName updates),
      lastName = spread (lastName u) (set_lastName updates),
      gender = spread (gender u) (set_gender updates),
      profilePhoto = spread (profilePhoto u) (set_profilePhoto updates),
      age = spread (age u) (set_age updates),
      location = spread (location u) (set_location updates),
      bio = spread (bio u) (set_bio updates),
      photos = spread (photos u) (set_photos updates),
      filterGender = spread (filterGender u) (set_filterGender updates),
      filterLocation = spread (filterLocation u) (set_filterLocation updates),
      filterAgeMin = spread (filterAgeMin u) (set_filterAgeMin updates),
      filterAgeMax = spread (filterAgeMax u) (set_filterAgeMax updates),
      id_U = spread (id_U u) (set_id updates),
      isOnline = spread (isOnline u) (set_isOnline updates),
      lastSeen = spread (lastSeen u) (set_lastSeen updates),
      createdAt_U = spread (createdAt_U u) (set_createdAt updates)\<rparr>"

definition updateUser :: "MemStorage \<Rightarrow> string \<Rightarrow> UserUpdates \<Rightarrow> MemStorage \<times> User option" where
  "updateUser st i updates =
     (case Map_get (users st) i of
        None \<Rightarrow> (st, None)
      | Some u \<Rightarrow>
          (let updatedUser = spread_User u updates
           in (st\<lparr>users := Map_set i updatedUser (users st)\<rparr>, Some updatedUser)))"

text \<open>\<open>Array.prototype.find\<close>: the first element that satisfies the predicate.\<close>

definition getConversation :: "MemStorage \<Rightarrow> string \<Rightarrow> string \<Rightarrow> Conversation option" where
  "getConversation st user1Id user2Id =
     List.find (\<lambda>conv.
        (participant1Id conv = user1Id \<and> participant2Id conv = user2Id) \<or>
        (participant1Id conv = user2Id \<and> participant2Id conv = user1Id))
       (Map_values (conversations st))"

definition createConversation ::
  "MemStorage \<Rightarrow> string \<Rightarrow> timestamp \<Rightarrow> InsertConversation \<Rightarrow> MemStorage \<times> Conversation" where
  "createConversation st i now ins =
     (let conversation =
            \<lparr>participant1Id = participant1Id ins, participant2Id = participant2Id ins,
             id_C = i, lastMessageAt = Some now, createdAt_C = Some now\<rparr>
      in (st\<lparr>conversations := Map_set i conversation (conversations st)\<rparr>, conversation))"

text \<open>\<open>sort\<close> is stable and compares \<open>new Date(timestamp).getTime()\<close>, which is 0 for
  \<open>null\<close>.\<close>

definition getMessages :: "MemStorage \<Rightarrow> string \<Rightarrow> Message list" where
  "getMessages st cid =
     sort_key (\<lambda>msg. case timestamp_M msg of None \<Rightarrow> 0 | Some t \<Rightarrow> t)
       (filter (\<lambda>msg. conversationId_M msg = cid) (Map_values (messages st)))"

definition createMessage ::
  "MemStorage \<Rightarrow> string \<Rightarrow> timestamp \<Rightarrow> InsertMessage \<Rightarrow> MemStorage \<times> Message" where
  "createMessage st i now ins =
     (let message =
            \<lparr>conversationId_M = conversationId_M ins, senderId = senderId ins,
             content = or_null (content ins), imageUrl = or_null (imageUrl ins),
             id_M = i, timestamp_M = Some now\<rparr>;
          st1 = st\<lparr>messages := Map_set i message (messages st)\<rparr>;
          st2 = (case Map_get (conversations st1) (conversationId_M ins) of
                   Some conversation \<Rightarrow>
                     st1\<lparr>conversations :=
                           Map_set (conversationId_M ins) (conversation\<lparr>lastMessageAt := Some now\<rparr>)
                             (conversations st1)\<rparr>
                 | None \<Rightarrow> st1)
      in (st2, message))"

definition getAllUsers :: "MemStorage \<Rightarrow> User list" where
  "getAllUsers st = Map_values (users st)"

definition getOnlineUsers :: "MemStorage \<Rightarrow> User list" where
  "getOnlineUsers st = filter (\<lambda>user. isOnline user = Some True) (Map_values (users st))"

definition setUserOnlineStatus :: "MemStorage \<Rightarrow> timestamp \<Rightarrow> string \<Rightarrow> bool \<Rightarrow> MemStorage" where
  "setUserOnlineStatus st now userId online =
     (case Map_get (users st) userId of
        Some user \<Rightarrow>
          st\<lparr>users := Map_set userId (user\<lparr>isOnline := Some online, lastSeen := Some now\<rparr>) (users st)\<rparr>
      | None \<Rightarrow> st)"

subsection \<open>Notifications\<close>

definition createNotification ::
  "MemStorage \<Rightarrow> string \<Rightarrow> timestamp \<Rightarrow> InsertNotification \<Rightarrow> MemStorage \<times> Notification" where
  "createNotification st i now ins =
     (let notification =
            \<lparr>userId_N = userId_N ins, type_N = type_N ins, fromUserId = fromUserId ins,
             conversationId_N = or_null (conversationId_N ins),
             data_N = json_or_null (data_N ins),
             id_N = i, isRead = Some False, createdAt_N = Some now\<rparr>
      in (st\<lparr>notifications := Map_set i notification (notifications st)\<rparr>, notification))"

definition markNotificationAsRead :: "MemStorage \<Rightarrow> string \<Rightarrow> MemStorage" where
  "markNotificationAsRead st notificationId =
     (case Map_get (notifications st) notificationId of
        Some notification \<Rightarrow>
          st\<lparr>notifications :=
               Map_set notificationId (notification\<lparr>isRead := Some True\<rparr>) (notifications st)\<rparr>
      | None \<Rightarrow> st)"

text \<open>\<open>!notification.isRead\<close>: \<open>null\<close> and \<open>false\<close> both count as unread.\<close>

definition unread :: "string \<Rightarrow> Notification \<Rightarrow> bool" where
  "unread userId notification = (userId_N notification = userId \<and> isRead notification \<noteq> Some True)"

text \<open>The \<open>forEach\<close> runs over the array made before it starts; each round writes under
  the key \<open>notification.id\<close>.\<close>

definition markAllNotificationsAsRead :: "MemStorage \<Rightarrow> string \<Rightarrow> MemStorage" where
  "markAllNotificationsAsRead st userId =
     foldl (\<lambda>s notification.
              s\<lparr>notifications :=
                  Map_set (id_N notification) (notification\<lparr>isRead := Some True\<rparr>) (notifications s)\<rparr>)
       st (filter (unread userId) (Map_values (notifications st)))"

definition deleteNotification :: "MemStorage \<Rightarrow> string \<Rightarrow> MemStorage" where
  "deleteNotification st notificationId =
     st\<lparr>notifications := Map_delete notificationId (notifications st)\<rparr>"

definition getUnreadNotificationCount :: "MemStorage \<Rightarrow> string \<Rightarrow> nat" where
  "getUnreadNotificationCount st userId =
     length (filter (unread userId) (Map_values (notifications st)))"

text \<open>\<open>messages[messages.length - 1]\<close>: \<open>undefined\<close> for an empty array.\<close>

definition last_of :: "'a list \<Rightarrow> 'a option" where
  "last_of xs = (if xs = [] then None else Some (last xs))"

text \<open>The comparator \<open>b - a\<close> on \<open>new Date(x || 0).getTime()\<close> sorts by time, latest first;
  the sort is stable. \<open>otherUser\<close> and \<open>fromUser\<close> are \<open>undefined\<close> when storage has no
  such user.\<close>

definition time_of :: "timestamp option \<Rightarrow> int" where
  "time_of t = (case t of None \<Rightarrow> 0 | Some n \<Rightarrow> int n)"

definition getUserConversations ::
  "MemStorage \<Rightarrow> string \<Rightarrow> (Conversation \<times> User option \<times> Message option) list" where
  "getUserConversations st uid =
     (let userConversations =
            filter (\<lambda>conv. participant1Id conv = uid \<or> participant2Id conv = uid)
              (Map_values (conversations st));
          enrichedConversations =
            map (\<lambda>conv.
                   let otherUserId = (if participant1Id conv = uid then participant2Id conv
                                      else participant1Id conv)
                   in (conv, getUser st otherUserId, last_of (getMessages st (id_C conv))))
              userConversations
      in sort_key (\<lambda>(conv, otherUser, lastMessage). - time_of (lastMessageAt conv))
           enrichedConversations)"

definition getUserNotifications :: "MemStorage \<Rightarrow> string \<Rightarrow> (Notification \<times> User option) list" where
  "getUserNotifications st uid =
     (let userNotifications =
            sort_key (\<lambda>notification. - time_of (createdAt_N notification))
              (filter (\<lambda>notification. userId_N notification = uid) (Map_values (notifications st)))
      in map (\<lambda>notification. (notification, getUser st (fromUserId notification))) userNotifications)"

text \<open>The calls that change a \<open>MemStorage\<close>, and the states a \<open>new MemStorage()\<close>
  goes through.\<close>

datatype StorageCall =
    CreateUser string timestamp InsertUser
  | UpdateUser string UserUpdates
  | CreateConversation string timestamp InsertConversation
  | CreateMessage string timestamp InsertMessage
  | SetUserOnlineStatus timestamp string bool
  | CreateNotification string timestamp InsertNotification
  | MarkNotificationAsRead string
  | MarkAllNotificationsAsRead string
  | DeleteNotification string

fun call :: "MemStorage \<Rightarrow> StorageCall \<Rightarrow> MemStorage" where
  "call st (CreateUser i now ins) = fst (createUser st i now ins)"
| "call st (UpdateUser i updates) = fst (updateUser st i updates)"
| "call st (CreateConversation i now ins) = fst (createConversation st i now ins)"
| "call st (CreateMessage i now ins) = fst (createMessage st i now ins)"
| "call st (SetUserOnlineStatus now uid online) = setUserOnlineStatus st now uid online"
| "call st (CreateNotification i now ins) = fst (createNotification st i now ins)"
| "call st (MarkNotificationAsRead i) = markNotificationAsRead st i"
| "call st (MarkAllNotificationsAsRead uid) = markAllNotificationsAsRead st uid"
| "call st (DeleteNotification i) = deleteNotification st i"

definition MemStorage_after :: "StorageCall list \<Rightarrow> MemStorage" where
  "MemStorage_after calls = foldl call MemStorage_new calls"

text \<open>Every notification is stored under its own \<open>id\<close>, once: \<open>createNotification\<close> is
  the only operation that adds a key, and it writes \<open>id\<close> after the spread of its
  argument.\<close>

definition keyed_by_id :: "(string \<times> Notification) list \<Rightarrow> bool" where
  "keyed_by_id m = (list_all (\<lambda>(k, n). id_N n = k) m \<and> distinct (map fst m))"


section \<open>PgStorage (server/pg-storage.ts)\<close>

text \<open>
  The storage the program runs on (\<open>export const storage = new PgStorage()\<close>). The
  database is the four tables of the schema, each the list of its rows in the order a
  \<open>select\<close> without \<open>orderBy\<close> returns them, and \<open>db_up\<close> says whether the pool reaches
  the server. A statement is rejected when it breaks a constraint of the schema: a
  primary key, a unique column of \<open>users\<close>, a foreign key. The identifier
  (\<open>gen_random_uuid()\<close>) and the time (\<open>defaultNow()\<close>, \<open>new Date()\<close>) of an insert are
  arguments.
\<close>

text \<open>What a promise rejects with and what a statement throws.\<close>

datatype exn =
    WebSocketNotOpen
  | SyntaxError
  | ConnectionError
  | UniqueViolation
  | ForeignKeyViolation

record PgStorage =
  users_t :: "User list"
  conversations_t :: "Conversation list"
  messages_t :: "Message list"
  notifications_t :: "Notification list"
  db_up :: bool

text \<open>\<open>ORDER BY c\<close> puts the rows without a value last, \<open>ORDER BY c DESC\<close> first.\<close>

definition order_by :: "('a \<Rightarrow> timestamp option) \<Rightarrow> 'a list \<Rightarrow> 'a list" where
  "order_by c rows =
     sort_key (\<lambda>row. time_of (c row)) (filter (\<lambda>row. c row \<noteq> None) rows)
       @ filter (\<lambda>row. c row = None) rows"

definition order_by_desc :: "('a \<Rightarrow> timestamp option) \<Rightarrow> 'a list \<Rightarrow> 'a list" where
  "order_by_desc c rows =
     filter (\<lambda>row. c row = None) rows
       @ sort_key (\<lambda>row. - time_of (c row)) (filter (\<lambda>row. c row \<noteq> None) rows)"

subsection \<open>Users\<close>

definition pg_getUser :: "PgStorage \<Rightarrow> string \<Rightarrow> User option" where
  "pg_getUser db i = List.find (\<lambda>u. id_U u = i) (users_t db)"

definition pg_getAllUsers :: "PgStorage \<Rightarrow> User list" where
  "pg_getAllUsers db = users_t db"

definition pg_getOnlineUsers :: "PgStorage \<Rightarrow> User list" where
  "pg_getOnlineUsers db = order_by_desc lastSeen (filter (\<lambda>u. isOnline u = Some True) (users_t db))"

definition pg_setUserOnlineStatus :: "PgStorage \<Rightarrow> timestamp \<Rightarrow> string \<Rightarrow> bool \<Rightarrow> PgStorage" where
  "pg_setUserOnlineStatus db now uid online =
     db\<lparr>users_t := map (\<lambda>u. if id_U u = uid then u\<lparr>isOnline := Some online, lastSeen := Some now\<rparr> else u)
                      (users_t db)\<rparr>"

text \<open>The rows of the other tables that refer to the user \<open>i\<close>.\<close>

definition referenced :: "PgStorage \<Rightarrow> string \<Rightarrow> bool" where
  "referenced db i =
     (i \<in> participant1Id ` set (conversations_t db) \<or> i \<in> participant2Id ` set (conversations_t db)
      \<or> i \<in> senderId ` set (messages_t db)
      \<or> i \<in> userId_N ` set (notifications_t db) \<or> i \<in> fromUserId ` set (notifications_t db))"

text \<open>\<open>update(users).set(updates).where(eq(users.id, id)).returning()\<close>: no row, or the
  row as updated; rejected when the new row takes the \<open>id\<close>, \<open>username\<close> or \<open>email\<close> of
  another one, or gives up an \<open>id\<close> that other tables refer to.\<close>

definition pg_updateUser :: "PgStorage \<Rightarrow> string \<Rightarrow> UserUpdates \<Rightarrow> exn + (PgStorage \<times> User option)" where
  "pg_updateUser db i updates =
     (case pg_getUser db i of
        None \<Rightarrow> Inr (db, None)
      | Some u \<Rightarrow>
          (let updatedUser = spread_User u updates
           in if list_ex (\<lambda>v. id_U v \<noteq> i \<and> (id_U v = id_U updatedUser
                                              \<or> username v = username updatedUser
                                              \<or> email v = email updatedUser)) (users_t db)
              then Inl UniqueViolation
              else if id_U updatedUser \<noteq> i \<and> referenced db i then Inl ForeignKeyViolation
              else Inr (db\<lparr>users_t := map (\<lambda>v. if id_U v = i then spread_User v updates else v)
                                          (users_t db)\<rparr>,
                        Some updatedUser)))"

subsection \<open>Conversations and messages\<close>

definition pg_getConversation :: "PgStorage \<Rightarrow> string \<Rightarrow> string \<Rightarrow> Conversation option" where
  "pg_getConversation db user1Id user2Id =
     List.find (\<lambda>c. (participant1Id c = user1Id \<and> participant2Id c = user2Id)
                  \<or> (participant1Id c = user2Id \<and> participant2Id c = user1Id))
       (conversations_t db)"

definition pg_createConversation ::
  "PgStorage \<Rightarrow> string \<Rightarrow> timestamp \<Rightarrow> InsertConversation \<Rightarrow> exn + (PgStorage \<times> Conversation)" where
  "pg_createConversation db i now ins =
     (if i \<in> id_C ` set (conversations_t db) then Inl UniqueViolation
      else if participant1Id ins \<notin> id_U ` set (users_t db)
              \<or> participant2Id ins \<notin> id_U ` set (users_t db)
      then Inl ForeignKeyViolation
      else (let row = \<lparr>participant1Id = participant1Id ins, participant2Id = participant2Id ins,
                       id_C = i, lastMessageAt = Some now, createdAt_C = Some now\<rparr>
            in Inr (db\<lparr>conversations_t := conversations_t db @ [row]\<rparr>, row)))"

definition pg_getMessages :: "PgStorage \<Rightarrow> string \<Rightarrow> Message list" where
  "pg_getMessages db cid =
     order_by timestamp_M (filter (\<lambda>m. conversationId_M m = cid) (messages_t db))"

text \<open>\<open>createMessage\<close> inserts the row, then sets \<open>lastMessageAt\<close> of its conversation.\<close>

definition pg_createMessage ::
  "PgStorage \<Rightarrow> string \<Rightarrow> timestamp \<Rightarrow> InsertMessage \<Rightarrow> exn + (PgStorage \<times> Message)" where
  "pg_createMessage db i now ins =
     (if i \<in> id_M ` set (messages_t db) then Inl UniqueViolation
      else if conversationId_M ins \<notin> id_C ` set (conversations_t db)
              \<or> senderId ins \<notin> id_U ` set (users_t db)
      then Inl ForeignKeyViolation
      else (let row = \<lparr>conversationId_M = conversationId_M ins, senderId = senderId ins,
                       content = content ins, imageUrl = imageUrl ins,
                       id_M = i, timestamp_M = Some now\<rparr>
            in Inr (db\<lparr>messages_t := messages_t db @ [row],
                       conversations_t :=
                         map (\<lambda>c. if id_C c = conversationId_M ins then c\<lparr>lastMessageAt := Some now\<rparr> else c)
                           (conversations_t db)\<rparr>,
                    row)))"

definition pg_getUserConversations ::
  "PgStorage \<Rightarrow> string \<Rightarrow> (Conversation \<times> User option \<times> Message option) list" where
  "pg_getUserConversations db uid =
     (let userConversations =
            order_by_desc lastMessageAt
              (filter (\<lambda>conv. participant1Id conv = uid \<or> participant2Id conv = uid) (conversations_t db))
      in map (\<lambda>conv.
                let otherUserId = (if participant1Id conv = uid then participant2Id conv
                                   else participant1Id conv)
                in (conv, pg_getUser db otherUserId, last_of (pg_getMessages db (id_C conv))))
           userConversations)"

subsection \<open>Notifications\<close>

text \<open>
  \<open>UPDATE ... SET is_read = true WHERE user_id = u AND is_read = false\<close> rewrites the
  rows that satisfy the condition and \<open>SELECT ... WHERE\<close> returns them; a row whose
  \<open>is_read\<close> is \<open>NULL\<close> satisfies neither. The three queries below take the rows of
  \<open>notifications\<close>.
\<close>

definition pg_unread :: "string \<Rightarrow> Notification \<Rightarrow> bool" where
  "pg_unread userId row = (userId_N row = userId \<and> isRead row = Some False)"

definition pg_markAllNotificationsAsRead :: "Notification list \<Rightarrow> string \<Rightarrow> Notification list" where
  "pg_markAllNotificationsAsRead rows userId =
     map (\<lambda>row. if pg_unread userId row then row\<lparr>isRead := Some True\<rparr> else row) rows"

definition pg_getUnreadNotificationCount :: "Notification list \<Rightarrow> string \<Rightarrow> nat" where
  "pg_getUnreadNotificationCount rows userId = length (filter (pg_unread userId) rows)"

definition pg_getUserNotifications :: "PgStorage \<Rightarrow> string \<Rightarrow> (Notification \<times> User option) list" where
  "pg_getUserNotifications db uid =
     map (\<lambda>notification. (notification, pg_getUser db (fromUserId notification)))
       (order_by_desc createdAt_N (filter (\<lambda>notification. userId_N notification = uid) (notifications_t db)))"

definition pg_createNotification ::
  "PgStorage \<Rightarrow> string \<Rightarrow> timestamp \<Rightarrow> InsertNotification \<Rightarrow> exn + (PgStorage \<times> Notification)" where
  "pg_createNotification db i now ins =
     (if i \<in> id_N ` set (notifications_t db) then Inl UniqueViolation
      else if userId_N ins \<notin> id_U ` set (users_t db)
              \<or> fromUserId ins \<notin> id_U ` set (users_t db)
              \<or> (case conversationId_N ins of
                    Some cid \<Rightarrow> cid \<notin> id_C ` set (conversations_t db)
                  | None \<Rightarrow> False)
      then Inl ForeignKeyViolation
      else (let row = \<lparr>userId_N = userId_N ins, type_N = type_N ins, fromUserId = fromUserId ins,
                       conversationId_N = conversationId_N ins, data_N = data_N ins,
                       id_N = i, isRead = Some False, createdAt_N = Some now\<rparr>
            in Inr (db\<lparr>notifications_t := notifications_t db @ [row]\<rparr>, row)))"

definition pg_markNotificationAsRead :: "PgStorage \<Rightarrow> string \<Rightarrow> PgStorage" where
  "pg_markNotificationAsRead db i =
     db\<lparr>notifications_t := map (\<lambda>row. if id_N row = i then row\<lparr>isRead := Some True\<rparr> else row)
                              (notifications_t db)\<rparr>"

definition pg_deleteNotification :: "PgStorage \<Rightarrow> string \<Rightarrow> PgStorage" where
  "pg_deleteNotification db i =
     db\<lparr>notifications_t := filter (\<lambda>row. id_N row \<noteq> i) (notifications_t db)\<rparr>"


section \<open>The WebSocket server (server/routes.ts)\<close>

subsection \<open>Public profiles\<close>

text \<open>\<open>toPublicUser\<close> builds an object literal: the list of its properties.\<close>

definition nullable :: "('a \<Rightarrow> json) \<Rightarrow> 'a option \<Rightarrow> json" where
  "nullable f x = (case x of None \<Rightarrow> JNull | Some v \<Rightarrow> f v)"

definition JDate :: "timestamp \<Rightarrow> json" where
  "JDate t = JNum (int t)"

definition toPublicUser :: "User \<Rightarrow> (string \<times> json) list" where
  "toPublicUser user =
     [(''id'', JStr (id_U user)),
      (''username'', JStr (username user)),
      (''firstName'', JStr (firstName user)),
      (''lastName'', JStr (lastName user)),
      (''gender'', JStr (gender user)),
      (''age'', JNum (age user)),
      (''location'', nullable JStr (location user)),
      (''bio'', nullable JStr (bio user)),
      (''profilePhoto'', nullable JStr (profilePhoto user)),
      (''photos'', nullable (\<lambda>j. j) (photos user)),
      (''isOnline'', nullable JBool (isOnline user)),
      (''lastSeen'', nullable JDate (lastSeen user))]"

subsection \<open>Frames, sockets and the server state\<close>

text \<open>The frames the server writes (the objects given to \<open>JSON.stringify\<close>).\<close>

record NotificationPreview =
  id_P :: string
  type_P :: string
  fromUserId_P :: string
  fromUserName :: string
  fromUserPhoto :: "string option"
  message_P :: string
  createdAt_P :: "timestamp option"

datatype frame =
    UserOnline string
  | UserOffline string
  | NewMessage Message "(string \<times> json) list option"
  | MessageConfirmed Message
  | UserTyping string bool
  | NewNotification NotificationPreview

text \<open>The frames a client sends, after \<open>JSON.parse\<close>: \<open>Malformed\<close> is data that
  \<open>JSON.parse\<close> rejects, \<open>Unknown\<close> any other \<open>type\<close>.\<close>

datatype ClientMessage =
    Malformed
  | Unknown
  | OpenChatWindow string
  | CloseChatWindow string
  | SendMessage string "string option" "string option"
  | Typing string bool

datatype ReadyState = CONNECTING | OPEN | CLOSING | CLOSED

text \<open>A \<open>WebSocket\<close> object of the \<open>ws\<close> library: its state, and the \<open>userId\<close> its
  \<open>message\<close> and \<open>close\<close> listeners closed over (\<open>None\<close> while it has no listeners).\<close>

record Socket =
  readyState :: ReadyState
  listeners :: "string option"

record Connection =
  ws :: nat
  userId :: string

text \<open>What \<open>storage.sessionStore.get\<close> gives its callback: an error, no session, or a
  session with its \<open>passport?.user\<close>.\<close>

datatype SessionLookup = StoreError | NoSession | Session "string option"

text \<open>What the server did, in program order: frames written, sockets closed, the
  rows created and the online flags set.\<close>

datatype effect =
    Sent nat frame
  | CloseCalled nat "(nat \<times> string) option"
  | ConversationCreated Conversation
  | MessageCreated Message
  | NotificationCreated Notification
  | OnlineStatusSet string bool

text \<open>What one run of the \<open>message\<close> listener draws from outside: the time of its
  inserts and the identifiers the database gives the rows of its three \<open>create\<close> calls.\<close>

record Env =
  date_now :: timestamp
  uuid_conversation :: string
  uuid_message :: string
  uuid_notification :: string

text \<open>
  The listeners are \<open>async\<close> functions: at an \<open>await\<close> a listener stops, other listeners
  run, and it goes on when the call it waits for has settled. A \<open>task\<close> is a listener
  stopped at an \<open>await\<close>, named after the call it waits for, with the variables it still
  needs: the socket \<open>ws\<close> and \<open>userId\<close> of its connection, and what it has read and
  received so far. The first three belong to the \<open>connection\<close> listener, the others to
  the \<open>sendMessage\<close> case of the \<open>message\<close> listener, in the order of the code; the two
  calls of \<open>storage.getUser(userId)\<close> there are \<open>AwaitSender\<close> (before the \<open>newMessage\<close>
  frame) and \<open>AwaitNotifier\<close> (before the \<open>newNotification\<close> frame).
\<close>

datatype task =
    AwaitSession nat string timestamp
  | AwaitUser nat string timestamp
  | AwaitOnline nat string timestamp
  | AwaitConversation nat string string "string option" "string option" Env
  | AwaitNewConversation nat string string "string option" "string option" Env
  | AwaitMessage nat string string "string option" "string option" Env Conversation
  | AwaitSender nat string string Env Conversation Message Connection
  | AwaitNotification nat string string Env Conversation Message "Connection option"
  | AwaitNotifier nat string string Message "Connection option" Notification

record Server =
  storage :: PgStorage
  sessionStore :: "string \<Rightarrow> SessionLookup"
  connectedUsers :: "(string \<times> Connection) list"
  activeChatWindows :: "(string \<times> string list) list"
  sockets :: "nat \<Rightarrow> Socket option"
  pending :: "task list"
  trace :: "effect list"

text \<open>A block of statements either completes or throws; both give the state reached.\<close>

type_synonym outcome = "(exn \<times> Server) + Server"

definition and_then :: "outcome \<Rightarrow> (Server \<Rightarrow> outcome) \<Rightarrow> outcome" where
  "and_then r f = (case r of Inl x \<Rightarrow> Inl x | Inr s \<Rightarrow> f s)"

definition readyState_of :: "Server \<Rightarrow> nat \<Rightarrow> ReadyState" where
  "readyState_of s h = (case sockets s h of Some sock \<Rightarrow> readyState sock | None \<Rightarrow> CLOSED)"

text \<open>\<open>ws.send(JSON.stringify(frame))\<close>: written when the socket is open, an exception
  while it is connecting, dropped after the close has started.\<close>

definition ws_send :: "Server \<Rightarrow> nat \<Rightarrow> frame \<Rightarrow> outcome" where
  "ws_send s h f =
     (if readyState_of s h = CONNECTING then Inl (WebSocketNotOpen, s)
      else if readyState_of s h = OPEN then Inr (s\<lparr>trace := trace s @ [Sent h f]\<rparr>)
      else Inr s)"

text \<open>\<open>ws.close(code, reason)\<close> and \<open>ws.close()\<close>: an open socket starts closing, a
  closing or closed one stays as it is.\<close>

definition ws_close :: "Server \<Rightarrow> nat \<Rightarrow> (nat \<times> string) option \<Rightarrow> Server" where
  "ws_close s h code_reason =
     (case sockets s h of
        Some sock \<Rightarrow>
          if readyState sock = OPEN \<or> readyState sock = CONNECTING
          then s\<lparr>sockets := (sockets s)(h \<mapsto> sock\<lparr>readyState := CLOSING\<rparr>),
                 trace := trace s @ [CloseCalled h code_reason]\<rparr>
          else s
      | None \<Rightarrow> s)"

fun broadcast_loop :: "Server \<Rightarrow> Connection list \<Rightarrow> frame \<Rightarrow> outcome" where
  "broadcast_loop s [] f = Inr s"
| "broadcast_loop s (c # cs) f =
     and_then (if readyState_of s (ws c) = OPEN then ws_send s (ws c) f else Inr s)
       (\<lambda>s'. broadcast_loop s' cs f)"

definition broadcastToAll :: "Server \<Rightarrow> frame \<Rightarrow> outcome" where
  "broadcastToAll s f = broadcast_loop s (Map_values (connectedUsers s)) f"

definition sendToUser :: "Server \<Rightarrow> string \<Rightarrow> frame \<Rightarrow> (exn \<times> Server) + (bool \<times> Server)" where
  "sendToUser s uid f =
     (case Map_get (connectedUsers s) uid of
        Some userConnection \<Rightarrow>
          if readyState_of s (ws userConnection) = OPEN
          then (case ws_send s (ws userConnection) f of
                  Inl x \<Rightarrow> Inl x
                | Inr s' \<Rightarrow> Inr (True, s'))
          else Inr (False, s)
      | None \<Rightarrow> Inr (False, s))"

subsection \<open>The calls on storage\<close>

text \<open>
  \<open>await storage.f(...)\<close> as the routes and listeners see it: the promise rejects when
  the database is not reached or refuses the statement, and resolves to the result of
  the query otherwise. The calls that write have their place in the trace.
\<close>

definition resolve :: "Server \<Rightarrow> 'a \<Rightarrow> exn + 'a" where
  "resolve s r = (if db_up (storage s) then Inr r else Inl ConnectionError)"

definition storage_getUser :: "Server \<Rightarrow> string \<Rightarrow> exn + User option" where
  "storage_getUser s i = resolve s (pg_getUser (storage s) i)"

definition storage_getAllUsers :: "Server \<Rightarrow> exn + User list" where
  "storage_getAllUsers s = resolve s (pg_getAllUsers (storage s))"

definition storage_getOnlineUsers :: "Server \<Rightarrow> exn + User list" where
  "storage_getOnlineUsers s = resolve s (pg_getOnlineUsers (storage s))"

definition storage_getConversation :: "Server \<Rightarrow> string \<Rightarrow> string \<Rightarrow> exn + Conversation option" where
  "storage_getConversation s user1Id user2Id = resolve s (pg_getConversation (storage s) user1Id user2Id)"

definition storage_getMessages :: "Server \<Rightarrow> string \<Rightarrow> exn + Message list" where
  "storage_getMessages s cid = resolve s (pg_getMessages (storage s) cid)"

definition storage_getUserConversations ::
  "Server \<Rightarrow> string \<Rightarrow> exn + (Conversation \<times> User option \<times> Message option) list" where
  "storage_getUserConversations s uid = resolve s (pg_getUserConversations (storage s) uid)"

definition storage_getUserNotifications ::
  "Server \<Rightarrow> string \<Rightarrow> exn + (Notification \<times> User option) list" where
  "storage_getUserNotifications s uid = resolve s (pg_getUserNotifications (storage s) uid)"

definition storage_getUnreadNotificationCount :: "Server \<Rightarrow> string \<Rightarrow> exn + nat" where
  "storage_getUnreadNotificationCount s uid =
     resolve s (pg_getUnreadNotificationCount (notifications_t (storage s)) uid)"

definition storage_createConversation ::
  "Server \<Rightarrow> string \<Rightarrow> timestamp \<Rightarrow> InsertConversation \<Rightarrow> (exn \<times> Server) + (Server \<times> Conversation)" where
  "storage_createConversation s i now ins =
     (if \<not> db_up (storage s) then Inl (ConnectionError, s)
      else case pg_createConversation (storage s) i now ins of
             Inl e \<Rightarrow> Inl (e, s)
           | Inr (db, c) \<Rightarrow> Inr (s\<lparr>storage := db, trace := trace s @ [ConversationCreated c]\<rparr>, c))"

definition storage_createMessage ::
  "Server \<Rightarrow> string \<Rightarrow> timestamp \<Rightarrow> InsertMessage \<Rightarrow> (exn \<times> Server) + (Server \<times> Message)" where
  "storage_createMessage s i now ins =
     (if \<not> db_up (storage s) then Inl (ConnectionError, s)
      else case pg_createMessage (storage s) i now ins of
             Inl e \<Rightarrow> Inl (e, s)
           | Inr (db, m) \<Rightarrow> Inr (s\<lparr>storage := db, trace := trace s @ [MessageCreated m]\<rparr>, m))"

definition storage_createNotification ::
  "Server \<Rightarrow> string \<Rightarrow> timestamp \<Rightarrow> InsertNotification \<Rightarrow> (exn \<times> Server) + (Server \<times> Notification)" where
  "storage_createNotification s i now ins =
     (if \<not> db_up (storage s) then Inl (ConnectionError, s)
      else case pg_createNotification (storage s) i now ins of
             Inl e \<Rightarrow> Inl (e, s)
           | Inr (db, n) \<Rightarrow> Inr (s\<lparr>storage := db, trace := trace s @ [NotificationCreated n]\<rparr>, n))"

definition storage_setUserOnlineStatus :: "Server \<Rightarrow> timestamp \<Rightarrow> string \<Rightarrow> bool \<Rightarrow> outcome" where
  "storage_setUserOnlineStatus s now uid online =
     (if \<not> db_up (storage s) then Inl (ConnectionError, s)
      else Inr (s\<lparr>storage := pg_setUserOnlineStatus (storage s) now uid online,
                 trace := trace s @ [OnlineStatusSet uid online]\<rparr>))"

definition storage_updateUser ::
  "Server \<Rightarrow> string \<Rightarrow> UserUpdates \<Rightarrow> (exn \<times> Server) + (Server \<times> User option)" where
  "storage_updateUser s i updates =
     (if \<not> db_up (storage s) then Inl (ConnectionError, s)
      else case pg_updateUser (storage s) i updates of
             Inl e \<Rightarrow> Inl (e, s)
           | Inr (db, r) \<Rightarrow> Inr (s\<lparr>storage := db\<rparr>, r))"

definition storage_markNotificationAsRead :: "Server \<Rightarrow> string \<Rightarrow> outcome" where
  "storage_markNotificationAsRead s i =
     (if \<not> db_up (storage s) then Inl (ConnectionError, s)
      else Inr (s\<lparr>storage := pg_markNotificationAsRead (storage s) i\<rparr>))"

definition storage_markAllNotificationsAsRead :: "Server \<Rightarrow> string \<Rightarrow> outcome" where
  "storage_markAllNotificationsAsRead s uid =
     (if \<not> db_up (storage s) then Inl (ConnectionError, s)
      else Inr (s\<lparr>storage := (storage s)\<lparr>notifications_t :=
                   pg_markAllNotificationsAsRead (notifications_t (storage s)) uid\<rparr>\<rparr>))"

definition storage_deleteNotification :: "Server \<Rightarrow> string \<Rightarrow> outcome" where
  "storage_deleteNotification s i =
     (if \<not> db_up (storage s) then Inl (ConnectionError, s)
      else Inr (s\<lparr>storage := pg_deleteNotification (storage s) i\<rparr>))"


subsection \<open>The frames of a connection\<close>

text \<open>\<open>activeChatWindows.has(a) && activeChatWindows.get(a)!.has(b)\<close>.\<close>

definition hasChatOpen :: "Server \<Rightarrow> string \<Rightarrow> string \<Rightarrow> bool" where
  "hasChatOpen s a b =
     (Map_has (activeChatWindows s) a \<and>
      (case Map_get (activeChatWindows s) a of Some peers \<Rightarrow> Set_has peers b | None \<Rightarrow> False))"

definition openChatWindow :: "Server \<Rightarrow> string \<Rightarrow> string \<Rightarrow> Server" where
  "openChatWindow s uid openUserId =
     (let m1 = (if \<not> Map_has (activeChatWindows s) uid
                then Map_set uid [] (activeChatWindows s)
                else activeChatWindows s)
      in case Map_get m1 uid of
           Some peers \<Rightarrow> s\<lparr>activeChatWindows := Map_set uid (Set_add openUserId peers) m1\<rparr>
         | None \<Rightarrow> s\<lparr>activeChatWindows := m1\<rparr>)"

definition closeChatWindow :: "Server \<Rightarrow> string \<Rightarrow> string \<Rightarrow> Server" where
  "closeChatWindow s uid closeUserId =
     (if Map_has (activeChatWindows s) uid
      then (case Map_get (activeChatWindows s) uid of
              Some peers \<Rightarrow>
                (let peers' = Set_delete closeUserId peers;
                     m1 = Map_set uid peers' (activeChatWindows s)
                 in if Set_size peers' = 0
                    then s\<lparr>activeChatWindows := Map_delete uid m1\<rparr>
                    else s\<lparr>activeChatWindows := m1\<rparr>)
            | None \<Rightarrow> s)
      else s)"

text \<open>A listener that stops at an \<open>await\<close> leaves its task with the pending ones.\<close>

definition suspend :: "Server \<Rightarrow> task \<Rightarrow> Server" where
  "suspend s t = s\<lparr>pending := pending s @ [t]\<rparr>"

text \<open>
  The \<open>sendMessage\<close> case, in the pieces its \<open>await\<close>s cut it into. \<open>socket\<close> is the
  connection the frame came in on. An exception, or a rejected call, inside the inner
  \<open>try\<close> goes on with the confirmation; any other one ends the listener in its \<open>catch\<close>
  block, which only logs.
\<close>

text \<open>The last statement: \<open>ws.send\<close> of the \<open>messageConfirmed\<close> frame.\<close>

definition confirm :: "Server \<Rightarrow> nat \<Rightarrow> Message \<Rightarrow> Server" where
  "confirm s socket newMessage =
     (case ws_send s socket (MessageConfirmed newMessage) of
        Inl (error, s') \<Rightarrow> s'
      | Inr s' \<Rightarrow> s')"

text \<open>From the reading of \<open>activeChatWindows\<close> to the call of \<open>createNotification\<close>.\<close>

definition after_delivery ::
  "Server \<Rightarrow> nat \<Rightarrow> string \<Rightarrow> string \<Rightarrow> Env \<Rightarrow> Conversation \<Rightarrow> Message \<Rightarrow> Connection option \<Rightarrow> Server" where
  "after_delivery s socket uid receiverId env conversation newMessage receiverConnection =
     (let senderHasChatOpen = hasChatOpen s uid receiverId;
          receiverHasChatOpen = hasChatOpen s receiverId uid;
          bothActivelyChatting = (senderHasChatOpen \<and> receiverHasChatOpen)
      in if \<not> bothActivelyChatting
         then suspend s (AwaitNotification socket uid receiverId env conversation newMessage
                           receiverConnection)
         else confirm s socket newMessage)"

text \<open>From the resolution of \<open>createMessage\<close> to the next \<open>await\<close>.\<close>

definition after_message ::
  "Server \<Rightarrow> nat \<Rightarrow> string \<Rightarrow> string \<Rightarrow> Env \<Rightarrow> Conversation \<Rightarrow> Message \<Rightarrow> Server" where
  "after_message s socket uid receiverId env conversation newMessage =
     (let receiverConnection = Map_get (connectedUsers s) receiverId
      in case receiverConnection of
           Some c \<Rightarrow>
             if readyState_of s (ws c) = OPEN
             then suspend s (AwaitSender socket uid receiverId env conversation newMessage c)
             else after_delivery s socket uid receiverId env conversation newMessage receiverConnection
         | None \<Rightarrow>
             after_delivery s socket uid receiverId env conversation newMessage receiverConnection)"

definition typing :: "Server \<Rightarrow> string \<Rightarrow> string \<Rightarrow> bool \<Rightarrow> outcome" where
  "typing s uid typingReceiverId isTyping =
     (case Map_get (connectedUsers s) typingReceiverId of
        Some c \<Rightarrow>
          if readyState_of s (ws c) = OPEN
          then ws_send s (ws c) (UserTyping uid isTyping)
          else Inr s
      | None \<Rightarrow> Inr s)"

text \<open>The \<open>message\<close> listener, up to its first \<open>await\<close>. Its \<open>try\<close> block catches whatever
  a case throws, and each case returns at once when \<open>userId\<close> is falsy. The
  \<open>sendMessage\<close> case calls \<open>storage.getConversation\<close> and waits.\<close>

definition on_message :: "Server \<Rightarrow> nat \<Rightarrow> string \<Rightarrow> ClientMessage \<Rightarrow> Env \<Rightarrow> Server" where
  "on_message s socket uid message env =
     (case (case message of
              Malformed \<Rightarrow> Inl (SyntaxError, s)
            | Unknown \<Rightarrow> Inr s
            | OpenChatWindow otherUserId \<Rightarrow>
                if uid = [] then Inr s else Inr (openChatWindow s uid otherUserId)
            | CloseChatWindow otherUserId \<Rightarrow>
                if uid = [] then Inr s else Inr (closeChatWindow s uid otherUserId)
            | SendMessage receiverId content' imageUrl' \<Rightarrow>
                if uid = [] then Inr s
                else Inr (suspend s (AwaitConversation socket uid receiverId content' imageUrl' env))
            | Typing receiverId isTyping \<Rightarrow>
                if uid = [] then Inr s else typing s uid receiverId isTyping) of
        Inl (error, s') \<Rightarrow> s'
      | Inr s' \<Rightarrow> s')"


subsection \<open>Connecting and disconnecting\<close>

text \<open>The handshake request, by what the listener reads of it: the cookies that
  \<open>parseCookie(req.headers.cookie || '')\<close> returns (none for a request without the
  header).\<close>

record Request =
  cookies :: "(string \<times> string) list"

text \<open>\<open>sessionId.startsWith('s:') ? sessionId.slice(2).split('.')[0] : sessionId\<close>.\<close>

definition actualSessionId :: "string \<Rightarrow> string" where
  "actualSessionId sessionId =
     (if take 2 sessionId = ''s:''
      then takeWhile (\<lambda>c. c \<noteq> CHR ''.'') (drop 2 sessionId)
      else sessionId)"

text \<open>\<open>ws.on('message', ...)\<close> and \<open>ws.on('close', ...)\<close>, with the \<open>userId\<close> they close
  over.\<close>

definition add_listeners :: "Server \<Rightarrow> nat \<Rightarrow> string \<Rightarrow> Server" where
  "add_listeners s h uid =
     (case sockets s h of
        Some sock \<Rightarrow> s\<lparr>sockets := (sockets s)(h \<mapsto> sock\<lparr>listeners := Some uid\<rparr>)\<rparr>
      | None \<Rightarrow> s)"

text \<open>The \<open>connection\<close> listener, up to its first \<open>await\<close>, for the socket \<open>h\<close> the
  server has just accepted (it is open, and has no listeners yet). With a session
  cookie it calls \<open>sessionStore.get\<close> and waits.\<close>

definition connection :: "Server \<Rightarrow> nat \<Rightarrow> Request \<Rightarrow> timestamp \<Rightarrow> Server" where
  "connection s h req now =
     (let s0 = s\<lparr>sockets := (sockets s)(h \<mapsto> \<lparr>readyState = OPEN, listeners = None\<rparr>)\<rparr>
      in case Map_get (cookies req) ''connect.sid'' of
           None \<Rightarrow> ws_close s0 h (Some (1008, ''Authentication required''))
         | Some sessionId \<Rightarrow>
             if sessionId = [] then ws_close s0 h (Some (1008, ''Authentication required''))
             else suspend s0 (AwaitSession h (actualSessionId sessionId) now))"

text \<open>
  A listener going on after the call it waited for: the call is made on storage (or
  on the session store) as it is now, and the listener runs to its next \<open>await\<close> or to
  its end. The socket, the registry and the focus tracker are read as they are now: the
  socket may have been closed, and other listeners may have run, since the listener
  stopped. In the \<open>connection\<close> listener every rejection and exception lands in the
  \<open>catch\<close> block, which closes the socket with 1011 and returns before the listeners
  of the socket are attached; the block leaves the registry as it is.
\<close>

fun resume :: "Server \<Rightarrow> task \<Rightarrow> Server" where
  "resume s (AwaitSession h sid now) =
     (case sessionStore s sid of
        StoreError \<Rightarrow> ws_close s h (Some (1011, ''Authentication failed''))
      | NoSession \<Rightarrow> ws_close s h (Some (1008, ''Authentication required''))
      | Session passportUser \<Rightarrow>
          (case passportUser of
             None \<Rightarrow> ws_close s h (Some (1008, ''Authentication required''))
           | Some authenticatedUserId \<Rightarrow>
               if authenticatedUserId = []
               then ws_close s h (Some (1008, ''Authentication required''))
               else suspend s (AwaitUser h authenticatedUserId now)))"
| "resume s (AwaitUser h authenticatedUserId now) =
     (case storage_getUser s authenticatedUserId of
        Inl error \<Rightarrow> ws_close s h (Some (1011, ''Authentication failed''))
      | Inr None \<Rightarrow> ws_close s h (Some (1008, ''User not found''))
      | Inr (Some user) \<Rightarrow>
          suspend (s\<lparr>connectedUsers :=
                       Map_set authenticatedUserId \<lparr>ws = h, userId = authenticatedUserId\<rparr>
                         (connectedUsers s)\<rparr>)
            (AwaitOnline h authenticatedUserId now))"
| "resume s (AwaitOnline h authenticatedUserId now) =
     (case and_then (storage_setUserOnlineStatus s now authenticatedUserId True)
             (\<lambda>s2. broadcastToAll s2 (UserOnline authenticatedUserId)) of
        Inl (error, s3) \<Rightarrow> ws_close s3 h (Some (1011, ''Authentication failed''))
      | Inr s3 \<Rightarrow> add_listeners s3 h authenticatedUserId)"
| "resume s (AwaitConversation socket uid receiverId content' imageUrl' env) =
     (case storage_getConversation s uid receiverId of
        Inl error \<Rightarrow> s
      | Inr None \<Rightarrow> suspend s (AwaitNewConversation socket uid receiverId content' imageUrl' env)
      | Inr (Some conversation) \<Rightarrow>
          suspend s (AwaitMessage socket uid receiverId content' imageUrl' env conversation))"
| "resume s (AwaitNewConversation socket uid receiverId content' imageUrl' env) =
     (case storage_createConversation s (uuid_conversation env) (date_now env)
             \<lparr>participant1Id = uid, participant2Id = receiverId\<rparr> of
        Inl (error, s') \<Rightarrow> s'
      | Inr (s1, conversation) \<Rightarrow>
          suspend s1 (AwaitMessage socket uid receiverId content' imageUrl' env conversation))"
| "resume s (AwaitMessage socket uid receiverId content' imageUrl' env conversation) =
     (case storage_createMessage s (uuid_message env) (date_now env)
             \<lparr>conversationId_M = id_C conversation, senderId = uid,
              content = content', imageUrl = imageUrl'\<rparr> of
        Inl (error, s') \<Rightarrow> s'
      | Inr (s2, newMessage) \<Rightarrow> after_message s2 socket uid receiverId env conversation newMessage)"
| "resume s (AwaitSender socket uid receiverId env conversation newMessage receiverConnection) =
     (case storage_getUser s uid of
        Inl error \<Rightarrow> s
      | Inr senderUser \<Rightarrow>
          (case ws_send s (ws receiverConnection)
                  (NewMessage newMessage (map_option toPublicUser senderUser)) of
             Inl (error, s') \<Rightarrow> s'
           | Inr s3 \<Rightarrow>
               after_delivery s3 socket uid receiverId env conversation newMessage
                 (Some receiverConnection)))"
| "resume s (AwaitNotification socket uid receiverId env conversation newMessage receiverConnection) =
     (case storage_createNotification s (uuid_notification env) (date_now env)
             \<lparr>userId_N = receiverId, type_N = ''message_received'',
              fromUserId = uid, conversationId_N = Some (id_C conversation),
              data_N = None\<rparr> of
        Inl (notificationError, s') \<Rightarrow> confirm s' socket newMessage
      | Inr (s4, notification) \<Rightarrow>
          suspend s4 (AwaitNotifier socket uid receiverId newMessage receiverConnection notification))"
| "resume s (AwaitNotifier socket uid receiverId newMessage receiverConnection notification) =
     (case storage_getUser s uid of
        Inl notificationError \<Rightarrow> confirm s socket newMessage
      | Inr senderUser \<Rightarrow>
          (case (case (senderUser, receiverConnection) of
                   (Some senderUser', Some c) \<Rightarrow>
                     if readyState_of s (ws c) = OPEN
                     then ws_send s (ws c)
                            (NewNotification
                               \<lparr>id_P = id_N notification,
                                type_P = ''message_received'',
                                fromUserId_P = uid,
                                fromUserName = firstName senderUser',
                                fromUserPhoto = profilePhoto senderUser',
                                message_P = firstName senderUser' @ '' sent you a message.'',
                                createdAt_P = createdAt_N notification\<rparr>)
                     else Inr s
                 | _ \<Rightarrow> Inr s) of
             Inl (notificationError, s5) \<Rightarrow> confirm s5 socket newMessage
           | Inr s5 \<Rightarrow> confirm s5 socket newMessage))"

text \<open>The \<open>close\<close> listener of a socket whose listeners closed over \<open>uid\<close>. A rejected
  \<open>setUserOnlineStatus\<close> ends it after the registry entry is deleted.\<close>

definition on_close :: "Server \<Rightarrow> string \<Rightarrow> timestamp \<Rightarrow> outcome" where
  "on_close s uid now =
     (if uid = [] then Inr s
      else (let s1 = s\<lparr>connectedUsers := Map_delete uid (connectedUsers s)\<rparr>
            in and_then (storage_setUserOnlineStatus s1 now uid False)
                 (\<lambda>s2. let s3 = s2\<lparr>activeChatWindows := Map_delete uid (activeChatWindows s2)\<rparr>
                       in broadcastToAll s3 (UserOffline uid))))"

subsection \<open>POST /api/logout\<close>

text \<open>An HTTP request, by what the route reads of it: \<open>req.user\<close> (\<open>isAuthenticated()\<close>
  holds when Passport has set it), the identifier of its session, and the error, if any,
  that Passport's \<open>req.logout\<close> hands to its callback.\<close>

record HttpRequest =
  user :: "User option"
  sessionID :: string
  logout_error :: bool

text \<open>What a route answers: \<open>res.sendStatus\<close>, \<open>next(err)\<close>, an error object
  \<open>{ message }\<close> with its status, or the object given to \<open>res.json\<close>. A public profile
  is the object \<open>toPublicUser\<close> builds.\<close>

datatype Response =
    SendStatus nat
  | NextError
  | Fail nat string
  | TooManyPhotos nat nat
  | Users "(string \<times> json) list list"
  | Profile "(string \<times> json) list"
  | ConversationList "(Conversation \<times> (string \<times> json) list \<times> Message option) list"
  | MessageList "Message list"
  | Filters string string int int
  | ProfilePhoto string "(string \<times> json) list option"
  | ImageUrl string
  | PhotosUploaded "json list" "string list" "(string \<times> json) list option"
  | PhotosDeleted "json list" "(string \<times> json) list option"
  | NotificationList "(Notification \<times> (string \<times> json) list) list"
  | Count nat

text \<open>\<open>req.logout\<close> is Passport's: it removes the principal from the session, so the
  session store no longer resolves the session to a user.\<close>

definition req_logout :: "Server \<Rightarrow> HttpRequest \<Rightarrow> Server" where
  "req_logout s req =
     (if logout_error req then s
      else s\<lparr>sessionStore := (sessionStore s)(sessionID req := NoSession)\<rparr>)"

definition logout ::
  "Server \<Rightarrow> HttpRequest \<Rightarrow> timestamp \<Rightarrow> (exn \<times> Server) + (Response \<times> Server)" where
  "logout s req now =
     (case user req of
        None \<Rightarrow> Inr (SendStatus 401, s)
      | Some u \<Rightarrow>
          (let uid = id_U u
           in case (case Map_get (connectedUsers s) uid of
                      Some userConnection \<Rightarrow>
                        (let s1 = ws_close s (ws userConnection) None;
                             s2 = s1\<lparr>connectedUsers := Map_delete uid (connectedUsers s1)\<rparr>;
                             s3 = s2\<lparr>activeChatWindows := Map_delete uid (activeChatWindows s2)\<rparr>
                         in and_then (storage_setUserOnlineStatus s3 now uid False)
                              (\<lambda>s4. broadcastToAll s4 (UserOffline uid)))
                    | None \<Rightarrow> Inr s) of
                Inl x \<Rightarrow> Inl x
              | Inr s5 \<Rightarrow>
                  Inr (if logout_error req then NextError else SendStatus 200, req_logout s5 req)))"

subsection \<open>The event loop\<close>

text \<open>
  One listener runs at a time, from where it starts or goes on to its next \<open>await\<close>
  or its end. A socket is accepted once (\<open>Connect\<close>); frames reach the \<open>message\<close>
  listener of a socket that has listeners and is not closed (\<open>Frame\<close>); a call that a
  listener waits for settles, in any order, and the listener goes on (\<open>Resume\<close>, with
  the place of the task among the pending ones); the transport closes a socket once,
  which runs its \<open>close\<close> listener if it has one by then (\<open>Drop\<close>); an exception that
  leaves a listener leaves the state as it was when thrown. The \<open>close\<close> listener and
  the logout route, which wait for one call each, are run through. \<open>Elsewhere\<close> stands
  for what writes to the database and to the session store only: the other routes and
  modules, and the database going out of reach and coming back.
\<close>

datatype event =
    Connect nat Request timestamp
  | Frame nat ClientMessage Env
  | Resume nat
  | Drop nat timestamp
  | Logout HttpRequest timestamp
  | Elsewhere PgStorage "string \<Rightarrow> SessionLookup"

definition transport_close :: "Server \<Rightarrow> nat \<Rightarrow> timestamp \<Rightarrow> Server" where
  "transport_close s h now =
     (case sockets s h of
        Some sock \<Rightarrow>
          if readyState sock = CLOSED then s
          else (let s1 = s\<lparr>sockets := (sockets s)(h \<mapsto> sock\<lparr>readyState := CLOSED\<rparr>)\<rparr>
                in case listeners sock of
                     Some uid \<Rightarrow> (case on_close s1 uid now of Inl (error, s') \<Rightarrow> s' | Inr s' \<Rightarrow> s')
                   | None \<Rightarrow> s1)
      | None \<Rightarrow> s)"

fun step :: "Server \<Rightarrow> event \<Rightarrow> Server" where
  "step s (Connect h req now) = (if sockets s h = None then connection s h req now else s)"
| "step s (Frame h message env) =
     (case sockets s h of
        Some sock \<Rightarrow>
          (case listeners sock of
             Some uid \<Rightarrow> if readyState sock = CLOSED then s else on_message s h uid message env
           | None \<Rightarrow> s)
      | None \<Rightarrow> s)"
| "step s (Resume k) =
     (if k < length (pending s)
      then resume (s\<lparr>pending := take k (pending s) @ drop (Suc k) (pending s)\<rparr>) (pending s ! k)
      else s)"
| "step s (Drop h now) = transport_close s h now"
| "step s (Logout req now) = (case logout s req now of Inl (error, s') \<Rightarrow> s' | Inr (r, s') \<Rightarrow> s')"
| "step s (Elsewhere db ss) = s\<lparr>storage := db, sessionStore := ss\<rparr>"

fun run :: "Server \<Rightarrow> event list \<Rightarrow> Server" where
  "run s [] = s"
| "run s (e # es) = run (step s e) es"

text \<open>The server as \<open>registerRoutes\<close> leaves it: nobody connected, no chat window open,
  no listener waiting.\<close>

definition Server_new :: "PgStorage \<Rightarrow> (string \<Rightarrow> SessionLookup) \<Rightarrow> Server" where
  "Server_new db ss =
     \<lparr>storage = db, sessionStore = ss, connectedUsers = [], activeChatWindows = [],
      sockets = (\<lambda>h. None), pending = [], trace = []\<rparr>"

section \<open>The HTTP routes (server/routes.ts)\<close>

text \<open>
  A route takes \<open>req.user\<close> (\<open>None\<close> when \<open>req.isAuthenticated()\<close> is false) and what it
  reads of the request. The two built-ins of JavaScript that the discovery filters call,
  \<open>parseInt\<close> (\<open>None\<close> for \<open>NaN\<close>) and \<open>String.prototype.toLowerCase\<close>, are
  parameters. A route runs through, its calls on storage made one after the other on
  the database as it is; a rejected call, like \<open>toPublicUser\<close> given \<open>undefined\<close>,
  lands in the \<open>catch\<close> block of the route.
\<close>

record Query =
  q_gender :: "string option"
  q_location :: "string option"
  q_ageMin :: "string option"
  q_ageMax :: "string option"

text \<open>\<open>s.includes(t)\<close>.\<close>

fun includes_str :: "string \<Rightarrow> string \<Rightarrow> bool" where
  "includes_str [] t = (t = [])"
| "includes_str (x # xs) t = (take (length t) (x # xs) = t \<or> includes_str xs t)"

text \<open>The filters of \<open>GET /api/users\<close> and \<open>GET /api/users/online\<close> (the same statements
  in both routes).\<close>

definition discovery_filters ::
  "(string \<Rightarrow> int option) \<Rightarrow> (string \<Rightarrow> string) \<Rightarrow> User \<Rightarrow> Query \<Rightarrow> User list \<Rightarrow> User list" where
  "discovery_filters parseInt toLowerCase me query users0 =
     (let users1 = filter (\<lambda>u. id_U u \<noteq> id_U me) users0;
          users2 = (case q_gender query of
                      Some g \<Rightarrow> if g \<noteq> [] then filter (\<lambda>u. gender u = g) users1 else users1
                    | None \<Rightarrow> users1);
          users3 = (case q_location query of
                      Some l \<Rightarrow>
                        if l \<noteq> []
                        then filter (\<lambda>u. case location u of
                                           Some ul \<Rightarrow> ul \<noteq> [] \<and> includes_str (toLowerCase ul) (toLowerCase l)
                                         | None \<Rightarrow> False) users2
                        else users2
                    | None \<Rightarrow> users2);
          users4 = (case q_ageMin query of
                      Some a \<Rightarrow>
                        if a \<noteq> []
                        then (case parseInt a of
                                Some minAge \<Rightarrow>
                                  if minAge \<ge> 18 then filter (\<lambda>u. age u \<ge> minAge) users3 else users3
                              | None \<Rightarrow> users3)
                        else users3
                    | None \<Rightarrow> users3);
          users5 = (case q_ageMax query of
                      Some a \<Rightarrow>
                        if a \<noteq> []
                        then (case parseInt a of
                                Some maxAge \<Rightarrow>
                                  if maxAge \<le> 99 then filter (\<lambda>u. age u \<le> maxAge) users4 else users4
                              | None \<Rightarrow> users4)
                        else users4
                    | None \<Rightarrow> users4)
      in users5)"

definition get_api_users ::
  "(string \<Rightarrow> int option) \<Rightarrow> (string \<Rightarrow> string) \<Rightarrow> Server \<Rightarrow> User option \<Rightarrow> Query
     \<Rightarrow> Response \<times> Server" where
  "get_api_users parseInt toLowerCase s req_user query =
     (case req_user of
        None \<Rightarrow> (SendStatus 401, s)
      | Some me \<Rightarrow>
          (case storage_getAllUsers s of
             Inl error \<Rightarrow> (Fail 500 ''Failed to fetch users'', s)
           | Inr users0 \<Rightarrow>
               (Users (map toPublicUser (discovery_filters parseInt toLowerCase me query users0)), s)))"

definition get_api_users_online ::
  "(string \<Rightarrow> int option) \<Rightarrow> (string \<Rightarrow> string) \<Rightarrow> Server \<Rightarrow> User option \<Rightarrow> Query
     \<Rightarrow> Response \<times> Server" where
  "get_api_users_online parseInt toLowerCase s req_user query =
     (case req_user of
        None \<Rightarrow> (SendStatus 401, s)
      | Some me \<Rightarrow>
          (case storage_getOnlineUsers s of
             Inl error \<Rightarrow> (Fail 500 ''Failed to fetch online users'', s)
           | Inr users0 \<Rightarrow>
               (Users (map toPublicUser (discovery_filters parseInt toLowerCase me query users0)), s)))"

text \<open>\<open>GET /api/users/:userId\<close>. The inner \<open>try\<close> block catches what the notification
  throws or rejects with; the profile is answered all the same.\<close>

definition get_api_users_userId ::
  "Server \<Rightarrow> User option \<Rightarrow> string \<Rightarrow> string \<Rightarrow> timestamp \<Rightarrow> Response \<times> Server" where
  "get_api_users_userId s req_user uid uuid now =
     (case req_user of
        None \<Rightarrow> (SendStatus 401, s)
      | Some me \<Rightarrow>
          if uid = id_U me then (Fail 400 ''Use /api/user for your own profile'', s)
          else (case storage_getUser s uid of
                  Inl error \<Rightarrow> (Fail 500 ''Failed to fetch user profile'', s)
                | Inr None \<Rightarrow> (Fail 404 ''User not found'', s)
                | Inr (Some u) \<Rightarrow>
                    (let s2 = (case storage_createNotification s uuid now
                                      \<lparr>userId_N = uid, type_N = ''profile_view'', fromUserId = id_U me,
                                       conversationId_N = None, data_N = None\<rparr> of
                                 Inl (notificationError, s') \<Rightarrow> s'
                               | Inr (s1, notification) \<Rightarrow>
                                   (case storage_getUser s1 (id_U me) of
                                      Inl notificationError \<Rightarrow> s1
                                    | Inr None \<Rightarrow> s1
                                    | Inr (Some fromUser) \<Rightarrow>
                                        (case sendToUser s1 uid
                                                (NewNotification
                                                   \<lparr>id_P = id_N notification,
                                                    type_P = ''profile_view'',
                                                    fromUserId_P = id_U me,
                                                    fromUserName = firstName fromUser,
                                                    fromUserPhoto = profilePhoto fromUser,
                                                    message_P = firstName fromUser @ '' viewed your profile.'',
                                                    createdAt_P = createdAt_N notification\<rparr>) of
                                           Inl (notificationError, s') \<Rightarrow> s'
                                         | Inr (sent, s') \<Rightarrow> s')))
                     in (Profile (toPublicUser u), s2))))"

text \<open>\<open>toPublicUser(x)\<close> throws when \<open>x\<close> is \<open>undefined\<close>; the \<open>map\<close> then throws.\<close>

fun safe_conversations ::
  "(Conversation \<times> User option \<times> Message option) list
     \<Rightarrow> (Conversation \<times> (string \<times> json) list \<times> Message option) list option" where
  "safe_conversations [] = Some []"
| "safe_conversations ((conv, otherUser, lastMessage) # rest) =
     (case otherUser of
        None \<Rightarrow> None
      | Some u \<Rightarrow> map_option (\<lambda>xs. (conv, toPublicUser u, lastMessage) # xs) (safe_conversations rest))"

definition get_api_conversations :: "Server \<Rightarrow> User option \<Rightarrow> Response \<times> Server" where
  "get_api_conversations s req_user =
     (case req_user of
        None \<Rightarrow> (SendStatus 401, s)
      | Some me \<Rightarrow>
          (case storage_getUserConversations s (id_U me) of
             Inl error \<Rightarrow> (Fail 500 ''Failed to fetch conversations'', s)
           | Inr conversations' \<Rightarrow>
               (case safe_conversations conversations' of
                  None \<Rightarrow> (Fail 500 ''Failed to fetch conversations'', s)
                | Some safeConversations \<Rightarrow> (ConversationList safeConversations, s))))"

definition get_api_conversations_messages ::
  "Server \<Rightarrow> User option \<Rightarrow> string \<Rightarrow> string \<Rightarrow> timestamp \<Rightarrow> Response \<times> Server" where
  "get_api_conversations_messages s req_user uid uuid now =
     (case req_user of
        None \<Rightarrow> (SendStatus 401, s)
      | Some me \<Rightarrow>
          (case (case storage_getConversation s (id_U me) uid of
                   Inl error \<Rightarrow> Inl (error, s)
                 | Inr (Some c) \<Rightarrow> Inr (s, c)
                 | Inr None \<Rightarrow>
                     storage_createConversation s uuid now
                       \<lparr>participant1Id = id_U me, participant2Id = uid\<rparr>) of
             Inl (error, s') \<Rightarrow> (Fail 500 ''Failed to fetch messages'', s')
           | Inr (s1, conversation) \<Rightarrow>
               (case storage_getMessages s1 (id_C conversation) of
                  Inl error \<Rightarrow> (Fail 500 ''Failed to fetch messages'', s1)
                | Inr messages' \<Rightarrow> (MessageList messages', s1))))"

definition no_updates :: UserUpdates where
  "no_updates =
     \<lparr>set_id = None, set_username = None, set_password = None, set_email = None,
      set_firstName = None, set_lastName = None, set_gender = None, set_profilePhoto = None,
      set_age = None, set_location = None, set_bio = None, set_photos = None,
      set_filterGender = None, set_filterLocation = None, set_filterAgeMin = None,
      set_filterAgeMax = None, set_isOnline = None, set_lastSeen = None, set_createdAt = None\<rparr>"

text \<open>\<open>PATCH /api/profile\<close>: the body, without \<open>id\<close> and \<open>password\<close>, is the update.\<close>

definition patch_api_profile :: "Server \<Rightarrow> User option \<Rightarrow> UserUpdates \<Rightarrow> Response \<times> Server" where
  "patch_api_profile s req_user body =
     (case req_user of
        None \<Rightarrow> (SendStatus 401, s)
      | Some me \<Rightarrow>
          (let updates = body\<lparr>set_id := None, set_password := None\<rparr>
           in case storage_updateUser s (id_U me) updates of
                Inl (error, s') \<Rightarrow> (Fail 500 ''Failed to update profile'', s')
              | Inr (s1, None) \<Rightarrow> (Fail 404 ''User not found'', s1)
              | Inr (s1, Some u) \<Rightarrow> (Profile (toPublicUser u), s1)))"

text \<open>\<open>x || ""\<close>, \<open>x || 20\<close> and \<open>x || null\<close> on the filter columns.\<close>

definition or_empty :: "string option \<Rightarrow> string" where
  "or_empty x = (case x of None \<Rightarrow> [] | Some v \<Rightarrow> v)"

definition or_default :: "int option \<Rightarrow> int \<Rightarrow> int" where
  "or_default x d = (case x of None \<Rightarrow> d | Some n \<Rightarrow> if n = 0 then d else n)"

definition int_or_null :: "int option \<Rightarrow> int option" where
  "int_or_null x = (case x of None \<Rightarrow> None | Some n \<Rightarrow> if n = 0 then None else Some n)"

definition filters_of :: "User \<Rightarrow> Response" where
  "filters_of u =
     Filters (or_empty (filterGender u)) (or_empty (filterLocation u))
       (or_default (filterAgeMin u) 20) (or_default (filterAgeMax u) 40)"

definition get_api_user_filters :: "Server \<Rightarrow> User option \<Rightarrow> Response \<times> Server" where
  "get_api_user_filters s req_user =
     (case req_user of
        None \<Rightarrow> (SendStatus 401, s)
      | Some me \<Rightarrow>
          (case storage_getUser s (id_U me) of
             Inl error \<Rightarrow> (Fail 500 ''Failed to fetch filters'', s)
           | Inr None \<Rightarrow> (Fail 404 ''User not found'', s)
           | Inr (Some u) \<Rightarrow> (filters_of u, s)))"

definition patch_api_user_filters ::
  "Server \<Rightarrow> User option \<Rightarrow> string option \<Rightarrow> string option \<Rightarrow> int option \<Rightarrow> int option
     \<Rightarrow> Response \<times> Server" where
  "patch_api_user_filters s req_user gender' location' ageMin ageMax =
     (case req_user of
        None \<Rightarrow> (SendStatus 401, s)
      | Some me \<Rightarrow>
          (case storage_updateUser s (id_U me)
                  (no_updates\<lparr>set_filterGender := Some (or_null gender'),
                              set_filterLocation := Some (or_null location'),
                              set_filterAgeMin := Some (int_or_null ageMin),
                              set_filterAgeMax := Some (int_or_null ageMax)\<rparr>) of
             Inl (error, s') \<Rightarrow> (Fail 500 ''Failed to save filters'', s')
           | Inr (s1, None) \<Rightarrow> (Fail 404 ''User not found'', s1)
           | Inr (s1, Some u) \<Rightarrow> (filters_of u, s1)))"

definition delete_api_user_filters :: "Server \<Rightarrow> User option \<Rightarrow> Response \<times> Server" where
  "delete_api_user_filters s req_user =
     (case req_user of
        None \<Rightarrow> (SendStatus 401, s)
      | Some me \<Rightarrow>
          (case storage_updateUser s (id_U me)
                  (no_updates\<lparr>set_filterGender := Some None, set_filterLocation := Some None,
                              set_filterAgeMin := Some None, set_filterAgeMax := Some None\<rparr>) of
             Inl (error, s') \<Rightarrow> (Fail 500 ''Failed to reset filters'', s')
           | Inr (s1, None) \<Rightarrow> (Fail 404 ''User not found'', s1)
           | Inr (s1, Some u) \<Rightarrow> (Filters [] [] 20 40, s1)))"

text \<open>The upload routes. \<open>file\<close> is \<open>req.file.filename\<close> and \<open>files\<close> the file names of
  \<open>req.files\<close>, as multer leaves them (\<open>None\<close> when there is no upload).\<close>

definition post_api_upload_profile :: "Server \<Rightarrow> User option \<Rightarrow> string option \<Rightarrow> Response \<times> Server" where
  "post_api_upload_profile s req_user file =
     (case req_user of
        None \<Rightarrow> (SendStatus 401, s)
      | Some me \<Rightarrow>
          (case file of
             None \<Rightarrow> (Fail 400 ''No file uploaded'', s)
           | Some filename \<Rightarrow>
               (let profilePhotoUrl = ''/uploads/'' @ filename
                in case storage_updateUser s (id_U me)
                          (no_updates\<lparr>set_profilePhoto := Some (Some profilePhotoUrl)\<rparr>) of
                     Inl (error, s') \<Rightarrow> (Fail 500 ''Failed to upload profile picture'', s')
                   | Inr (s1, updatedUser) \<Rightarrow>
                       (ProfilePhoto profilePhotoUrl (map_option toPublicUser updatedUser), s1))))"

definition post_api_upload_message :: "Server \<Rightarrow> User option \<Rightarrow> string option \<Rightarrow> Response \<times> Server" where
  "post_api_upload_message s req_user file =
     (case req_user of
        None \<Rightarrow> (SendStatus 401, s)
      | Some me \<Rightarrow>
          (case file of
             None \<Rightarrow> (Fail 400 ''No file uploaded'', s)
           | Some filename \<Rightarrow> (ImageUrl (''/uploads/'' @ filename), s)))"

text \<open>\<open>currentUser.photos && Array.isArray(currentUser.photos) ? currentUser.photos : []\<close>.\<close>

definition existing_photos :: "User \<Rightarrow> json list" where
  "existing_photos u = (case photos u of Some (JArr xs) \<Rightarrow> xs | _ \<Rightarrow> [])"

definition post_api_upload_photos ::
  "Server \<Rightarrow> User option \<Rightarrow> string list option \<Rightarrow> Response \<times> Server" where
  "post_api_upload_photos s req_user files =
     (case req_user of
        None \<Rightarrow> (SendStatus 401, s)
      | Some me \<Rightarrow>
          (case files of
             None \<Rightarrow> (Fail 400 ''No files uploaded'', s)
           | Some filenames \<Rightarrow>
               if filenames = [] then (Fail 400 ''No files uploaded'', s)
               else (case storage_getUser s (id_U me) of
                       Inl error \<Rightarrow> (Fail 500 ''Failed to upload photos'', s)
                     | Inr None \<Rightarrow> (Fail 404 ''User not found'', s)
                     | Inr (Some currentUser) \<Rightarrow>
                         (let existingPhotos = existing_photos currentUser;
                              newPhotoUrls = map (\<lambda>filename. ''/uploads/'' @ filename) filenames;
                              allPhotos = existingPhotos @ map JStr newPhotoUrls
                          in if length allPhotos > 5
                             then (TooManyPhotos (length existingPhotos) (length newPhotoUrls), s)
                             else (case storage_updateUser s (id_U me)
                                          (no_updates\<lparr>set_photos := Some (Some (JArr allPhotos))\<rparr>) of
                                     Inl (error, s') \<Rightarrow> (Fail 500 ''Failed to upload photos'', s')
                                   | Inr (s1, updatedUser) \<Rightarrow>
                                       (PhotosUploaded allPhotos newPhotoUrls
                                          (map_option toPublicUser updatedUser), s1))))))"

definition delete_api_photos :: "Server \<Rightarrow> User option \<Rightarrow> string option \<Rightarrow> Response \<times> Server" where
  "delete_api_photos s req_user photoUrl =
     (case req_user of
        None \<Rightarrow> (SendStatus 401, s)
      | Some me \<Rightarrow>
          (case or_null photoUrl of
             None \<Rightarrow> (Fail 400 ''Photo URL is required'', s)
           | Some url \<Rightarrow>
               (case storage_getUser s (id_U me) of
                  Inl error \<Rightarrow> (Fail 500 ''Failed to delete photo'', s)
                | Inr None \<Rightarrow> (Fail 404 ''User not found'', s)
                | Inr (Some currentUser) \<Rightarrow>
                    (let existingPhotos = existing_photos currentUser;
                         updatedPhotos = filter (\<lambda>photo. photo \<noteq> JStr url) existingPhotos
                     in if length existingPhotos = length updatedPhotos
                        then (Fail 404 ''Photo not found in gallery'', s)
                        else (case storage_updateUser s (id_U me)
                                     (no_updates\<lparr>set_photos := Some (Some (JArr updatedPhotos))\<rparr>) of
                                Inl (error, s') \<Rightarrow> (Fail 500 ''Failed to delete photo'', s')
                              | Inr (s1, updatedUser) \<Rightarrow>
                                  (PhotosDeleted updatedPhotos
                                     (map_option toPublicUser updatedUser), s1))))))"

text \<open>The notification routes.\<close>

fun safe_notifications ::
  "(Notification \<times> User option) list \<Rightarrow> (Notification \<times> (string \<times> json) list) list option" where
  "safe_notifications [] = Some []"
| "safe_notifications ((notification, fromUser) # rest) =
     (case fromUser of
        None \<Rightarrow> None
      | Some u \<Rightarrow> map_option (\<lambda>xs. (notification, toPublicUser u) # xs) (safe_notifications rest))"

definition get_api_notifications :: "Server \<Rightarrow> User option \<Rightarrow> Response \<times> Server" where
  "get_api_notifications s req_user =
     (case req_user of
        None \<Rightarrow> (SendStatus 401, s)
      | Some me \<Rightarrow>
          (case storage_getUserNotifications s (id_U me) of
             Inl error \<Rightarrow> (Fail 500 ''Failed to fetch notifications'', s)
           | Inr notifications' \<Rightarrow>
               (case safe_notifications notifications' of
                  None \<Rightarrow> (Fail 500 ''Failed to fetch notifications'', s)
                | Some ns \<Rightarrow> (NotificationList ns, s))))"

definition get_api_notifications_unread_count :: "Server \<Rightarrow> User option \<Rightarrow> Response \<times> Server" where
  "get_api_notifications_unread_count s req_user =
     (case req_user of
        None \<Rightarrow> (SendStatus 401, s)
      | Some me \<Rightarrow>
          (case storage_getUnreadNotificationCount s (id_U me) of
             Inl error \<Rightarrow> (Fail 500 ''Failed to fetch unread count'', s)
           | Inr count' \<Rightarrow> (Count count', s)))"

definition post_api_notifications_mark_read :: "Server \<Rightarrow> User option \<Rightarrow> string \<Rightarrow> Response \<times> Server" where
  "post_api_notifications_mark_read s req_user i =
     (case req_user of
        None \<Rightarrow> (SendStatus 401, s)
      | Some me \<Rightarrow>
          (case storage_markNotificationAsRead s i of
             Inl (error, s') \<Rightarrow> (Fail 500 ''Failed to mark notification as read'', s')
           | Inr s1 \<Rightarrow> (SendStatus 200, s1)))"

definition post_api_notifications_mark_all_read :: "Server \<Rightarrow> User option \<Rightarrow> Response \<times> Server" where
  "post_api_notifications_mark_all_read s req_user =
     (case req_user of
        None \<Rightarrow> (SendStatus 401, s)
      | Some me \<Rightarrow>
          (case storage_markAllNotificationsAsRead s (id_U me) of
             Inl (error, s') \<Rightarrow> (Fail 500 ''Failed to mark all notifications as read'', s')
           | Inr s1 \<Rightarrow> (SendStatus 200, s1)))"

definition delete_api_notifications :: "Server \<Rightarrow> User option \<Rightarrow> string \<Rightarrow> Response \<times> Server" where
  "delete_api_notifications s req_user i =
     (case req_user of
        None \<Rightarrow> (SendStatus 401, s)
      | Some me \<Rightarrow>
          (case storage_deleteNotification s i of
             Inl (error, s') \<Rightarrow> (Fail 500 ''Failed to delete notification'', s')
           | Inr s1 \<Rightarrow> (SendStatus 200, s1)))"

text \<open>The requests \<open>registerRoutes\<close> defines a route for, and the route each one reaches.
  An exception that escapes \<open>POST /api/logout\<close> reaches the error handler of Express.\<close>

datatype HttpCall =
    GET_users "User option" Query
  | GET_users_online "User option" Query
  | GET_users_userId "User option" string string timestamp
  | GET_conversations "User option"
  | GET_conversations_messages "User option" string string timestamp
  | PATCH_profile "User option" UserUpdates
  | GET_user_filters "User option"
  | PATCH_user_filters "User option" "string option" "string option" "int option" "int option"
  | DELETE_user_filters "User option"
  | POST_upload_profile "User option" "string option"
  | POST_upload_message "User option" "string option"
  | POST_upload_photos "User option" "string list option"
  | DELETE_photos "User option" "string option"
  | GET_notifications "User option"
  | GET_notifications_unread_count "User option"
  | POST_notifications_mark_read "User option" string
  | POST_notifications_mark_all_read "User option"
  | DELETE_notifications "User option" string
  | POST_logout HttpRequest timestamp

fun http ::
  "(string \<Rightarrow> int option) \<Rightarrow> (string \<Rightarrow> string) \<Rightarrow> Server \<Rightarrow> HttpCall \<Rightarrow> Response \<times> Server" where
  "http pI tL s (GET_users u q) = get_api_users pI tL s u q"
| "http pI tL s (GET_users_online u q) = get_api_users_online pI tL s u q"
| "http pI tL s (GET_users_userId u i uuid now) = get_api_users_userId s u i uuid now"
| "http pI tL s (GET_conversations u) = get_api_conversations s u"
| "http pI tL s (GET_conversations_messages u i uuid now) = get_api_conversations_messages s u i uuid now"
| "http pI tL s (PATCH_profile u body) = patch_api_profile s u body"
| "http pI tL s (GET_user_filters u) = get_api_user_filters s u"
| "http pI tL s (PATCH_user_filters u g l a b) = patch_api_user_filters s u g l a b"
| "http pI tL s (DELETE_user_filters u) = delete_api_user_filters s u"
| "http pI tL s (POST_upload_profile u f) = post_api_upload_profile s u f"
| "http pI tL s (POST_upload_message u f) = post_api_upload_message s u f"
| "http pI tL s (POST_upload_photos u fs) = post_api_upload_photos s u fs"
| "http pI tL s (DELETE_photos u p) = delete_api_photos s u p"
| "http pI tL s (GET_notifications u) = get_api_notifications s u"
| "http pI tL s (GET_notifications_unread_count u) = get_api_notifications_unread_count s u"
| "http pI tL s (POST_notifications_mark_read u i) = post_api_notifications_mark_read s u i"
| "http pI tL s (POST_notifications_mark_all_read u) = post_api_notifications_mark_all_read s u"
| "http pI tL s (DELETE_notifications u i) = delete_api_notifications s u i"
| "http pI tL s (POST_logout req now) =
     (case logout s req now of Inl (error, s') \<Rightarrow> (NextError, s') | Inr (r, s') \<Rightarrow> (r, s'))"

text \<open>The user objects in a response and in a frame.\<close>

fun users_in :: "Response \<Rightarrow> (string \<times> json) list list" where
  "users_in (Users ps) = ps"
| "users_in (Profile p) = [p]"
| "users_in (ConversationList cs) = map (\<lambda>(conv, otherUser, lastMessage). otherUser) cs"
| "users_in (ProfilePhoto url p) = (case p of None \<Rightarrow> [] | Some x \<Rightarrow> [x])"
| "users_in (PhotosUploaded allPhotos newPhotos p) = (case p of None \<Rightarrow> [] | Some x \<Rightarrow> [x])"
| "users_in (PhotosDeleted updatedPhotos p) = (case p of None \<Rightarrow> [] | Some x \<Rightarrow> [x])"
| "users_in (NotificationList ns) = map snd ns"
| "users_in r = []"

fun users_in_frame :: "frame \<Rightarrow> (string \<times> json) list list" where
  "users_in_frame (NewMessage m sender) = (case sender of None \<Rightarrow> [] | Some x \<Rightarrow> [x])"
| "users_in_frame f = []"

text \<open>The properties of a user row that are not for other users' eyes.\<close>

definition private_fields :: "string set" where
  "private_fields =
     {''password'', ''email'', ''filterGender'', ''filterLocation'', ''filterAgeMin'', ''filterAgeMax''}"



section \<open>Auxiliary notions for the proofs\<close>

text \<open>What a send guarded by \<open>readyState === WebSocket.OPEN\<close> leaves behind: the frame
  at the end of the trace when the socket is open, nothing otherwise.\<close>

definition deliver :: "Server \<Rightarrow> nat \<Rightarrow> frame \<Rightarrow> Server" where
  "deliver s h f = (if readyState_of s h = OPEN then s\<lparr>trace := trace s @ [Sent h f]\<rparr> else s)"

text \<open>The sockets a broadcast of the registry \<open>cs\<close> writes to, in order.\<close>

definition open_sockets :: "Server \<Rightarrow> Connection list \<Rightarrow> nat list" where
  "open_sockets s cs = map ws (filter (\<lambda>c. readyState_of s (ws c) = OPEN) cs)"

text \<open>The part of the trace an operation added.\<close>

definition added :: "Server \<Rightarrow> Server \<Rightarrow> effect list" where
  "added s s' = drop (length (trace s)) (trace s')"

text \<open>A frame that opens or closes the chat window with \<open>x\<close>.\<close>

definition window_frame :: "ClientMessage \<Rightarrow> string \<Rightarrow> bool" where
  "window_frame m x = (m = OpenChatWindow x \<or> m = CloseChatWindow x)"

text \<open>The notifications and messages created and the frames written in a piece of the
  trace.\<close>

fun created_notifications :: "effect list \<Rightarrow> Notification list" where
  "created_notifications [] = []"
| "created_notifications (NotificationCreated n # es) = n # created_notifications es"
| "created_notifications (e # es) = created_notifications es"

fun created_messages :: "effect list \<Rightarrow> Message list" where
  "created_messages [] = []"
| "created_messages (MessageCreated m # es) = m # created_messages es"
| "created_messages (e # es) = created_messages es"

fun sends :: "effect list \<Rightarrow> (nat \<times> frame) list" where
  "sends [] = []"
| "sends (Sent h f # es) = (h, f) # sends es"
| "sends (e # es) = sends es"

text \<open>The pending tasks once the one at place \<open>k\<close> has gone on.\<close>

definition others :: "Server \<Rightarrow> nat \<Rightarrow> task list" where
  "others s k = take k (pending s) @ drop (Suc k) (pending s)"

text \<open>The state a broadcast leaves: every open socket of the registry, in the order of
  the registry, has the frame.\<close>

definition broadcast :: "Server \<Rightarrow> frame \<Rightarrow> Server" where
  "broadcast s f = foldl (\<lambda>s' c. deliver s' (ws c) f) s (Map_values (connectedUsers s))"

text \<open>The registry entries of a user.\<close>

definition entries_for :: "Server \<Rightarrow> string \<Rightarrow> (string \<times> Connection) list" where
  "entries_for s uid = filter (\<lambda>e. fst e = uid) (connectedUsers s)"

text \<open>The message a frame carries, and the message a stopped listener will deliver or
  confirm.\<close>

fun message_of :: "frame \<Rightarrow> Message option" where
  "message_of (NewMessage m sender) = Some m"
| "message_of (MessageConfirmed m) = Some m"
| "message_of f = None"

fun task_message :: "task \<Rightarrow> Message option" where
  "task_message (AwaitSender socket uid receiverId env conversation m c) = Some m"
| "task_message (AwaitNotification socket uid receiverId env conversation m c) = Some m"
| "task_message (AwaitNotifier socket uid receiverId m c n) = Some m"
| "task_message t = None"

text \<open>In a piece of the trace, every frame that carries a message comes after the
  creation of that message (\<open>seen\<close> holds the messages created before the piece).\<close>

fun persisted_first :: "Message list \<Rightarrow> effect list \<Rightarrow> bool" where
  "persisted_first seen [] = True"
| "persisted_first seen (MessageCreated m # es) = persisted_first (m # seen) es"
| "persisted_first seen (Sent h f # es) =
     ((case message_of f of Some m \<Rightarrow> m \<in> set seen | None \<Rightarrow> True) \<and> persisted_first seen es)"
| "persisted_first seen (e # es) = persisted_first seen es"

text \<open>Every user object in the frames of a piece of the trace is the public profile of a
  user in storage.\<close>

definition public_only :: "PgStorage \<Rightarrow> effect list \<Rightarrow> bool" where
  "public_only db es =
     list_all (\<lambda>(h, f). list_all (\<lambda>p. p \<in> toPublicUser ` set (pg_getAllUsers db)) (users_in_frame f))
       (sends es)"

text \<open>A later state whose trace continues that of an earlier one with frames that carry
  public profiles only.\<close>

definition grows :: "PgStorage \<Rightarrow> Server \<Rightarrow> Server \<Rightarrow> bool" where
  "grows db s s' =
     (take (length (trace s)) (trace s') = trace s \<and> public_only db (added s s'))"

text \<open>The socket of a user's registry entry when it is open.\<close>

definition reachable :: "Server \<Rightarrow> string \<Rightarrow> nat option" where
  "reachable s uid =
     (case Map_get (connectedUsers s) uid of
        Some c \<Rightarrow> if readyState_of s (ws c) = OPEN then Some (ws c) else None
      | None \<Rightarrow> None)"


text \<open>The messages the stopped listeners hold are among those in \<open>seen\<close>.\<close>

definition holds_seen :: "Message list \<Rightarrow> task list \<Rightarrow> bool" where
  "holds_seen seen ts = (\<forall>t \<in> set ts. \<forall>m. task_message t = Some m \<longrightarrow> m \<in> set seen)"

text \<open>The user a stopped \<open>connection\<close> listener has authenticated, and the states in
  which every listener, attached or still to be attached, is for a non-empty \<open>userId\<close>.\<close>

fun handshake_user :: "task \<Rightarrow> string option" where
  "handshake_user (AwaitUser h uid now) = Some uid"
| "handshake_user (AwaitOnline h uid now) = Some uid"
| "handshake_user t = None"

definition named_listeners :: "Server \<Rightarrow> bool" where
  "named_listeners s =
     ((\<forall>h sock uid. sockets s h = Some sock \<and> listeners sock = Some uid \<longrightarrow> uid \<noteq> [])
      \<and> (\<forall>t \<in> set (pending s). \<forall>uid. handshake_user t = Some uid \<longrightarrow> uid \<noteq> []))"


section \<open>Example inputs\<close>

text \<open>Concrete inputs on which the theorems below are instantiated.\<close>

definition ex_insert :: "string \<Rightarrow> InsertNotification" where
  "ex_insert u = \<lparr>userId_N = u, type_N = ''profile_view'', fromUserId = ''dave'',
                  conversationId_N = None, data_N = None\<rparr>"

definition ex_calls :: "StorageCall list" where
  "ex_calls = [CreateNotification ''n1'' 1 (ex_insert ''bob''),
               CreateNotification ''n2'' 2 (ex_insert ''carol''),
               CreateNotification ''n3'' 3 (ex_insert ''bob'')]"

definition ex_user :: "string \<Rightarrow> string \<Rightarrow> User" where
  "ex_user i name =
     \<lparr>username = i, password = ''secret'', email = i @ ''@example.org'', firstName = name,
      lastName = ''Doe'', gender = ''other'', profilePhoto = None, age = 30, location = None,
      bio = None, photos = None, filterGender = Some ''female'', filterLocation = None,
      filterAgeMin = None, filterAgeMax = None,
      id_U = i, isOnline = Some False, lastSeen = None, createdAt_U = None\<rparr>"

definition ex_storage :: PgStorage where
  "ex_storage =
     \<lparr>users_t = [ex_user ''alice'' ''Alice'', ex_user ''bob'' ''Bob''],
      conversations_t = [], messages_t = [], notifications_t = [], db_up = True\<rparr>"

definition ex_sessions :: "string \<Rightarrow> SessionLookup" where
  "ex_sessions sid =
     (if sid = ''sa'' then Session (Some ''alice'')
      else if sid = ''sb'' then Session (Some ''bob'')
      else NoSession)"

text \<open>Alice on socket 1 and Bob on socket 2, both open, no chat window open.\<close>

definition ex_online :: Server where
  "ex_online =
     \<lparr>storage = ex_storage, sessionStore = ex_sessions,
      connectedUsers = [(''alice'', \<lparr>ws = 1, userId = ''alice''\<rparr>), (''bob'', \<lparr>ws = 2, userId = ''bob''\<rparr>)],
      activeChatWindows = [],
      sockets = (\<lambda>h. if h = 1 then Some \<lparr>readyState = OPEN, listeners = Some ''alice''\<rparr>
                     else if h = 2 then Some \<lparr>readyState = OPEN, listeners = Some ''bob''\<rparr>
                     else None),
      pending = [], trace = []\<rparr>"

definition ex_env :: Env where
  "ex_env = \<lparr>date_now = 100, uuid_conversation = ''c1'', uuid_message = ''m1'',
             uuid_notification = ''n1''\<rparr>"



definition ex_frame :: ClientMessage where
  "ex_frame = SendMessage ''bob'' (Some ''hi'') None"

text \<open>Alice's request to \<open>POST /api/logout\<close>.\<close>

definition ex_logout :: HttpRequest where
  "ex_logout = \<lparr>user = Some (ex_user ''alice'' ''Alice''), sessionID = ''sa'', logout_error = False\<rparr>"




section \<open>Notifications: marking all as read\<close>

lemma markAll_notifications:
  "notifications (markAllNotificationsAsRead st u) =
     foldl (\<lambda>m' n. Map_set (id_N n) (n\<lparr>isRead := Some True\<rparr>) m') (notifications st)
       (filter (unread u) (Map_values (notifications st)))"
proof -
  have "\<And>s. notifications (foldl (\<lambda>s n. s\<lparr>notifications := Map_set (id_N n) (n\<lparr>isRead := Some True\<rparr>) (notifications s)\<rparr>) s ns)
      = foldl (\<lambda>m' n. Map_set (id_N n) (n\<lparr>isRead := Some True\<rparr>) m') (notifications s) ns" for ns
    by (induction ns) simp_all
  then show ?thesis by (simp add: markAllNotificationsAsRead_def)
qed

lemma fold_mark_other:
  "k \<notin> id_N ` set ns \<Longrightarrow>
   map_of (foldl (\<lambda>m' n. Map_set (id_N n) (n\<lparr>isRead := Some True\<rparr>) m') m ns) k = map_of m k"
  by (induction ns arbitrary: m) (auto simp: Map_set_def update_conv')

lemma fold_mark_hit:
  "k \<in> id_N ` set ns \<Longrightarrow>
   \<exists>n \<in> set ns. id_N n = k \<and>
     map_of (foldl (\<lambda>m' n. Map_set (id_N n) (n\<lparr>isRead := Some True\<rparr>) m') m ns) k
       = Some (n\<lparr>isRead := Some True\<rparr>)"
proof (induction ns arbitrary: m rule: rev_induct)
  case Nil
  then show ?case by simp
next
  case (snoc x xs)
  then show ?case
    by (cases "id_N x = k") (auto simp: Map_set_def update_conv')
qed

lemma fold_mark_keys:
  "id_N ` set ns \<subseteq> fst ` set m \<Longrightarrow>
   map fst (foldl (\<lambda>m' n. Map_set (id_N n) (n\<lparr>isRead := Some True\<rparr>) m') m ns) = map fst m"
proof (induction ns rule: rev_induct)
  case Nil
  then show ?case by simp
next
  case (snoc x xs)
  then have "id_N x \<in> set (map fst (foldl (\<lambda>m' n. Map_set (id_N n) (n\<lparr>isRead := Some True\<rparr>) m') m xs))"
    by auto
  with snoc show ?case by (simp add: Map_set_def update_keys)
qed

lemma keyed_lookup:
  "keyed_by_id m \<Longrightarrow> n \<in> set (Map_values m) \<Longrightarrow> map_of m (id_N n) = Some n"
  by (auto simp: keyed_by_id_def Map_values_def list_all_iff)

lemma keyed_entry:
  "keyed_by_id m \<Longrightarrow> map_of m k = Some n \<Longrightarrow> id_N n = k \<and> n \<in> set (Map_values m)"
  by (force simp: keyed_by_id_def Map_values_def list_all_iff dest: map_of_SomeD)

lemma markAll_keyed:
  assumes "keyed_by_id (notifications st)"
  shows "keyed_by_id (notifications (markAllNotificationsAsRead st u))"
proof -
  let ?ns = "filter (unread u) (Map_values (notifications st))"
  let ?m' = "notifications (markAllNotificationsAsRead st u)"
  have sub: "id_N ` set ?ns \<subseteq> fst ` set (notifications st)"
    using assms by (force simp: keyed_by_id_def Map_values_def list_all_iff)
  have keys: "map fst ?m' = map fst (notifications st)"
    unfolding markAll_notifications by (rule fold_mark_keys [OF sub])
  have "id_N n = k" if "(k, n) \<in> set ?m'" for k n
  proof -
    from keys assms have d: "distinct (map fst ?m')" by (simp add: keyed_by_id_def)
    with that have look: "map_of ?m' k = Some n" by simp
    show ?thesis
    proof (cases "k \<in> id_N ` set ?ns")
      case True
      from fold_mark_hit [OF True, of "notifications st"]
      obtain n1 where "id_N n1 = k" "map_of ?m' k = Some (n1\<lparr>isRead := Some True\<rparr>)"
        unfolding markAll_notifications by blast
      with look have "n = n1\<lparr>isRead := Some True\<rparr>" "id_N n1 = k" by simp_all
      then show ?thesis by simp
    next
      case False
      from fold_mark_other [OF False, of "notifications st"] look
      have "map_of (notifications st) k = Some n" unfolding markAll_notifications by simp
      with assms show ?thesis by (simp add: keyed_entry)
    qed
  qed
  with keys assms show ?thesis by (auto simp: keyed_by_id_def list_all_iff)
qed

lemma markAll_count:
  assumes "keyed_by_id (notifications st)"
  shows "getUnreadNotificationCount (markAllNotificationsAsRead st u) u = 0"
proof -
  let ?ns = "filter (unread u) (Map_values (notifications st))"
  let ?m' = "notifications (markAllNotificationsAsRead st u)"
  have k': "keyed_by_id ?m'" by (rule markAll_keyed [OF assms])
  have "\<not> unread u n" if "n \<in> set (Map_values ?m')" for n
  proof
    assume un: "unread u n"
    from keyed_lookup [OF k' that] have look: "map_of ?m' (id_N n) = Some n" .
    show False
    proof (cases "id_N n \<in> id_N ` set ?ns")
      case True
      from fold_mark_hit [OF True, of "notifications st"]
      obtain n1 where "map_of ?m' (id_N n) = Some (n1\<lparr>isRead := Some True\<rparr>)"
        unfolding markAll_notifications by blast
      with look have "n = n1\<lparr>isRead := Some True\<rparr>" by simp
      then have "isRead n = Some True" by simp
      with un show False by (simp add: unread_def)
    next
      case False
      from fold_mark_other [OF False, of "notifications st"] look
      have "map_of (notifications st) (id_N n) = Some n" unfolding markAll_notifications by simp
      with assms have "n \<in> set (Map_values (notifications st))" by (simp add: keyed_entry)
      with un have "n \<in> set ?ns" by simp
      with False show False by blast
    qed
  qed
  then show ?thesis by (simp add: getUnreadNotificationCount_def filter_empty_conv)
qed

lemma markAll_others:
  assumes "keyed_by_id (notifications st)" and "userId_N n \<noteq> u"
  shows "Map_get (notifications (markAllNotificationsAsRead st u)) k = Some n
         \<longleftrightarrow> Map_get (notifications st) k = Some n"
proof -
  let ?ns = "filter (unread u) (Map_values (notifications st))"
  show ?thesis
  proof (cases "k \<in> id_N ` set ?ns")
    case True
    then obtain n0 where n0: "n0 \<in> set ?ns" "id_N n0 = k" by auto
    then have "map_of (notifications st) k = Some n0"
      using keyed_lookup [OF assms(1), of n0] by simp
    moreover from n0 have "userId_N n0 = u" by (simp add: unread_def)
    moreover from fold_mark_hit [OF True, of "notifications st"]
    obtain n1 where "n1 \<in> set ?ns" "map_of (notifications (markAllNotificationsAsRead st u)) k = Some (n1\<lparr>isRead := Some True\<rparr>)"
      unfolding markAll_notifications by auto
    moreover from this have "userId_N n1 = u" by (simp add: unread_def)
    ultimately show ?thesis using assms(2) by (auto simp: Map_get_def)
  next
    case False
    from fold_mark_other [OF False, of "notifications st"] show ?thesis
      unfolding markAll_notifications by (simp add: Map_get_def)
  qed
qed


lemma keyed_update:
  "keyed_by_id m \<Longrightarrow> id_N n = k \<Longrightarrow> keyed_by_id (Map_set k n m)"
proof -
  assume a: "keyed_by_id m" "id_N n = k"
  have "set (AList.update k n m) \<subseteq> insert (k, n) (set m)"
    by (induction m) auto
  with a show ?thesis
    by (auto simp: keyed_by_id_def Map_set_def list_all_iff distinct_update)
qed

lemma keyed_delete:
  "keyed_by_id m \<Longrightarrow> keyed_by_id (Map_delete k m)"
proof -
  assume a: "keyed_by_id m"
  have "set (AList.delete k m) \<subseteq> set m" by (auto simp: AList.delete_eq)
  with a show ?thesis
    by (auto simp: keyed_by_id_def Map_delete_def list_all_iff distinct_delete)
qed

lemma call_keyed:
  assumes "keyed_by_id (notifications st)"
  shows "keyed_by_id (notifications (call st c))"
proof (cases c)
  case (CreateUser i now ins)
  with assms show ?thesis by (simp add: createUser_def Let_def)
next
  case (UpdateUser i updates)
  with assms show ?thesis by (simp add: updateUser_def Let_def split: option.split)
next
  case (CreateConversation i now ins)
  with assms show ?thesis by (simp add: createConversation_def Let_def)
next
  case (CreateMessage i now ins)
  with assms show ?thesis by (simp add: createMessage_def Let_def split: option.split)
next
  case (SetUserOnlineStatus now uid online)
  with assms show ?thesis by (simp add: setUserOnlineStatus_def split: option.split)
next
  case (CreateNotification i now ins)
  with assms show ?thesis by (simp add: createNotification_def Let_def keyed_update)
next
  case (MarkNotificationAsRead i)
  show ?thesis
  proof (cases "Map_get (notifications st) i")
    case None
    with assms MarkNotificationAsRead show ?thesis by (simp add: markNotificationAsRead_def)
  next
    case (Some n)
    then have "id_N (n\<lparr>isRead := Some True\<rparr>) = i"
      using keyed_entry [OF assms, of i n] by (simp add: Map_get_def)
    with assms Some MarkNotificationAsRead show ?thesis
      by (simp add: markNotificationAsRead_def keyed_update)
  qed
next
  case (MarkAllNotificationsAsRead uid)
  with assms show ?thesis by (simp add: markAll_keyed)
next
  case (DeleteNotification i)
  with assms show ?thesis by (simp add: deleteNotification_def keyed_delete)
qed

lemma foldl_call_keyed:
  "keyed_by_id (notifications st) \<Longrightarrow> keyed_by_id (notifications (foldl call st calls))"
  by (induction calls arbitrary: st) (simp_all add: call_keyed)

lemma MemStorage_after_keyed: "keyed_by_id (notifications (MemStorage_after calls))"
  unfolding MemStorage_after_def
  by (rule foldl_call_keyed) (simp add: MemStorage_new_def keyed_by_id_def)

lemma markAll_keys:
  assumes "keyed_by_id (notifications st)"
  shows "map fst (notifications (markAllNotificationsAsRead st u)) = map fst (notifications st)"
proof -
  have "id_N ` set (filter (unread u) (Map_values (notifications st))) \<subseteq> fst ` set (notifications st)"
    using assms by (force simp: keyed_by_id_def Map_values_def list_all_iff)
  then show ?thesis unfolding markAll_notifications by (rule fold_mark_keys)
qed

lemma pg_markAll_count: "pg_getUnreadNotificationCount (pg_markAllNotificationsAsRead rows u) u = 0"
  by (auto simp: pg_getUnreadNotificationCount_def pg_markAllNotificationsAsRead_def pg_unread_def
      filter_empty_conv)

lemma pg_markAll_others:
  "filter (\<lambda>row. userId_N row \<noteq> u) (pg_markAllNotificationsAsRead rows u)
     = filter (\<lambda>row. userId_N row \<noteq> u) rows"
  by (induction rows) (auto simp: pg_markAllNotificationsAsRead_def pg_unread_def)

text \<open>
  Claim C10. For every user \<open>u\<close> and every state a \<open>MemStorage\<close> can be in (the state
  after any sequence of calls on a new one), \<open>getUnreadNotificationCount\<close> returns 0 right
  after \<open>markAllNotificationsAsRead\<close>, the keys of the notification map are the same, and
  a notification of another user is in the map after the call exactly when it was before.
  The same holds of the two \<open>PgStorage\<close> queries on any table of rows.
\<close>

theorem markAll_then_unread_count_zero:
  "getUnreadNotificationCount (markAllNotificationsAsRead (MemStorage_after calls) u) u = 0
   \<and> map fst (notifications (markAllNotificationsAsRead (MemStorage_after calls) u))
       = map fst (notifications (MemStorage_after calls))
   \<and> (\<forall>k n. userId_N n \<noteq> u \<longrightarrow>
         (Map_get (notifications (markAllNotificationsAsRead (MemStorage_after calls) u)) k = Some n
          \<longleftrightarrow> Map_get (notifications (MemStorage_after calls)) k = Some n))
   \<and> pg_getUnreadNotificationCount (pg_markAllNotificationsAsRead rows u) u = 0
   \<and> filter (\<lambda>row. userId_N row \<noteq> u) (pg_markAllNotificationsAsRead rows u)
       = filter (\<lambda>row. userId_N row \<noteq> u) rows"
  using MemStorage_after_keyed [of calls]
  by (simp add: markAll_count markAll_keys markAll_others pg_markAll_count pg_markAll_others)

theorem markAll_then_unread_count_zero_witness:
  "getUnreadNotificationCount (MemStorage_after ex_calls) ''bob'' = 2
   \<and> getUnreadNotificationCount (markAllNotificationsAsRead (MemStorage_after ex_calls) ''bob'') ''bob'' = 0
   \<and> Map_get (notifications (markAllNotificationsAsRead (MemStorage_after ex_calls) ''bob'')) ''n2''
        = Map_get (notifications (MemStorage_after ex_calls)) ''n2''
   \<and> getUnreadNotificationCount (markAllNotificationsAsRead (MemStorage_after ex_calls) ''bob'') ''carol'' = 1"
  using markAll_then_unread_count_zero [of ex_calls "''bob''" "[]"]
  by (simp add: MemStorage_after_def ex_calls_def ex_insert_def MemStorage_new_def
      createNotification_def Let_def Map_set_def or_null_def json_or_null_def
      getUnreadNotificationCount_def markAllNotificationsAsRead_def Map_values_def unread_def Map_get_def)

section \<open>Sends, broadcasts and the fields they leave alone\<close>

lemma deliver_fields [simp]:
  "storage (deliver s h f) = storage s"
  "sessionStore (deliver s h f) = sessionStore s"
  "connectedUsers (deliver s h f) = connectedUsers s"
  "activeChatWindows (deliver s h f) = activeChatWindows s"
  "sockets (deliver s h f) = sockets s"
  "pending (deliver s h f) = pending s"
  "trace (deliver s h f) = trace s @ (if readyState_of s h = OPEN then [Sent h f] else [])"
  by (simp_all add: deliver_def)

lemma readyState_of_deliver [simp]: "readyState_of (deliver s h f) h' = readyState_of s h'"
  by (simp add: readyState_of_def)

lemma readyState_of_cong: "sockets s' = sockets s \<Longrightarrow> readyState_of s' h = readyState_of s h"
  by (simp add: readyState_of_def)

lemma readyState_of_upd [simp]:
  "readyState_of (s\<lparr>storage := a\<rparr>) h = readyState_of s h"
  "readyState_of (s\<lparr>sessionStore := b\<rparr>) h = readyState_of s h"
  "readyState_of (s\<lparr>connectedUsers := c\<rparr>) h = readyState_of s h"
  "readyState_of (s\<lparr>activeChatWindows := d\<rparr>) h = readyState_of s h"
  "readyState_of (s\<lparr>pending := e\<rparr>) h = readyState_of s h"
  "readyState_of (s\<lparr>trace := g\<rparr>) h = readyState_of s h"
  by (simp_all add: readyState_of_def)

lemma hasChatOpen_cong:
  "activeChatWindows s' = activeChatWindows s \<Longrightarrow> hasChatOpen s' a b = hasChatOpen s a b"
  by (simp add: hasChatOpen_def)

lemma hasChatOpen_upd [simp]:
  "hasChatOpen (s\<lparr>storage := a\<rparr>) x y = hasChatOpen s x y"
  "hasChatOpen (s\<lparr>sessionStore := b\<rparr>) x y = hasChatOpen s x y"
  "hasChatOpen (s\<lparr>connectedUsers := c\<rparr>) x y = hasChatOpen s x y"
  "hasChatOpen (s\<lparr>sockets := d\<rparr>) x y = hasChatOpen s x y"
  "hasChatOpen (s\<lparr>pending := e\<rparr>) x y = hasChatOpen s x y"
  "hasChatOpen (s\<lparr>trace := g\<rparr>) x y = hasChatOpen s x y"
  "hasChatOpen (deliver s h f) x y = hasChatOpen s x y"
  by (simp_all add: hasChatOpen_def)

lemma guarded_send:
  "(if readyState_of s h = OPEN then ws_send s h f else Inr s) = Inr (deliver s h f)"
  by (simp add: ws_send_def deliver_def)

lemma caught_send:
  "(case ws_send s h f of Inl (e, s') \<Rightarrow> s' | Inr s' \<Rightarrow> s') = deliver s h f"
  by (simp add: ws_send_def deliver_def)

lemma ws_send_cases:
  "ws_send s h f = Inl (WebSocketNotOpen, s) \<and> readyState_of s h = CONNECTING
   \<or> ws_send s h f = Inr (deliver s h f) \<and> readyState_of s h \<noteq> CONNECTING"
  by (simp add: ws_send_def deliver_def)

lemma confirm_eq: "confirm s h m = deliver s h (MessageConfirmed m)"
  by (simp add: confirm_def caught_send)

lemma broadcast_loop_eq:
  "broadcast_loop s cs f = Inr (foldl (\<lambda>s' c. deliver s' (ws c) f) s cs)"
  by (induction cs arbitrary: s) (simp_all add: guarded_send and_then_def)

lemma foldl_deliver_fields [simp]:
  "storage (foldl (\<lambda>s' c. deliver s' (ws c) f) s cs) = storage s"
  "sessionStore (foldl (\<lambda>s' c. deliver s' (ws c) f) s cs) = sessionStore s"
  "connectedUsers (foldl (\<lambda>s' c. deliver s' (ws c) f) s cs) = connectedUsers s"
  "activeChatWindows (foldl (\<lambda>s' c. deliver s' (ws c) f) s cs) = activeChatWindows s"
  "sockets (foldl (\<lambda>s' c. deliver s' (ws c) f) s cs) = sockets s"
  "pending (foldl (\<lambda>s' c. deliver s' (ws c) f) s cs) = pending s"
  by (induction cs arbitrary: s) simp_all

lemma readyState_of_foldl_deliver [simp]:
  "readyState_of (foldl (\<lambda>s' c. deliver s' (ws c) f) s cs) h = readyState_of s h"
  by (simp add: readyState_of_def)

lemma open_sockets_cong: "sockets s' = sockets s \<Longrightarrow> open_sockets s' cs = open_sockets s cs"
  by (simp add: open_sockets_def readyState_of_def)

lemma foldl_deliver_trace:
  "trace (foldl (\<lambda>s' c. deliver s' (ws c) f) s cs)
     = trace s @ map (\<lambda>h. Sent h f) (open_sockets s cs)"
proof (induction cs arbitrary: s)
  case Nil
  then show ?case by (simp add: open_sockets_def)
next
  case (Cons c cs)
  have "open_sockets (deliver s (ws c) f) cs = open_sockets s cs"
    by (rule open_sockets_cong) simp
  with Cons show ?case by (simp add: open_sockets_def)
qed

lemma broadcastToAll_broadcast: "broadcastToAll s f = Inr (broadcast s f)"
  by (simp add: broadcastToAll_def broadcast_loop_eq broadcast_def)

lemma broadcast_fields [simp]:
  "storage (broadcast s f) = storage s"
  "sessionStore (broadcast s f) = sessionStore s"
  "connectedUsers (broadcast s f) = connectedUsers s"
  "activeChatWindows (broadcast s f) = activeChatWindows s"
  "sockets (broadcast s f) = sockets s"
  "pending (broadcast s f) = pending s"
  by (simp_all add: broadcast_def)

lemma readyState_of_broadcast [simp]: "readyState_of (broadcast s f) h = readyState_of s h"
  by (simp add: readyState_of_def)

lemma broadcast_trace:
  "trace (broadcast s f)
     = trace s @ map (\<lambda>h. Sent h f) (open_sockets s (Map_values (connectedUsers s)))"
  by (simp add: broadcast_def foldl_deliver_trace)

lemma ws_close_fields [simp]:
  "storage (ws_close s h cr) = storage s"
  "sessionStore (ws_close s h cr) = sessionStore s"
  "connectedUsers (ws_close s h cr) = connectedUsers s"
  "activeChatWindows (ws_close s h cr) = activeChatWindows s"
  "pending (ws_close s h cr) = pending s"
  by (simp_all add: ws_close_def split: option.split)

lemma trace_ws_close:
  "trace (ws_close s h cr)
     = trace s @ (if readyState_of s h = OPEN \<or> readyState_of s h = CONNECTING
                  then [CloseCalled h cr] else [])"
  by (simp add: ws_close_def readyState_of_def split: option.split)

lemma readyState_of_ws_close:
  "readyState_of (ws_close s h cr) h'
     = (if h' = h \<and> (readyState_of s h = OPEN \<or> readyState_of s h = CONNECTING) then CLOSING
        else readyState_of s h')"
  by (simp add: ws_close_def readyState_of_def split: option.split)

lemma add_listeners_fields [simp]:
  "storage (add_listeners s h u) = storage s"
  "sessionStore (add_listeners s h u) = sessionStore s"
  "connectedUsers (add_listeners s h u) = connectedUsers s"
  "activeChatWindows (add_listeners s h u) = activeChatWindows s"
  "pending (add_listeners s h u) = pending s"
  "trace (add_listeners s h u) = trace s"
  by (simp_all add: add_listeners_def split: option.split)

lemma readyState_of_add_listeners [simp]:
  "readyState_of (add_listeners s h u) h' = readyState_of s h'"
  by (simp add: add_listeners_def readyState_of_def split: option.split)

lemma suspend_fields [simp]:
  "storage (suspend s t) = storage s"
  "sessionStore (suspend s t) = sessionStore s"
  "connectedUsers (suspend s t) = connectedUsers s"
  "activeChatWindows (suspend s t) = activeChatWindows s"
  "sockets (suspend s t) = sockets s"
  "pending (suspend s t) = pending s @ [t]"
  "trace (suspend s t) = trace s"
  by (simp_all add: suspend_def)

lemma readyState_of_suspend [simp]: "readyState_of (suspend s t) h = readyState_of s h"
  by (simp add: readyState_of_def)

lemma hasChatOpen_suspend [simp]: "hasChatOpen (suspend s t) a b = hasChatOpen s a b"
  by (simp add: hasChatOpen_def)

text \<open>The calls on storage, resolved and rejected.\<close>

lemma resolve_simps [simp]:
  "db_up (storage s) \<Longrightarrow> resolve s r = Inr r"
  "\<not> db_up (storage s) \<Longrightarrow> resolve s r = Inl ConnectionError"
  by (simp_all add: resolve_def)

lemma resolve_Inr: "resolve s r = Inr x \<longleftrightarrow> db_up (storage s) \<and> x = r"
  by (auto simp: resolve_def)

lemma resolve_Inl: "resolve s r = Inl e \<longleftrightarrow> \<not> db_up (storage s) \<and> e = ConnectionError"
  by (auto simp: resolve_def)

lemma storage_getUser_Inr: "storage_getUser s i = Inr r \<longleftrightarrow> db_up (storage s) \<and> r = pg_getUser (storage s) i"
  by (auto simp: storage_getUser_def resolve_def)

lemma storage_setUserOnlineStatus_cases:
  "storage_setUserOnlineStatus s now u b =
     (if db_up (storage s)
      then Inr (s\<lparr>storage := pg_setUserOnlineStatus (storage s) now u b,
                 trace := trace s @ [OnlineStatusSet u b]\<rparr>)
      else Inl (ConnectionError, s))"
  by (simp add: storage_setUserOnlineStatus_def)

lemma storage_createConversation_Inr:
  "storage_createConversation s i now ins = Inr (s1, c) \<Longrightarrow>
     \<exists>db. pg_createConversation (storage s) i now ins = Inr (db, c) \<and> db_up (storage s)
          \<and> s1 = s\<lparr>storage := db, trace := trace s @ [ConversationCreated c]\<rparr>"
  by (auto simp: storage_createConversation_def split: if_splits sum.splits)

lemma storage_createConversation_Inl:
  "storage_createConversation s i now ins = Inl (e, s') \<Longrightarrow> s' = s"
  by (auto simp: storage_createConversation_def split: if_splits sum.splits)

lemma storage_createMessage_Inr:
  "storage_createMessage s i now ins = Inr (s1, m) \<Longrightarrow>
     \<exists>db. pg_createMessage (storage s) i now ins = Inr (db, m) \<and> db_up (storage s)
          \<and> s1 = s\<lparr>storage := db, trace := trace s @ [MessageCreated m]\<rparr>"
  by (auto simp: storage_createMessage_def split: if_splits sum.splits)

lemma storage_createMessage_Inl:
  "storage_createMessage s i now ins = Inl (e, s') \<Longrightarrow> s' = s"
  by (auto simp: storage_createMessage_def split: if_splits sum.splits)

lemma storage_createNotification_Inr:
  "storage_createNotification s i now ins = Inr (s1, n) \<Longrightarrow>
     \<exists>db. pg_createNotification (storage s) i now ins = Inr (db, n) \<and> db_up (storage s)
          \<and> s1 = s\<lparr>storage := db, trace := trace s @ [NotificationCreated n]\<rparr>"
  by (auto simp: storage_createNotification_def split: if_splits sum.splits)

lemma storage_createNotification_Inl:
  "storage_createNotification s i now ins = Inl (e, s') \<Longrightarrow> s' = s"
  by (auto simp: storage_createNotification_def split: if_splits sum.splits)

lemma storage_updateUser_Inr:
  "storage_updateUser s i updates = Inr (s1, r) \<Longrightarrow>
     \<exists>db. pg_updateUser (storage s) i updates = Inr (db, r) \<and> db_up (storage s)
          \<and> s1 = s\<lparr>storage := db\<rparr>"
  by (auto simp: storage_updateUser_def split: if_splits sum.splits)

lemma storage_updateUser_Inl:
  "storage_updateUser s i updates = Inl (e, s') \<Longrightarrow> s' = s"
  by (auto simp: storage_updateUser_def split: if_splits sum.splits)



lemma pg_createNotification_row:
  "pg_createNotification db i now ins = Inr (db', n) \<Longrightarrow>
     n = \<lparr>userId_N = userId_N ins, type_N = type_N ins, fromUserId = fromUserId ins,
          conversationId_N = conversationId_N ins, data_N = data_N ins,
          id_N = i, isRead = Some False, createdAt_N = Some now\<rparr>
     \<and> users_t db' = users_t db \<and> messages_t db' = messages_t db
     \<and> conversations_t db' = conversations_t db \<and> db_up db' = db_up db
     \<and> notifications_t db' = notifications_t db @ [n]"
  by (auto simp: pg_createNotification_def Let_def split: if_splits)

section \<open>The pieces of the listeners\<close>

text \<open>Each piece in terms of guarded sends: what it leaves behind, whether or not a
  statement threw.\<close>

lemma after_delivery_eq:
  "after_delivery s socket uid r env conv m rc =
     (if hasChatOpen s uid r \<and> hasChatOpen s r uid
      then deliver s socket (MessageConfirmed m)
      else suspend s (AwaitNotification socket uid r env conv m rc))"
  by (simp add: after_delivery_def Let_def confirm_eq)

lemma after_message_eq:
  "after_message s socket uid r env conv m =
     (case Map_get (connectedUsers s) r of
        Some c \<Rightarrow>
          if readyState_of s (ws c) = OPEN
          then suspend s (AwaitSender socket uid r env conv m c)
          else after_delivery s socket uid r env conv m (Some c)
      | None \<Rightarrow> after_delivery s socket uid r env conv m None)"
  by (simp add: after_message_def Let_def split: option.split)

lemma resume_AwaitOnline:
  "resume s (AwaitOnline h u now) =
     (if db_up (storage s)
      then add_listeners
             (broadcast (s\<lparr>storage := pg_setUserOnlineStatus (storage s) now u True,
                           trace := trace s @ [OnlineStatusSet u True]\<rparr>) (UserOnline u))
             h u
      else ws_close s h (Some (1011, ''Authentication failed'')))"
  by (simp add: storage_setUserOnlineStatus_cases and_then_def broadcastToAll_broadcast)

lemma resume_AwaitSender:
  "resume s (AwaitSender socket uid r env conv m c) =
     (if db_up (storage s) \<and> readyState_of s (ws c) \<noteq> CONNECTING
      then after_delivery
             (deliver s (ws c) (NewMessage m (map_option toPublicUser (pg_getUser (storage s) uid))))
             socket uid r env conv m (Some c)
      else s)"
  using ws_send_cases [of s "ws c" "NewMessage m (map_option toPublicUser (pg_getUser (storage s) uid))"]
  by (auto simp: storage_getUser_def resolve_def)

text \<open>The \<open>newNotification\<close> frame of the \<open>sendMessage\<close> case.\<close>

lemma resume_AwaitNotifier:
  "resume s (AwaitNotifier socket uid r m rc n) =
     deliver
       (if db_up (storage s)
        then (case (pg_getUser (storage s) uid, rc) of
                (Some senderUser, Some c) \<Rightarrow>
                  deliver s (ws c)
                    (NewNotification
                       \<lparr>id_P = id_N n, type_P = ''message_received'', fromUserId_P = uid,
                        fromUserName = firstName senderUser,
                        fromUserPhoto = profilePhoto senderUser,
                        message_P = firstName senderUser @ '' sent you a message.'',
                        createdAt_P = createdAt_N n\<rparr>)
              | _ \<Rightarrow> s)
        else s)
       socket (MessageConfirmed m)"
  by (simp add: storage_getUser_def resolve_def confirm_eq guarded_send split: option.split)

lemma resume_AwaitNotification:
  "resume s (AwaitNotification socket uid r env conv m rc) =
     (case storage_createNotification s (uuid_notification env) (date_now env)
             \<lparr>userId_N = r, type_N = ''message_received'', fromUserId = uid,
              conversationId_N = Some (id_C conv), data_N = None\<rparr> of
        Inl (e, s') \<Rightarrow> deliver s socket (MessageConfirmed m)
      | Inr (s4, n) \<Rightarrow> suspend s4 (AwaitNotifier socket uid r m rc n))"
  by (auto simp: confirm_eq split: sum.split dest: storage_createNotification_Inl)

lemma resume_AwaitMessage:
  "resume s (AwaitMessage socket uid r c i env conv) =
     (case storage_createMessage s (uuid_message env) (date_now env)
             \<lparr>conversationId_M = id_C conv, senderId = uid, content = c, imageUrl = i\<rparr> of
        Inl (e, s') \<Rightarrow> s
      | Inr (s2, m) \<Rightarrow> after_message s2 socket uid r env conv m)"
  by (auto split: sum.split dest: storage_createMessage_Inl)

lemma resume_AwaitNewConversation:
  "resume s (AwaitNewConversation socket uid r c i env) =
     (case storage_createConversation s (uuid_conversation env) (date_now env)
             \<lparr>participant1Id = uid, participant2Id = r\<rparr> of
        Inl (e, s') \<Rightarrow> s
      | Inr (s1, conv) \<Rightarrow> suspend s1 (AwaitMessage socket uid r c i env conv))"
  by (auto split: sum.split dest: storage_createConversation_Inl)

lemma resume_AwaitConversation:
  "resume s (AwaitConversation socket uid r c i env) =
     (if db_up (storage s)
      then (case pg_getConversation (storage s) uid r of
              None \<Rightarrow> suspend s (AwaitNewConversation socket uid r c i env)
            | Some conv \<Rightarrow> suspend s (AwaitMessage socket uid r c i env conv))
      else s)"
  by (simp add: storage_getConversation_def resolve_def split: option.split)

lemma resume_AwaitUser:
  "resume s (AwaitUser h u now) =
     (if db_up (storage s)
      then (case pg_getUser (storage s) u of
              None \<Rightarrow> ws_close s h (Some (1008, ''User not found''))
            | Some row \<Rightarrow>
                suspend (s\<lparr>connectedUsers := Map_set u \<lparr>ws = h, userId = u\<rparr> (connectedUsers s)\<rparr>)
                  (AwaitOnline h u now))
      else ws_close s h (Some (1011, ''Authentication failed'')))"
  by (simp add: storage_getUser_def resolve_def split: option.split)

lemmas resume_eqs =
  resume.simps(1) resume_AwaitUser resume_AwaitOnline resume_AwaitConversation
  resume_AwaitNewConversation resume_AwaitMessage resume_AwaitSender resume_AwaitNotification
  resume_AwaitNotifier

lemma on_close_eq:
  "on_close s u now =
     (if u = [] then Inr s
      else if db_up (storage s)
      then Inr (broadcast
                  (s\<lparr>connectedUsers := Map_delete u (connectedUsers s),
                     storage := pg_setUserOnlineStatus (storage s) now u False,
                     trace := trace s @ [OnlineStatusSet u False],
                     activeChatWindows := Map_delete u (activeChatWindows s)\<rparr>)
                  (UserOffline u))
      else Inl (ConnectionError, s\<lparr>connectedUsers := Map_delete u (connectedUsers s)\<rparr>))"
  by (simp add: on_close_def Let_def storage_setUserOnlineStatus_cases and_then_def
      broadcastToAll_broadcast)

lemma logout_eq:
  "logout s req now =
     (case user req of
        None \<Rightarrow> Inr (SendStatus 401, s)
      | Some u \<Rightarrow>
          (case Map_get (connectedUsers s) (id_U u) of
             None \<Rightarrow> Inr (if logout_error req then NextError else SendStatus 200, req_logout s req)
           | Some c \<Rightarrow>
               if db_up (storage s)
               then Inr (if logout_error req then NextError else SendStatus 200,
                         req_logout
                           (broadcast
                              ((ws_close s (ws c) None)
                                 \<lparr>connectedUsers := Map_delete (id_U u) (connectedUsers s),
                                  activeChatWindows := Map_delete (id_U u) (activeChatWindows s),
                                  storage := pg_setUserOnlineStatus (storage s) now (id_U u) False,
                                  trace := trace (ws_close s (ws c) None) @ [OnlineStatusSet (id_U u) False]\<rparr>)
                              (UserOffline (id_U u)))
                           req)
               else Inl (ConnectionError,
                         (ws_close s (ws c) None)
                           \<lparr>connectedUsers := Map_delete (id_U u) (connectedUsers s),
                            activeChatWindows := Map_delete (id_U u) (activeChatWindows s)\<rparr>)))"
  by (simp add: logout_def Let_def storage_setUserOnlineStatus_cases and_then_def
      broadcastToAll_broadcast split: option.split)

lemma req_logout_fields [simp]:
  "storage (req_logout s req) = storage s"
  "connectedUsers (req_logout s req) = connectedUsers s"
  "activeChatWindows (req_logout s req) = activeChatWindows s"
  "sockets (req_logout s req) = sockets s"
  "pending (req_logout s req) = pending s"
  "trace (req_logout s req) = trace s"
  by (simp_all add: req_logout_def)

lemma on_message_typing:
  "u \<noteq> [] \<Longrightarrow> on_message s h u (Typing r b) env =
     (case Map_get (connectedUsers s) r of
        Some c \<Rightarrow> deliver s (ws c) (UserTyping u b)
      | None \<Rightarrow> s)"
  by (simp add: on_message_def typing_def guarded_send split: option.split)

lemma on_message_sendMessage:
  "u \<noteq> [] \<Longrightarrow> on_message s h u (SendMessage r c i) env = suspend s (AwaitConversation h u r c i env)"
  by (simp add: on_message_def)

lemma on_message_empty: "on_message s h [] m env = s"
  by (cases m) (simp_all add: on_message_def)

declare resume.simps [simp del]

section \<open>What a step adds to the trace\<close>

lemma created_notifications_append [simp]:
  "created_notifications (xs @ ys) = created_notifications xs @ created_notifications ys"
  by (induction xs rule: created_notifications.induct) simp_all

lemma created_notifications_Sent [simp]:
  "created_notifications (map (\<lambda>h. Sent h f) hs) = []"
  by (induction hs) simp_all

lemma created_messages_append [simp]:
  "created_messages (xs @ ys) = created_messages xs @ created_messages ys"
  by (induction xs rule: created_messages.induct) simp_all

lemma created_messages_Sent [simp]:
  "created_messages (map (\<lambda>h. Sent h f) hs) = []"
  by (induction hs) simp_all

lemma sends_append [simp]: "sends (xs @ ys) = sends xs @ sends ys"
  by (induction xs rule: sends.induct) simp_all

lemma sends_Sent [simp]: "sends (map (\<lambda>h. Sent h f) hs) = map (\<lambda>h. (h, f)) hs"
  by (induction hs) simp_all

lemma added_self [simp]: "added s s = []"
  by (simp add: added_def)

lemma added_pending [simp]:
  "added (s\<lparr>pending := p\<rparr>) s' = added s s'"
  "added s (s'\<lparr>pending := p\<rparr>) = added s s'"
  by (simp_all add: added_def)

lemma step_Resume:
  "k < length (pending s) \<Longrightarrow> step s (Resume k) = resume (s\<lparr>pending := others s k\<rparr>) (pending s ! k)"
  by (simp add: others_def)










section \<open>The connection registry: sendToUser\<close>

text \<open>
  Claim C6. \<open>sendToUser\<close> changes nothing and returns \<open>false\<close> when the registry has no
  entry for the user or the socket of the entry is not \<open>OPEN\<close>; otherwise it writes the
  frame to that socket and returns \<open>true\<close>; in no state does it throw.
\<close>

theorem sendToUser_false_unless_open:
  "(Map_get (connectedUsers s) uid = None \<longrightarrow> sendToUser s uid f = Inr (False, s))
   \<and> (\<forall>c. Map_get (connectedUsers s) uid = Some c \<and> readyState_of s (ws c) \<noteq> OPEN
          \<longrightarrow> sendToUser s uid f = Inr (False, s))
   \<and> (\<forall>c. Map_get (connectedUsers s) uid = Some c \<and> readyState_of s (ws c) = OPEN
          \<longrightarrow> sendToUser s uid f = Inr (True, s\<lparr>trace := trace s @ [Sent (ws c) f]\<rparr>))
   \<and> (\<forall>x. sendToUser s uid f \<noteq> Inl x)"
  by (auto simp: sendToUser_def ws_send_def split: option.split)


theorem sendToUser_false_unless_open_witness:
  "sendToUser ex_online ''carol'' (UserTyping ''alice'' True) = Inr (False, ex_online)
   \<and> sendToUser ex_online ''bob'' (UserTyping ''alice'' True)
       = Inr (True, ex_online\<lparr>trace := [Sent 2 (UserTyping ''alice'' True)]\<rparr>)"
proof -
  have absent: "Map_get (connectedUsers ex_online) ''carol'' = None"
    by (simp add: ex_online_def Map_get_def)
  have present: "Map_get (connectedUsers ex_online) ''bob'' = Some \<lparr>ws = 2, userId = ''bob''\<rparr>"
    by (simp add: ex_online_def Map_get_def)
  have writable: "readyState_of ex_online 2 = OPEN"
    by (simp add: ex_online_def readyState_of_def)
  have quiet: "trace ex_online = []"
    by (simp add: ex_online_def)
  from sendToUser_false_unless_open [of ex_online "''carol''" "UserTyping ''alice'' True"] absent
  have 1: "sendToUser ex_online ''carol'' (UserTyping ''alice'' True) = Inr (False, ex_online)"
    by simp
  from sendToUser_false_unless_open [of ex_online "''bob''" "UserTyping ''alice'' True"]
    present writable
  have "sendToUser ex_online ''bob'' (UserTyping ''alice'' True)
          = Inr (True, ex_online\<lparr>trace := trace ex_online @ [Sent 2 (UserTyping ''alice'' True)]\<rparr>)"
    by simp
  with 1 quiet show ?thesis by simp
qed


section \<open>The focus tracker\<close>

lemma hasChatOpen_eq:
  "hasChatOpen s a b =
     (case map_of (activeChatWindows s) a of Some peers \<Rightarrow> b \<in> set peers | None \<Rightarrow> False)"
  by (simp add: hasChatOpen_def Map_has_def Map_get_def Set_has_def split: option.split)

lemma openChatWindow_windows:
  "map_of (activeChatWindows (openChatWindow s u x))
     = (map_of (activeChatWindows s))
         (u \<mapsto> Set_add x (case map_of (activeChatWindows s) u of Some peers \<Rightarrow> peers | None \<Rightarrow> []))"
  by (auto simp: openChatWindow_def Map_has_def Map_get_def Map_set_def Let_def update_conv'
      split: option.split)

lemma closeChatWindow_windows:
  "map_of (activeChatWindows (closeChatWindow s u x))
     = (case map_of (activeChatWindows s) u of
          None \<Rightarrow> map_of (activeChatWindows s)
        | Some peers \<Rightarrow>
            if Set_delete x peers = [] then (map_of (activeChatWindows s))(u := None)
            else (map_of (activeChatWindows s))(u \<mapsto> Set_delete x peers))"
  by (auto simp: closeChatWindow_def Map_has_def Map_get_def Map_set_def Map_delete_def Let_def
      Set_size_def update_conv' delete_conv' split: option.split)

lemma window_other_fields [simp]:
  "storage (openChatWindow s u x) = storage s"
  "connectedUsers (openChatWindow s u x) = connectedUsers s"
  "sockets (openChatWindow s u x) = sockets s"
  "trace (openChatWindow s u x) = trace s"
  "sessionStore (openChatWindow s u x) = sessionStore s"
  "storage (closeChatWindow s u x) = storage s"
  "connectedUsers (closeChatWindow s u x) = connectedUsers s"
  "sockets (closeChatWindow s u x) = sockets s"
  "trace (closeChatWindow s u x) = trace s"
  "sessionStore (closeChatWindow s u x) = sessionStore s"
  by (simp_all add: openChatWindow_def closeChatWindow_def Let_def split: option.split)

lemma on_message_open:
  "u \<noteq> [] \<Longrightarrow> on_message s h u (OpenChatWindow x) env = openChatWindow s u x"
  by (simp add: on_message_def)

lemma on_message_close:
  "u \<noteq> [] \<Longrightarrow> on_message s h u (CloseChatWindow x) env = closeChatWindow s u x"
  by (simp add: on_message_def)

lemma removeAll_Nil_iff: "removeAll x xs = [] \<longleftrightarrow> set xs \<subseteq> {x}"
  by (induction xs) auto

lemma hasChatOpen_open:
  "hasChatOpen (openChatWindow s u x) v p =
     (if v = u then p = x \<or> hasChatOpen s u p else hasChatOpen s v p)"
proof (cases "map_of (activeChatWindows s) u")
  case None
  then show ?thesis by (simp add: hasChatOpen_eq openChatWindow_windows Set_add_def)
next
  case (Some peers)
  then show ?thesis by (auto simp: hasChatOpen_eq openChatWindow_windows Set_add_def)
qed

lemma hasChatOpen_close:
  "hasChatOpen (closeChatWindow s u x) v p =
     (if v = u then p \<noteq> x \<and> hasChatOpen s u p else hasChatOpen s v p)"
proof (cases "map_of (activeChatWindows s) u")
  case None
  then show ?thesis by (simp add: hasChatOpen_eq closeChatWindow_windows)
next
  case (Some peers)
  show ?thesis
  proof (cases "Set_delete x peers = []")
    case True
    then have "set peers \<subseteq> {x}" by (simp add: Set_delete_def removeAll_Nil_iff)
    with Some True show ?thesis by (auto simp: hasChatOpen_eq closeChatWindow_windows)
  next
    case False
    with Some show ?thesis by (auto simp: hasChatOpen_eq closeChatWindow_windows Set_delete_def)
  qed
qed

lemma hasChatOpen_window_frame:
  assumes "u \<noteq> []" "window_frame m x"
  shows "hasChatOpen (on_message s h u m env) v p =
     (if v = u \<and> p = x then m = OpenChatWindow x else hasChatOpen s v p)"
  using assms by (auto simp: window_frame_def on_message_open on_message_close hasChatOpen_open hasChatOpen_close split: if_splits)

text \<open>
  Claim C7. For a user \<open>u\<close> and distinct peers \<open>x\<close> and \<open>y\<close>, an \<open>openChatWindow\<close> or a
  \<open>closeChatWindow\<close> frame from \<open>u\<close> for \<open>x\<close> leaves unchanged whether \<open>u\<close> has a window
  open with \<open>y\<close>, and whether any other user has a window open with anyone. After the
  \<open>openChatWindow\<close> frame \<open>u\<close> has a window open with \<open>x\<close>; after the \<open>closeChatWindow\<close>
  frame \<open>u\<close> has none open with \<open>x\<close>. Opening adds \<open>x\<close> to the set of \<open>u\<close>, starting from
  the empty set when \<open>u\<close> has none; closing removes \<open>x\<close> and deletes the entry of \<open>u\<close> when
  the set becomes empty, so that the entry of \<open>u\<close>, when there is one, no longer holds
  \<open>x\<close>. A frame for \<open>x\<close> and a frame for \<open>y\<close> give the same focus whichever comes first.
\<close>

theorem focus_on_unrelated_peers:
  assumes "u \<noteq> []" and "x \<noteq> y"
  shows "hasChatOpen (on_message s h u (OpenChatWindow x) env) u y = hasChatOpen s u y
     \<and> hasChatOpen (on_message s h u (CloseChatWindow x) env) u y = hasChatOpen s u y
     \<and> hasChatOpen (on_message s h u (OpenChatWindow x) env) u x
     \<and> \<not> hasChatOpen (on_message s h u (CloseChatWindow x) env) u x
     \<and> (\<forall>peers. Map_get (activeChatWindows (on_message s h u (CloseChatWindow x) env)) u = Some peers
           \<longrightarrow> x \<notin> set peers \<and> peers \<noteq> [])
     \<and> (\<forall>v p. v \<noteq> u \<longrightarrow>
           hasChatOpen (on_message s h u (OpenChatWindow x) env) v p = hasChatOpen s v p
           \<and> hasChatOpen (on_message s h u (CloseChatWindow x) env) v p = hasChatOpen s v p)
     \<and> Map_get (activeChatWindows (on_message s h u (OpenChatWindow x) env)) u
         = Some (Set_add x (case Map_get (activeChatWindows s) u of Some peers \<Rightarrow> peers | None \<Rightarrow> []))
     \<and> Map_get (activeChatWindows (on_message s h u (CloseChatWindow x) env)) u
         = (case Map_get (activeChatWindows s) u of
              None \<Rightarrow> None
            | Some peers \<Rightarrow> if Set_size (Set_delete x peers) = 0 then None else Some (Set_delete x peers))
     \<and> (\<forall>m1 m2 v p. window_frame m1 x \<and> window_frame m2 y \<longrightarrow>
           hasChatOpen (on_message (on_message s h u m1 env) h u m2 env') v p
           = hasChatOpen (on_message (on_message s h u m2 env') h u m1 env) v p)"
proof -
  have 1: "hasChatOpen (on_message s h u (OpenChatWindow x) env) u y = hasChatOpen s u y"
    using assms by (simp add: on_message_open hasChatOpen_open)
  have 2: "hasChatOpen (on_message s h u (CloseChatWindow x) env) u y = hasChatOpen s u y"
    using assms by (simp add: on_message_close hasChatOpen_close)
  have 3: "Map_get (activeChatWindows (on_message s h u (OpenChatWindow x) env)) u
         = Some (Set_add x (case Map_get (activeChatWindows s) u of Some peers \<Rightarrow> peers | None \<Rightarrow> []))"
    using assms by (simp add: on_message_open Map_get_def openChatWindow_windows)
  have 4: "Map_get (activeChatWindows (on_message s h u (CloseChatWindow x) env)) u
         = (case Map_get (activeChatWindows s) u of
              None \<Rightarrow> None
            | Some peers \<Rightarrow> if Set_size (Set_delete x peers) = 0 then None else Some (Set_delete x peers))"
    using assms
    by (simp add: on_message_close Map_get_def closeChatWindow_windows Set_size_def split: option.split)
  have 5: "hasChatOpen (on_message (on_message s h u m1 env) h u m2 env') v p
           = hasChatOpen (on_message (on_message s h u m2 env') h u m1 env) v p"
    if "window_frame m1 x" "window_frame m2 y" for m1 m2 v p
    using that assms by (auto simp: hasChatOpen_window_frame)
  have 6: "hasChatOpen (on_message s h u (OpenChatWindow x) env) u x"
    using assms by (simp add: on_message_open hasChatOpen_open)
  have 7: "\<not> hasChatOpen (on_message s h u (CloseChatWindow x) env) u x"
    using assms by (simp add: on_message_close hasChatOpen_close)
  have 8: "x \<notin> set peers \<and> peers \<noteq> []"
    if "Map_get (activeChatWindows (on_message s h u (CloseChatWindow x) env)) u = Some peers"
    for peers
    using that unfolding 4
    by (auto simp: Set_delete_def Set_size_def split: option.splits if_splits)
  have 9: "hasChatOpen (on_message s h u (OpenChatWindow x) env) v p = hasChatOpen s v p
           \<and> hasChatOpen (on_message s h u (CloseChatWindow x) env) v p = hasChatOpen s v p"
    if "v \<noteq> u" for v p
    using that assms by (simp add: on_message_open on_message_close hasChatOpen_open hasChatOpen_close)
  from 1 2 3 4 5 6 7 8 9 show ?thesis by blast
qed


theorem focus_on_unrelated_peers_witness:
  "''alice'' \<noteq> [] \<and> ''bob'' \<noteq> ''carol''
   \<and> hasChatOpen
        (on_message (on_message ex_online 1 ''alice'' (OpenChatWindow ''carol'') ex_env)
           1 ''alice'' (OpenChatWindow ''bob'') ex_env) ''alice'' ''bob''
   \<and> hasChatOpen
        (on_message (on_message ex_online 1 ''alice'' (OpenChatWindow ''carol'') ex_env)
           1 ''alice'' (OpenChatWindow ''bob'') ex_env) ''alice'' ''carol''
   \<and> \<not> hasChatOpen
        (on_message
           (on_message (on_message ex_online 1 ''alice'' (OpenChatWindow ''carol'') ex_env)
              1 ''alice'' (OpenChatWindow ''bob'') ex_env)
           1 ''alice'' (CloseChatWindow ''bob'') ex_env) ''alice'' ''bob''
   \<and> hasChatOpen
        (on_message
           (on_message (on_message ex_online 1 ''alice'' (OpenChatWindow ''carol'') ex_env)
              1 ''alice'' (OpenChatWindow ''bob'') ex_env)
           1 ''alice'' (CloseChatWindow ''bob'') ex_env) ''alice'' ''carol''"
proof -
  let ?s1 = "on_message ex_online 1 ''alice'' (OpenChatWindow ''carol'') ex_env"
  let ?s2 = "on_message ?s1 1 ''alice'' (OpenChatWindow ''bob'') ex_env"
  have u: "''alice'' \<noteq> []" and xy: "''bob'' \<noteq> ''carol''" by simp_all
  have before: "hasChatOpen ?s2 ''alice'' ''bob''" "hasChatOpen ?s2 ''alice'' ''carol''"
    by (simp_all add: hasChatOpen_def on_message_def openChatWindow_def ex_online_def Map_has_def
        Map_get_def Map_set_def Set_add_def Set_has_def Let_def)
  from focus_on_unrelated_peers [OF u xy, of ?s2 1 ex_env ex_env] before u xy
  show ?thesis by simp
qed


section \<open>Handshakes without a session cookie\<close>

text \<open>
  Claim C5. A handshake whose request carries no \<open>connect.sid\<close> cookie (or an empty one)
  is closed at once with code 1008, "Authentication required": the registry, the focus
  tracker, storage (the online flag with it) and the session store are as before, the
  close is the only thing the server did (no frame is written), and the socket is left
  closing, without listeners.
\<close>

theorem handshake_without_cookie:
  assumes "Map_get (cookies req) ''connect.sid'' = None \<or> Map_get (cookies req) ''connect.sid'' = Some []"
  shows "connectedUsers (connection s h req now) = connectedUsers s
     \<and> activeChatWindows (connection s h req now) = activeChatWindows s
     \<and> storage (connection s h req now) = storage s
     \<and> sessionStore (connection s h req now) = sessionStore s
     \<and> trace (connection s h req now) = trace s @ [CloseCalled h (Some (1008, ''Authentication required''))]
     \<and> sockets (connection s h req now) = (sockets s)(h \<mapsto> \<lparr>readyState = CLOSING, listeners = None\<rparr>)"
  using assms by (auto simp: connection_def ws_close_def Let_def)

theorem handshake_without_cookie_witness:
  "Map_get (cookies \<lparr>cookies = []\<rparr>) ''connect.sid'' = None
   \<and> connectedUsers (connection ex_online 3 \<lparr>cookies = []\<rparr> 7) = connectedUsers ex_online
   \<and> trace (connection ex_online 3 \<lparr>cookies = []\<rparr> 7) = [CloseCalled 3 (Some (1008, ''Authentication required''))]
   \<and> readyState_of (connection ex_online 3 \<lparr>cookies = []\<rparr> 7) 3 = CLOSING"
  using handshake_without_cookie [of "\<lparr>cookies = []\<rparr>" ex_online 3 7]
  by (simp add: Map_get_def ex_online_def readyState_of_def)



section \<open>Logging out without a connection\<close>

text \<open>
  Claim C9. When an authenticated user with no entry in the registry posts to
  \<open>/api/logout\<close>, the route only ends the session: it answers with what \<open>req.logout\<close>
  decides, and the registry, the focus tracker, storage, the sockets and the trace (so no
  \<open>userOffline\<close> frame) are as before.
\<close>

theorem logout_without_connection:
  assumes "user req = Some u" and "Map_get (connectedUsers s) (id_U u) = None"
  shows "logout s req now =
           Inr (if logout_error req then NextError else SendStatus 200, req_logout s req)
     \<and> connectedUsers (req_logout s req) = connectedUsers s
     \<and> activeChatWindows (req_logout s req) = activeChatWindows s
     \<and> storage (req_logout s req) = storage s
     \<and> sockets (req_logout s req) = sockets s
     \<and> trace (req_logout s req) = trace s"
  using assms by (simp add: logout_def req_logout_def Let_def)

theorem logout_without_connection_witness:
  "logout ex_online \<lparr>user = Some (ex_user ''carol'' ''Carol''), sessionID = ''sc'', logout_error = False\<rparr> 9
     = Inr (SendStatus 200,
            req_logout ex_online \<lparr>user = Some (ex_user ''carol'' ''Carol''), sessionID = ''sc'', logout_error = False\<rparr>)
   \<and> trace (req_logout ex_online \<lparr>user = Some (ex_user ''carol'' ''Carol''), sessionID = ''sc'', logout_error = False\<rparr>) = []
   \<and> map fst (connectedUsers (req_logout ex_online \<lparr>user = Some (ex_user ''carol'' ''Carol''), sessionID = ''sc'', logout_error = False\<rparr>))
       = [''alice'', ''bob'']"
proof -
  let ?req = "\<lparr>user = Some (ex_user ''carol'' ''Carol''), sessionID = ''sc'', logout_error = False\<rparr>"
  have who: "user ?req = Some (ex_user ''carol'' ''Carol'')" by simp
  have absent: "Map_get (connectedUsers ex_online) (id_U (ex_user ''carol'' ''Carol'')) = None"
    by (simp add: ex_online_def ex_user_def Map_get_def)
  have before: "trace ex_online = []" "map fst (connectedUsers ex_online) = [''alice'', ''bob'']"
    by (simp_all add: ex_online_def)
  from logout_without_connection [OF who absent, of 9] before show ?thesis by simp
qed

section \<open>Notifications for messages\<close>










section \<open>Messages are stored before they are delivered\<close>


lemma persisted_first_mono:
  "set seen \<subseteq> set seen' \<Longrightarrow> persisted_first seen xs \<Longrightarrow> persisted_first seen' xs"
proof (induction seen xs arbitrary: seen' rule: persisted_first.induct)
  case (2 seen m es)
  from 2(2) have "set (m # seen) \<subseteq> set (m # seen')" by auto
  with 2 show ?case by simp
next
  case (3 seen h f es)
  then show ?case by (auto split: option.splits)
qed simp_all


lemma holds_seen_simps [simp]:
  "holds_seen seen []"
  "holds_seen seen (ts @ us) = (holds_seen seen ts \<and> holds_seen seen us)"
  "holds_seen seen [t] = (\<forall>m. task_message t = Some m \<longrightarrow> m \<in> set seen)"
  by (auto simp: holds_seen_def)









lemma on_message_storage [simp]: "storage (on_message s h u m env) = storage s"
proof (cases "u = []")
  case True
  then show ?thesis by (simp add: on_message_empty)
next
  case False
  show ?thesis
  proof (cases m)
    case (Typing r b)
    with False show ?thesis by (simp add: on_message_typing split: option.split)
  next
    case (SendMessage r c i)
    with False show ?thesis by (simp add: on_message_sendMessage)
  qed (simp_all add: False on_message_def openChatWindow_def closeChatWindow_def Let_def
        split: option.split)
qed

lemma on_message_no_message [simp]: "created_messages (added s (on_message s h u m env)) = []"
proof (cases "u = []")
  case True
  then show ?thesis by (simp add: on_message_empty)
next
  case False
  show ?thesis
  proof (cases m)
    case (Typing r b)
    with False show ?thesis by (simp add: on_message_typing added_def split: option.split)
  next
    case (SendMessage r c i)
    with False show ?thesis by (simp add: on_message_sendMessage added_def)
  qed (simp_all add: False on_message_def openChatWindow_def closeChatWindow_def Let_def
        added_def split: option.split)
qed




lemma after_delivery_storage [simp]:
  "storage (after_delivery s h u r env conv m rc) = storage s"
  by (simp add: after_delivery_eq)

lemma after_message_storage [simp]:
  "storage (after_message s h u r env conv m) = storage s"
  by (simp add: after_message_eq split: option.split)









section \<open>The connection registry: one entry per user\<close>

lemma resume_registry:
  "connectedUsers (resume s t) = connectedUsers s
   \<or> (\<exists>h u now. t = AwaitUser h u now
         \<and> connectedUsers (resume s t) = Map_set u \<lparr>ws = h, userId = u\<rparr> (connectedUsers s))"
proof (cases t)
  case (AwaitSession h sid now)
  then show ?thesis
    by (simp add: resume_eqs split: SessionLookup.split option.split)
next
  case (AwaitUser h u now)
  then show ?thesis
    by (simp add: resume_eqs split: option.split)
next
  case (AwaitOnline h u now)
  then show ?thesis
    by (simp add: resume_eqs)
next
  case (AwaitConversation h u r c i env)
  then show ?thesis
    by (simp add: resume_eqs split: option.split)
next
  case (AwaitNewConversation h u r c i env)
  then show ?thesis
    by (auto simp: resume_eqs split: sum.split dest!: storage_createConversation_Inr)
next
  case (AwaitMessage h u r c i env conv)
  then show ?thesis
    by (auto simp: resume_eqs after_message_eq after_delivery_eq
        split: sum.split option.split dest!: storage_createMessage_Inr)
next
  case (AwaitSender h u r env conv m rc)
  then show ?thesis
    by (simp add: resume_eqs after_delivery_eq)
next
  case (AwaitNotification h u r env conv m rc)
  then show ?thesis
    by (auto simp: resume_eqs split: sum.split dest!: storage_createNotification_Inr)
next
  case (AwaitNotifier h u r m rc n)
  then show ?thesis
    by (simp add: resume_eqs split: option.split)
qed

lemma on_message_registry [simp]:
  "connectedUsers (on_message s h u m env) = connectedUsers s"
proof (cases "u = []")
  case True
  then show ?thesis by (simp add: on_message_empty)
next
  case False
  show ?thesis
  proof (cases m)
    case (Typing r b)
    with False show ?thesis by (simp add: on_message_typing split: option.split)
  next
    case (SendMessage r c i)
    with False show ?thesis by (simp add: on_message_sendMessage)
  qed (simp_all add: False on_message_def openChatWindow_def closeChatWindow_def Let_def
        split: option.split)
qed

lemma connection_registry [simp]:
  "connectedUsers (connection s h req now) = connectedUsers s"
  by (simp add: connection_def Let_def split: option.split)

lemma transport_close_registry:
  "connectedUsers (transport_close s h now) = connectedUsers s
   \<or> (\<exists>u. connectedUsers (transport_close s h now) = Map_delete u (connectedUsers s))"
  by (auto simp: transport_close_def on_close_eq Let_def split: option.split)

lemma step_registry:
  "connectedUsers (step s ev) = connectedUsers s
   \<or> (\<exists>u c. connectedUsers (step s ev) = Map_set u c (connectedUsers s))
   \<or> (\<exists>u. connectedUsers (step s ev) = Map_delete u (connectedUsers s))"
proof (cases ev)
  case (Connect h req now)
  then show ?thesis by simp
next
  case (Frame h m env)
  then show ?thesis by (simp split: option.split)
next
  case (Resume k)
  with resume_registry [of "s\<lparr>pending := others s k\<rparr>" "pending s ! k"] show ?thesis
    by (auto simp: others_def)
next
  case (Drop h now)
  with transport_close_registry [of s h now] show ?thesis by auto
next
  case (Logout req now)
  then show ?thesis by (auto simp: logout_eq split: option.split)
next
  case (Elsewhere db ss)
  then show ?thesis by simp
qed

lemma step_distinct:
  "distinct (map fst (connectedUsers s)) \<Longrightarrow> distinct (map fst (connectedUsers (step s ev)))"
  using step_registry [of s ev]
  by (auto simp: Map_set_def Map_delete_def distinct_update distinct_delete)

lemma run_distinct:
  "distinct (map fst (connectedUsers s)) \<Longrightarrow> distinct (map fst (connectedUsers (run s evs)))"
  by (induction evs arbitrary: s) (simp_all add: step_distinct)

lemma at_most_one_entry:
  "distinct (map fst xs) \<Longrightarrow> length (filter (\<lambda>e. fst e = k) xs) \<le> 1"
  by (induction xs) (force simp: filter_empty_conv)+

lemma exactly_one_entry:
  "distinct (map fst xs) \<Longrightarrow> map_of xs k = Some v \<Longrightarrow> filter (\<lambda>e. fst e = k) xs = [(k, v)]"
  by (induction xs) (auto simp: filter_empty_conv rev_image_eqI split: if_splits)

text \<open>
  The part of claim C3 that is about the number of entries holds. In every state the
  server reaches from its start, whatever the events and however the listeners
  interleave at their \<open>await\<close>s, the registry has at most one entry for each user. The
  step of the \<open>connection\<close> listener that registers \<open>A\<close> (it goes on after \<open>getUser\<close> has
  found the user row) leaves exactly one entry for \<open>A\<close>, holding the socket \<open>h\<close> of this
  listener; the entries of the other users are as before, and if \<open>A\<close> was registered
  already the keys of the registry are the same as before (the entry is replaced where
  it stood). The step does not look at the socket and leaves it as it is.
\<close>

lemma registry_has_one_entry_per_user:
  "let s = run (Server_new db ss) evs
   in (\<forall>U. length (entries_for s U) \<le> 1)
      \<and> (\<forall>k h A now row.
            k < length (pending s) \<and> pending s ! k = AwaitUser h A now
            \<and> db_up (storage s) \<and> pg_getUser (storage s) A = Some row
            \<longrightarrow> entries_for (step s (Resume k)) A = [(A, \<lparr>ws = h, userId = A\<rparr>)]
                \<and> (\<forall>B. B \<noteq> A \<longrightarrow> entries_for (step s (Resume k)) B = entries_for s B)
                \<and> (Map_has (connectedUsers s) A
                     \<longrightarrow> map fst (connectedUsers (step s (Resume k))) = map fst (connectedUsers s))
                \<and> sockets (step s (Resume k)) = sockets s)"
proof -
  let ?s = "run (Server_new db ss) evs"
  have d: "distinct (map fst (connectedUsers ?s))"
    by (rule run_distinct) (simp add: Server_new_def)
  have 1: "length (entries_for ?s U) \<le> 1" for U
    using at_most_one_entry [OF d, of U] by (simp add: entries_for_def)
  have 2: "entries_for (step ?s (Resume k)) A = [(A, \<lparr>ws = h, userId = A\<rparr>)]
           \<and> (\<forall>B. B \<noteq> A \<longrightarrow> entries_for (step ?s (Resume k)) B = entries_for ?s B)
           \<and> (Map_has (connectedUsers ?s) A
                  \<longrightarrow> map fst (connectedUsers (step ?s (Resume k))) = map fst (connectedUsers ?s))
           \<and> sockets (step ?s (Resume k)) = sockets ?s"
    if a: "k < length (pending ?s)" "pending ?s ! k = AwaitUser h A now"
      "db_up (storage ?s)" "pg_getUser (storage ?s) A = Some row" for k h A now row
  proof -
    let ?s' = "step ?s (Resume k)"
    have c: "connectedUsers ?s' = Map_set A \<lparr>ws = h, userId = A\<rparr> (connectedUsers ?s)"
      using a by (simp add: others_def resume_eqs)
    have so: "sockets ?s' = sockets ?s"
      using a by (simp add: others_def resume_eqs)
    have "distinct (map fst (connectedUsers ?s'))"
      unfolding c Map_set_def by (rule distinct_update [OF d])
    moreover have "map_of (connectedUsers ?s') A = Some \<lparr>ws = h, userId = A\<rparr>"
      unfolding c by (simp add: Map_set_def update_conv')
    ultimately have e: "entries_for ?s' A = [(A, \<lparr>ws = h, userId = A\<rparr>)]"
      unfolding entries_for_def by (rule exactly_one_entry)
    have o: "entries_for ?s' B = entries_for ?s B" if "B \<noteq> A" for B
    proof -
      have "filter (\<lambda>e. fst e = B) (AList.update A v xs) = filter (\<lambda>e. fst e = B) xs"
        for v :: Connection and xs
        using that by (induction xs) auto
      then show ?thesis unfolding entries_for_def c Map_set_def .
    qed
    have k: "map fst (connectedUsers ?s') = map fst (connectedUsers ?s)"
      if "Map_has (connectedUsers ?s) A"
      using that unfolding c
      by (force simp: Map_set_def Map_has_def update_keys dest: map_of_SomeD)
    from e o k so show ?thesis by blast
  qed
  from 1 2 show ?thesis unfolding Let_def by blast
qed


section \<open>Logging out and closing\<close>

text \<open>
  Claim C4 asks that a logout followed by the close of the transport (or the other way
  round) broadcasts \<open>userOffline\<close> once. With Alice and Bob connected, Alice's logout
  followed by the \<open>close\<close> event of her socket writes \<open>userOffline\<close> for Alice to Bob's
  socket twice: the route removes her entry and broadcasts, and the \<open>close\<close> listener runs
  all of its block again, whether or not the registry still has her entry. In the other
  order the route finds no entry and Bob gets the frame once.
\<close>

theorem logout_then_close_broadcasts_twice:
  "sends (trace (run ex_online [Logout ex_logout 10, Drop 1 11]))
     = [(2, UserOffline ''alice''), (2, UserOffline ''alice'')]
   \<and> sends (trace (run ex_online [Drop 1 11, Logout ex_logout 12]))
     = [(2, UserOffline ''alice'')]"
  by code_simp

section \<open>The user of a listener\<close>

text \<open>
  The theorems about the focus tracker are stated for a non-empty user id. In every
  state the server reaches from its start the listeners of a socket closed over a
  non-empty \<open>userId\<close>: the \<open>connection\<close> listener rejects a session whose principal is
  falsy before it goes on to attach them.
\<close>

lemma named_listeners_pending:
  assumes "named_listeners s" and "\<forall>t \<in> set ts. \<forall>u. handshake_user t = Some u \<longrightarrow> u \<noteq> []"
  shows "named_listeners (s\<lparr>pending := ts\<rparr>)"
  using assms by (simp add: named_listeners_def)

lemma named_listeners_upd [simp]:
  "named_listeners (s\<lparr>storage := a\<rparr>) = named_listeners s"
  "named_listeners (s\<lparr>sessionStore := b\<rparr>) = named_listeners s"
  "named_listeners (s\<lparr>connectedUsers := c\<rparr>) = named_listeners s"
  "named_listeners (s\<lparr>activeChatWindows := d\<rparr>) = named_listeners s"
  "named_listeners (s\<lparr>trace := e\<rparr>) = named_listeners s"
  "named_listeners (deliver s h f) = named_listeners s"
  "named_listeners (broadcast s f) = named_listeners s"
  by (simp_all add: named_listeners_def)

lemma named_listeners_suspend:
  "named_listeners (suspend s t)
     = (named_listeners s \<and> (\<forall>u. handshake_user t = Some u \<longrightarrow> u \<noteq> []))"
  by (auto simp: named_listeners_def)

lemma named_listeners_state:
  assumes "sockets s h = Some sock"
  shows "named_listeners (s\<lparr>sockets := (sockets s)(h \<mapsto> sock\<lparr>readyState := x\<rparr>)\<rparr>) = named_listeners s"
proof
  assume n: "named_listeners (s\<lparr>sockets := (sockets s)(h \<mapsto> sock\<lparr>readyState := x\<rparr>)\<rparr>)"
  show "named_listeners s"
    unfolding named_listeners_def
  proof (intro conjI allI impI ballI)
    fix h' sock' uid
    assume a: "sockets s h' = Some sock' \<and> listeners sock' = Some uid"
    show "uid \<noteq> []"
    proof (cases "h' = h")
      case True
      with a assms have "listeners (sock\<lparr>readyState := x\<rparr>) = Some uid" by simp
      with n show ?thesis unfolding named_listeners_def by fastforce
    next
      case False
      with a n show ?thesis unfolding named_listeners_def by fastforce
    qed
  next
    fix t uid
    assume "t \<in> set (pending s)" "handshake_user t = Some uid"
    with n show "uid \<noteq> []" unfolding named_listeners_def by fastforce
  qed
next
  assume n: "named_listeners s"
  show "named_listeners (s\<lparr>sockets := (sockets s)(h \<mapsto> sock\<lparr>readyState := x\<rparr>)\<rparr>)"
    unfolding named_listeners_def
  proof (intro conjI allI impI ballI)
    fix h' sock' uid
    assume a: "sockets (s\<lparr>sockets := (sockets s)(h \<mapsto> sock\<lparr>readyState := x\<rparr>)\<rparr>) h' = Some sock'
               \<and> listeners sock' = Some uid"
    show "uid \<noteq> []"
    proof (cases "h' = h")
      case True
      with a have "listeners sock = Some uid" by auto
      with n assms show ?thesis unfolding named_listeners_def by blast
    next
      case False
      with a have "sockets s h' = Some sock'" "listeners sock' = Some uid" by auto
      with n show ?thesis unfolding named_listeners_def by blast
    qed
  next
    fix t uid
    assume "t \<in> set (pending (s\<lparr>sockets := (sockets s)(h \<mapsto> sock\<lparr>readyState := x\<rparr>)\<rparr>))"
      "handshake_user t = Some uid"
    with n show "uid \<noteq> []" unfolding named_listeners_def by fastforce
  qed
qed

lemma named_listeners_ws_close [simp]:
  "named_listeners (ws_close s h cr) = named_listeners s"
  by (simp add: ws_close_def named_listeners_state split: option.split)

lemma named_listeners_add_listeners:
  "named_listeners s \<Longrightarrow> u \<noteq> [] \<Longrightarrow> named_listeners (add_listeners s h u)"
  by (auto simp: named_listeners_def add_listeners_def split: option.splits if_splits)

lemma named_listeners_req_logout [simp]:
  "named_listeners (req_logout s req) = named_listeners s"
  by (simp add: req_logout_def)

lemma resume_named:
  assumes "named_listeners s" and "\<forall>u. handshake_user t = Some u \<longrightarrow> u \<noteq> []"
  shows "named_listeners (resume s t)"
proof (cases t)
  case (AwaitSession h sid now)
  with assms show ?thesis
    by (simp add: resume_eqs named_listeners_suspend split: SessionLookup.split option.split)
next
  case (AwaitUser h u now)
  with assms show ?thesis
    by (simp add: resume_eqs named_listeners_suspend split: option.split)
next
  case (AwaitOnline h u now)
  with assms show ?thesis
    by (simp add: resume_eqs named_listeners_add_listeners)
next
  case (AwaitConversation h u r c i env)
  with assms show ?thesis
    by (simp add: resume_eqs named_listeners_suspend split: option.split)
next
  case (AwaitNewConversation h u r c i env)
  with assms show ?thesis
    by (auto simp: resume_eqs named_listeners_suspend split: sum.split
        dest!: storage_createConversation_Inr)
next
  case (AwaitMessage h u r c i env conv)
  with assms show ?thesis
    by (auto simp: resume_eqs after_message_eq after_delivery_eq named_listeners_suspend
        split: sum.split option.split dest!: storage_createMessage_Inr)
next
  case (AwaitSender h u r env conv m rc)
  with assms show ?thesis
    by (simp add: resume_eqs after_delivery_eq named_listeners_suspend)
next
  case (AwaitNotification h u r env conv m rc)
  with assms show ?thesis
    by (auto simp: resume_eqs named_listeners_suspend split: sum.split
        dest!: storage_createNotification_Inr)
next
  case (AwaitNotifier h u r m rc n)
  with assms show ?thesis
    by (simp add: resume_eqs split: option.split)
qed

lemma on_message_named: "named_listeners s \<Longrightarrow> named_listeners (on_message s h u m env)"
proof (cases "u = []")
  case True
  then show "named_listeners s \<Longrightarrow> ?thesis" by (simp add: on_message_empty)
next
  case False
  assume n: "named_listeners s"
  show ?thesis
  proof (cases m)
    case (Typing r b)
    with False n show ?thesis by (simp add: on_message_typing split: option.split)
  next
    case (SendMessage r c i)
    with False n show ?thesis by (simp add: on_message_sendMessage named_listeners_suspend)
  qed (simp_all add: False n on_message_def openChatWindow_def closeChatWindow_def Let_def
        split: option.split)
qed

lemma named_listeners_closed:
  "named_listeners s \<Longrightarrow> sockets s h = Some sock \<Longrightarrow>
   named_listeners (s\<lparr>sockets := (sockets s)(h \<mapsto> sock\<lparr>readyState := x\<rparr>)\<rparr>)"
  by (simp add: named_listeners_state)

lemma step_named: "named_listeners s \<Longrightarrow> named_listeners (step s ev)"
proof (cases ev)
  case (Connect h req now)
  assume n: "named_listeners s"
  then have "named_listeners (s\<lparr>sockets := (sockets s)(h \<mapsto> \<lparr>readyState = OPEN, listeners = None\<rparr>)\<rparr>)"
    by (auto simp: named_listeners_def)
  with n Connect show ?thesis
    by (simp add: connection_def Let_def named_listeners_suspend split: option.split)
next
  case (Frame h m env)
  assume "named_listeners s"
  with Frame show ?thesis by (simp add: on_message_named split: option.split)
next
  case (Resume k)
  assume n: "named_listeners s"
  show ?thesis
  proof (cases "k < length (pending s)")
    case True
    from n have 1: "named_listeners (s\<lparr>pending := others s k\<rparr>)"
      by (auto simp: named_listeners_def others_def dest: in_set_takeD in_set_dropD)
    from n True have 2: "\<forall>u. handshake_user (pending s ! k) = Some u \<longrightarrow> u \<noteq> []"
      by (auto simp: named_listeners_def)
    from resume_named [OF 1 2] True Resume show ?thesis by (simp add: others_def)
  next
    case False
    with Resume n show ?thesis by simp
  qed
next
  case (Drop h now)
  assume n: "named_listeners s"
  with Drop show ?thesis
    by (auto simp: transport_close_def on_close_eq Let_def named_listeners_closed
        split: option.split)
next
  case (Logout req now)
  assume "named_listeners s"
  with Logout show ?thesis
    by (simp add: logout_eq split: option.split)
next
  case (Elsewhere db ss)
  assume "named_listeners s"
  with Elsewhere show ?thesis by simp
qed

lemma run_named: "named_listeners s \<Longrightarrow> named_listeners (run s evs)"
  by (induction evs arbitrary: s) (simp_all add: step_named)

lemma listeners_never_empty:
  "sockets (run (Server_new db ss) evs) h = Some sock \<Longrightarrow> listeners sock = Some u \<Longrightarrow> u \<noteq> []"
proof -
  have "named_listeners (Server_new db ss)"
    by (simp add: named_listeners_def Server_new_def)
  then have "named_listeners (run (Server_new db ss) evs)" by (rule run_named)
  then show "sockets (run (Server_new db ss) evs) h = Some sock \<Longrightarrow> listeners sock = Some u \<Longrightarrow> u \<noteq> []"
    unfolding named_listeners_def by blast
qed

section \<open>Public profiles only\<close>

lemma toPublicUser_keys: "fst ` set (toPublicUser u) \<inter> private_fields = {}"
  by (simp add: toPublicUser_def private_fields_def)

lemma toPublicUser_independent:
  "toPublicUser (u\<lparr>password := p, email := e, filterGender := g, filterLocation := l,
                   filterAgeMin := a, filterAgeMax := b\<rparr>) = toPublicUser u"
  by (simp add: toPublicUser_def)

lemma pg_getUser_stored: "pg_getUser db i = Some u \<Longrightarrow> u \<in> set (pg_getAllUsers db)"
  by (auto simp: pg_getUser_def pg_getAllUsers_def find_Some_iff)

lemma pg_getUser_id: "pg_getUser db i = Some u \<Longrightarrow> id_U u = i"
  by (auto simp: pg_getUser_def find_Some_iff)

lemma pg_updateUser_stored:
  "pg_updateUser db i updates = Inr (db', Some u) \<Longrightarrow> u \<in> set (pg_getAllUsers db')"
proof -
  assume a: "pg_updateUser db i updates = Inr (db', Some u)"
  then obtain row where r: "pg_getUser db i = Some row"
    by (auto simp: pg_updateUser_def split: option.splits)
  with a have u: "u = spread_User row updates"
    and d: "users_t db' = map (\<lambda>v. if id_U v = i then spread_User v updates else v) (users_t db)"
    by (auto simp: pg_updateUser_def Let_def split: if_splits)
  from r have "row \<in> set (users_t db)" "id_U row = i"
    by (auto simp: pg_getUser_def find_Some_iff)
  then have "spread_User row updates \<in> set (map (\<lambda>v. if id_U v = i then spread_User v updates else v) (users_t db))"
    by force
  with u d show ?thesis by (simp add: pg_getAllUsers_def)
qed

lemma discovery_filters_subset:
  "set (discovery_filters pI tL me q us) \<subseteq> set us"
  by (auto simp: discovery_filters_def Let_def split: option.splits if_splits)

lemma order_by_desc_set [simp]: "set (order_by_desc c rows) = set rows"
  by (auto simp: order_by_desc_def)

lemma order_by_set [simp]: "set (order_by c rows) = set rows"
  by (auto simp: order_by_def)

lemma pg_getOnlineUsers_subset: "set (pg_getOnlineUsers db) \<subseteq> set (pg_getAllUsers db)"
  by (auto simp: pg_getOnlineUsers_def pg_getAllUsers_def)

lemma safe_conversations_users:
  "safe_conversations xs = Some ys \<Longrightarrow>
   \<forall>p \<in> set (map (\<lambda>(conv, otherUser, lastMessage). otherUser) ys).
     \<exists>c u l. (c, Some u, l) \<in> set xs \<and> p = toPublicUser u"
proof (induction xs arbitrary: ys rule: safe_conversations.induct)
  case 1
  then show ?case by simp
next
  case (2 conv otherUser lastMessage rest)
  then show ?case by (fastforce split: option.splits)
qed

lemma safe_notifications_users:
  "safe_notifications xs = Some ys \<Longrightarrow>
   \<forall>p \<in> set (map snd ys). \<exists>n u. (n, Some u) \<in> set xs \<and> p = toPublicUser u"
proof (induction xs arbitrary: ys rule: safe_notifications.induct)
  case 1
  then show ?case by simp
next
  case (2 notification fromUser rest)
  then show ?case by (fastforce split: option.splits)
qed

lemma pg_getUserConversations_users:
  "(c, Some u, l) \<in> set (pg_getUserConversations db i) \<Longrightarrow> u \<in> set (pg_getAllUsers db)"
  by (auto simp: pg_getUserConversations_def Let_def pg_getUser_stored)

lemma pg_getUserNotifications_users:
  "(n, Some u) \<in> set (pg_getUserNotifications db i) \<Longrightarrow> u \<in> set (pg_getAllUsers db)"
  by (auto simp: pg_getUserNotifications_def Let_def pg_getUser_stored)

text \<open>The answers of the routes.\<close>

lemma users_get_api_users:
  "set (users_in (fst (get_api_users pI tL s u q)))
     \<subseteq> toPublicUser ` set (pg_getAllUsers (storage (snd (get_api_users pI tL s u q))))"
  by (cases u)
     (auto simp: get_api_users_def storage_getAllUsers_def resolve_def
       dest: subsetD [OF discovery_filters_subset])

lemma users_get_api_users_online:
  "set (users_in (fst (get_api_users_online pI tL s u q)))
     \<subseteq> toPublicUser ` set (pg_getAllUsers (storage (snd (get_api_users_online pI tL s u q))))"
  by (cases u)
     (auto simp: get_api_users_online_def storage_getOnlineUsers_def resolve_def
       dest!: subsetD [OF discovery_filters_subset] subsetD [OF pg_getOnlineUsers_subset])

lemma sendToUser_storage [simp]:
  "storage (case sendToUser s i f of Inl (e, s') \<Rightarrow> s' | Inr (b, s') \<Rightarrow> s') = storage s"
  by (simp add: sendToUser_def ws_send_def split: option.split)

lemma sendToUser_trace:
  "trace (case sendToUser s i f of Inl (e, s') \<Rightarrow> s' | Inr (b, s') \<Rightarrow> s')
     = trace s @ (case reachable s i of Some h \<Rightarrow> [Sent h f] | None \<Rightarrow> [])"
  by (simp add: sendToUser_def ws_send_def reachable_def split: option.split)

text \<open>The state \<open>GET /api/users/:userId\<close> leaves once the profile is found: the users
  are as before, and the trace has at most the notification and its frame.\<close>

lemma profile_view_notified:
  "\<exists>X. pg_getAllUsers (storage (case storage_createNotification s uuid now ins of
             Inl (notificationError, s') \<Rightarrow> s'
           | Inr (s1, notification) \<Rightarrow>
               (case storage_getUser s1 me of
                  Inl notificationError \<Rightarrow> s1
                | Inr None \<Rightarrow> s1
                | Inr (Some fromUser) \<Rightarrow>
                    (case sendToUser s1 i (NewNotification (p notification fromUser)) of
                       Inl (notificationError, s') \<Rightarrow> s'
                     | Inr (sent, s') \<Rightarrow> s')))) = pg_getAllUsers (storage s)
      \<and> trace (case storage_createNotification s uuid now ins of
             Inl (notificationError, s') \<Rightarrow> s'
           | Inr (s1, notification) \<Rightarrow>
               (case storage_getUser s1 me of
                  Inl notificationError \<Rightarrow> s1
                | Inr None \<Rightarrow> s1
                | Inr (Some fromUser) \<Rightarrow>
                    (case sendToUser s1 i (NewNotification (p notification fromUser)) of
                       Inl (notificationError, s') \<Rightarrow> s'
                     | Inr (sent, s') \<Rightarrow> s'))) = trace s @ X
      \<and> list_all (\<lambda>(h, f). users_in_frame f = []) (sends X)"
proof (cases "storage_createNotification s uuid now ins")
  case (Inl x)
  then show ?thesis by (cases x) (auto dest: storage_createNotification_Inl)
next
  case (Inr y)
  obtain s1 n where y: "y = (s1, n)" by (cases y)
  from Inr y obtain db' where
    s1: "s1 = s\<lparr>storage := db', trace := trace s @ [NotificationCreated n]\<rparr>"
    and ins: "pg_createNotification (storage s) uuid now ins = Inr (db', n)"
    by (auto dest: storage_createNotification_Inr)
  from ins have u: "users_t db' = users_t (storage s)"
    by (auto dest: pg_createNotification_row)
  show ?thesis
    unfolding Inr y
    by (simp add: s1 u pg_getAllUsers_def sendToUser_trace split: sum.split option.split)
qed

lemma users_get_api_users_userId:
  "set (users_in (fst (get_api_users_userId s u i uuid now)))
     \<subseteq> toPublicUser ` set (pg_getAllUsers (storage (snd (get_api_users_userId s u i uuid now))))"
proof (cases u)
  case None
  then show ?thesis by (simp add: get_api_users_userId_def)
next
  case (Some me)
  show ?thesis
  proof (cases "i = id_U me")
    case True
    with Some show ?thesis by (simp add: get_api_users_userId_def)
  next
    case False
    show ?thesis
    proof (cases "storage_getUser s i")
      case (Inl e)
      with Some False show ?thesis by (simp add: get_api_users_userId_def)
    next
      case (Inr r)
      show ?thesis
      proof (cases r)
        case None
        with Some False Inr show ?thesis by (simp add: get_api_users_userId_def)
      next
        case (Some v)
        with Inr have "pg_getUser (storage s) i = Some v"
          by (simp add: storage_getUser_Inr)
        then have "v \<in> set (pg_getAllUsers (storage s))"
          by (rule pg_getUser_stored)
        moreover from profile_view_notified
          [where s = s and uuid = uuid and now = now and me = "id_U me" and i = i
            and ins = "\<lparr>userId_N = i, type_N = ''profile_view'', fromUserId = id_U me,
                        conversationId_N = None, data_N = None\<rparr>"
            and p = "\<lambda>notification fromUser.
               \<lparr>id_P = id_N notification, type_P = ''profile_view'', fromUserId_P = id_U me,
                fromUserName = firstName fromUser, fromUserPhoto = profilePhoto fromUser,
                message_P = firstName fromUser @ '' viewed your profile.'',
                createdAt_P = createdAt_N notification\<rparr>"]
        have "pg_getAllUsers (storage (snd (get_api_users_userId s u i uuid now)))
                = pg_getAllUsers (storage s)"
          using \<open>u = Some me\<close> False Inr Some by (auto simp: get_api_users_userId_def Let_def)
        ultimately show ?thesis
          using \<open>u = Some me\<close> False Inr Some by (simp add: get_api_users_userId_def Let_def)
      qed
    qed
  qed
qed

lemma users_get_api_conversations:
  "set (users_in (fst (get_api_conversations s u)))
     \<subseteq> toPublicUser ` set (pg_getAllUsers (storage (snd (get_api_conversations s u))))"
proof (cases u)
  case None
  then show ?thesis by (simp add: get_api_conversations_def)
next
  case (Some me)
  show ?thesis
  proof (cases "db_up (storage s)")
    case False
    with Some show ?thesis
      by (simp add: get_api_conversations_def storage_getUserConversations_def)
  next
    case True
    show ?thesis
    proof (cases "safe_conversations (pg_getUserConversations (storage s) (id_U me))")
      case None
      with Some True show ?thesis
        by (simp add: get_api_conversations_def storage_getUserConversations_def)
    next
      case (Some ys)
      from safe_conversations_users [OF Some] pg_getUserConversations_users
      have "set (map (\<lambda>(conv, otherUser, lastMessage). otherUser) ys)
              \<subseteq> toPublicUser ` set (pg_getAllUsers (storage s))"
        by blast
      with Some \<open>u = Some me\<close> True show ?thesis
        by (simp add: get_api_conversations_def storage_getUserConversations_def)
    qed
  qed
qed

lemma users_get_api_notifications:
  "set (users_in (fst (get_api_notifications s u)))
     \<subseteq> toPublicUser ` set (pg_getAllUsers (storage (snd (get_api_notifications s u))))"
proof (cases u)
  case None
  then show ?thesis by (simp add: get_api_notifications_def)
next
  case (Some me)
  show ?thesis
  proof (cases "db_up (storage s)")
    case False
    with Some show ?thesis
      by (simp add: get_api_notifications_def storage_getUserNotifications_def)
  next
    case True
    show ?thesis
    proof (cases "safe_notifications (pg_getUserNotifications (storage s) (id_U me))")
      case None
      with Some True show ?thesis
        by (simp add: get_api_notifications_def storage_getUserNotifications_def)
    next
      case (Some ys)
      from safe_notifications_users [OF Some] pg_getUserNotifications_users
      have "set (map snd ys) \<subseteq> toPublicUser ` set (pg_getAllUsers (storage s))"
        by blast
      with Some \<open>u = Some me\<close> True show ?thesis
        by (simp add: get_api_notifications_def storage_getUserNotifications_def)
    qed
  qed
qed

lemma updated_user_public:
  "storage_updateUser s i updates = Inr (s1, r) \<Longrightarrow>
   set (case map_option toPublicUser r of None \<Rightarrow> [] | Some x \<Rightarrow> [x])
     \<subseteq> toPublicUser ` set (pg_getAllUsers (storage s1))"
  by (cases r) (auto dest!: storage_updateUser_Inr dest: pg_updateUser_stored)

lemma updated_user_answer:
  "(\<And>s' e. users_in (failed e) = []) \<Longrightarrow>
   (\<And>r. set (users_in (answer r)) \<subseteq> set (case map_option toPublicUser r of None \<Rightarrow> [] | Some x \<Rightarrow> [x])) \<Longrightarrow>
   set (users_in (fst (case storage_updateUser s i updates of
                         Inl (e, s') \<Rightarrow> (failed e, s')
                       | Inr (s1, r) \<Rightarrow> (answer r, s1))))
     \<subseteq> toPublicUser ` set (pg_getAllUsers (storage (snd (case storage_updateUser s i updates of
                         Inl (e, s') \<Rightarrow> (failed e, s')
                       | Inr (s1, r) \<Rightarrow> (answer r, s1)))))"
proof (cases "storage_updateUser s i updates")
  case (Inl x)
  assume "\<And>s' e. users_in (failed e) = []"
  with Inl show ?thesis by (cases x) simp
next
  case (Inr y)
  assume a: "\<And>r. set (users_in (answer r)) \<subseteq> set (case map_option toPublicUser r of None \<Rightarrow> [] | Some x \<Rightarrow> [x])"
  obtain s1 r where y: "y = (s1, r)" by (cases y)
  from updated_user_public [of s i updates s1 r] Inr y a [of r] show ?thesis by auto
qed

lemma users_patch_api_profile:
  "set (users_in (fst (patch_api_profile s u body)))
     \<subseteq> toPublicUser ` set (pg_getAllUsers (storage (snd (patch_api_profile s u body))))"
proof (cases u)
  case None
  then show ?thesis by (simp add: patch_api_profile_def)
next
  case (Some me)
  show ?thesis
  proof (cases "storage_updateUser s (id_U me) (body\<lparr>set_id := None, set_password := None\<rparr>)")
    case (Inl x)
    with Some show ?thesis by (cases x) (simp add: patch_api_profile_def)
  next
    case (Inr y)
    obtain s1 r where y: "y = (s1, r)" by (cases y)
    from updated_user_public [of s "id_U me" "body\<lparr>set_id := None, set_password := None\<rparr>" s1 r]
      Inr y Some
    show ?thesis by (cases r) (simp_all add: patch_api_profile_def)
  qed
qed

lemma users_post_api_upload_profile:
  "set (users_in (fst (post_api_upload_profile s u upload)))
     \<subseteq> toPublicUser ` set (pg_getAllUsers (storage (snd (post_api_upload_profile s u upload))))"
proof -
  have "set (users_in (fst (case storage_updateUser s i updates of
                         Inl (e, s') \<Rightarrow> (Fail 500 ''Failed to upload profile picture'', s')
                       | Inr (s1, r) \<Rightarrow> (ProfilePhoto url (map_option toPublicUser r), s1))))
     \<subseteq> toPublicUser ` set (pg_getAllUsers (storage (snd (case storage_updateUser s i updates of
                         Inl (e, s') \<Rightarrow> (Fail 500 ''Failed to upload profile picture'', s')
                       | Inr (s1, r) \<Rightarrow> (ProfilePhoto url (map_option toPublicUser r), s1)))))"
    for i updates url
    by (rule updated_user_answer) simp_all
  then show ?thesis
    by (simp add: post_api_upload_profile_def Let_def split: option.split)
qed

lemma users_post_api_upload_photos:
  "set (users_in (fst (post_api_upload_photos s u uploads)))
     \<subseteq> toPublicUser ` set (pg_getAllUsers (storage (snd (post_api_upload_photos s u uploads))))"
proof -
  have "set (users_in (fst (case storage_updateUser s i updates of
                         Inl (e, s') \<Rightarrow> (Fail 500 ''Failed to upload photos'', s')
                       | Inr (s1, r) \<Rightarrow> (PhotosUploaded a b (map_option toPublicUser r), s1))))
     \<subseteq> toPublicUser ` set (pg_getAllUsers (storage (snd (case storage_updateUser s i updates of
                         Inl (e, s') \<Rightarrow> (Fail 500 ''Failed to upload photos'', s')
                       | Inr (s1, r) \<Rightarrow> (PhotosUploaded a b (map_option toPublicUser r), s1)))))"
    for i updates a b
    by (rule updated_user_answer) simp_all
  then show ?thesis
    by (simp add: post_api_upload_photos_def Let_def split: option.split sum.split)
qed

lemma users_delete_api_photos:
  "set (users_in (fst (delete_api_photos s u photoUrl)))
     \<subseteq> toPublicUser ` set (pg_getAllUsers (storage (snd (delete_api_photos s u photoUrl))))"
proof -
  have "set (users_in (fst (case storage_updateUser s i updates of
                         Inl (e, s') \<Rightarrow> (Fail 500 ''Failed to delete photo'', s')
                       | Inr (s1, r) \<Rightarrow> (PhotosDeleted a (map_option toPublicUser r), s1))))
     \<subseteq> toPublicUser ` set (pg_getAllUsers (storage (snd (case storage_updateUser s i updates of
                         Inl (e, s') \<Rightarrow> (Fail 500 ''Failed to delete photo'', s')
                       | Inr (s1, r) \<Rightarrow> (PhotosDeleted a (map_option toPublicUser r), s1)))))"
    for i updates a
    by (rule updated_user_answer) simp_all
  then show ?thesis
    by (simp add: delete_api_photos_def Let_def split: option.split sum.split)
qed

lemma users_in_filters [simp]: "users_in (filters_of u) = []"
  by (simp add: filters_of_def)

lemma users_other_routes:
  "users_in (fst (get_api_conversations_messages s u i uuid now)) = []"
  "users_in (fst (get_api_user_filters s u)) = []"
  "users_in (fst (patch_api_user_filters s u g l a b)) = []"
  "users_in (fst (delete_api_user_filters s u)) = []"
  "users_in (fst (post_api_upload_message s u upload)) = []"
  "users_in (fst (get_api_notifications_unread_count s u)) = []"
  "users_in (fst (post_api_notifications_mark_read s u i)) = []"
  "users_in (fst (post_api_notifications_mark_all_read s u)) = []"
  "users_in (fst (delete_api_notifications s u i)) = []"
  by (simp_all add: get_api_conversations_messages_def get_api_user_filters_def
      patch_api_user_filters_def delete_api_user_filters_def post_api_upload_message_def
      get_api_notifications_unread_count_def post_api_notifications_mark_read_def
      post_api_notifications_mark_all_read_def delete_api_notifications_def
      Let_def split: option.split sum.split prod.split)

lemma http_users:
  "set (users_in (fst (http pI tL s c)))
     \<subseteq> toPublicUser ` set (pg_getAllUsers (storage (snd (http pI tL s c))))"
proof (cases c)
  case (POST_logout req now)
  then show ?thesis
    by (cases "logout s req now") (auto simp: logout_eq split: option.splits if_splits)
qed (simp_all add: users_get_api_users users_get_api_users_online users_get_api_users_userId
      users_get_api_conversations users_patch_api_profile users_post_api_upload_profile
      users_post_api_upload_photos users_delete_api_photos users_get_api_notifications
      users_other_routes)

text \<open>The frames of the listeners and routes.\<close>

lemma public_only_append [simp]:
  "public_only db (X @ Y) \<longleftrightarrow> public_only db X \<and> public_only db Y"
  by (simp add: public_only_def)

lemma public_only_Nil [simp]: "public_only db []"
  by (simp add: public_only_def)

lemma public_only_skip [simp]:
  "public_only db (CloseCalled h cr # X) = public_only db X"
  "public_only db (ConversationCreated c # X) = public_only db X"
  "public_only db (MessageCreated m # X) = public_only db X"
  "public_only db (NotificationCreated n # X) = public_only db X"
  "public_only db (OnlineStatusSet u b # X) = public_only db X"
  by (simp_all add: public_only_def)

lemma public_only_Sent [simp]:
  "public_only db (Sent h f # X)
     = (list_all (\<lambda>p. p \<in> toPublicUser ` set (pg_getAllUsers db)) (users_in_frame f)
        \<and> public_only db X)"
  by (simp add: public_only_def)

lemma public_only_plain:
  "users_in_frame f = [] \<Longrightarrow> public_only db (map (\<lambda>h. Sent h f) hs)"
  by (induction hs) simp_all

lemma public_sender:
  "list_all (\<lambda>p. p \<in> toPublicUser ` set (pg_getAllUsers db))
     (users_in_frame (NewMessage m (map_option toPublicUser (pg_getUser db uid))))"
  by (cases "pg_getUser db uid") (auto dest: pg_getUser_stored)

lemma resume_public: "public_only (storage s) (added s (resume s t))"
proof (cases t)
  case (AwaitSession h sid now)
  then show ?thesis
    by (simp add: added_def resume_eqs trace_ws_close split: SessionLookup.split option.split)
next
  case (AwaitUser h u now)
  then show ?thesis
    by (simp add: added_def resume_eqs trace_ws_close split: option.split)
next
  case (AwaitOnline h u now)
  then show ?thesis
    by (simp add: added_def resume_eqs trace_ws_close broadcast_trace public_only_plain)
next
  case (AwaitConversation h u r c i env)
  then show ?thesis
    by (simp add: added_def resume_eqs split: option.split)
next
  case (AwaitNewConversation h u r c i env)
  then show ?thesis
    by (auto simp: added_def resume_eqs split: sum.split dest!: storage_createConversation_Inr)
next
  case (AwaitMessage h u r c i env conv)
  then show ?thesis
    by (auto simp: added_def resume_eqs after_message_eq after_delivery_eq
        split: sum.split option.split dest!: storage_createMessage_Inr)
next
  case (AwaitSender h u r env conv m rc)
  then show ?thesis
    using public_sender [of "storage s" m u]
    by (simp add: added_def resume_eqs after_delivery_eq)
next
  case (AwaitNotification h u r env conv m rc)
  then show ?thesis
    by (auto simp: added_def resume_eqs split: sum.split dest!: storage_createNotification_Inr)
next
  case (AwaitNotifier h u r m rc n)
  then show ?thesis
    by (simp add: added_def resume_eqs split: option.split)
qed

lemma on_message_public: "public_only db (added s (on_message s h u m env))"
proof (cases "u = []")
  case True
  then show ?thesis by (simp add: on_message_empty)
next
  case False
  show ?thesis
  proof (cases m)
    case (Typing r b)
    with False show ?thesis by (simp add: on_message_typing added_def split: option.split)
  next
    case (SendMessage r c i)
    with False show ?thesis by (simp add: on_message_sendMessage added_def)
  qed (simp_all add: False on_message_def openChatWindow_def closeChatWindow_def Let_def
        added_def split: option.split)
qed

lemma logout_public:
  "public_only db (added s (case logout s req now of Inl (error, s') \<Rightarrow> s' | Inr (r, s') \<Rightarrow> s'))"
  by (simp add: logout_eq added_def broadcast_trace trace_ws_close public_only_plain
      split: option.split)

lemma step_public: "public_only (storage s) (added s (step s ev))"
proof (cases ev)
  case (Connect h req now)
  then show ?thesis
    by (simp add: connection_def Let_def added_def trace_ws_close split: option.split)
next
  case (Frame h m env)
  then show ?thesis by (simp add: on_message_public split: option.split)
next
  case (Resume k)
  with resume_public [of "s\<lparr>pending := others s k\<rparr>" "pending s ! k"] show ?thesis
    by (simp add: others_def)
next
  case (Drop h now)
  then show ?thesis
    by (simp add: transport_close_def on_close_eq Let_def added_def broadcast_trace
        public_only_plain split: option.split)
next
  case (Logout req now)
  with logout_public [of "storage s" s req now] show ?thesis by simp
next
  case (Elsewhere db ss)
  then show ?thesis by (simp add: added_def)
qed

text \<open>A \<open>newMessage\<close> frame is written only by the piece of the \<open>sendMessage\<close> case that
  goes on after \<open>storage.getUser(userId)\<close>.\<close>

lemma sends_plain:
  "(h', NewMessage m p) \<in> set (sends (map (\<lambda>h. Sent h f) hs)) \<Longrightarrow> f = NewMessage m p"
  by (induction hs) auto

lemma resume_newMessage:
  assumes "(h', NewMessage m p) \<in> set (sends (added s (resume s t)))"
  shows "\<exists>socket uid r env conv rc.
           t = AwaitSender socket uid r env conv m rc \<and> h' = ws rc
           \<and> p = map_option toPublicUser (pg_getUser (storage s) uid)"
proof (cases t)
  case (AwaitSession h sid now)
  with assms show ?thesis
    by (auto simp: added_def resume_eqs trace_ws_close split: SessionLookup.splits option.splits if_splits)
next
  case (AwaitUser h u now)
  with assms show ?thesis
    by (auto simp: added_def resume_eqs trace_ws_close split: option.splits if_splits)
next
  case (AwaitOnline h u now)
  with assms show ?thesis
    by (auto simp: added_def resume_eqs trace_ws_close broadcast_trace split: if_splits
        dest: sends_plain)
next
  case (AwaitConversation h u r c i env)
  with assms show ?thesis
    by (auto simp: added_def resume_eqs split: option.splits if_splits)
next
  case (AwaitNewConversation h u r c i env)
  with assms show ?thesis
    by (auto simp: added_def resume_eqs split: sum.splits dest!: storage_createConversation_Inr)
next
  case (AwaitMessage h u r c i env conv)
  with assms show ?thesis
    by (auto simp: added_def resume_eqs after_message_eq after_delivery_eq
        split: sum.splits option.splits if_splits dest!: storage_createMessage_Inr)
next
  case (AwaitSender h u r env conv m' rc)
  with assms show ?thesis
    by (auto simp: added_def resume_eqs after_delivery_eq split: if_splits)
next
  case (AwaitNotification h u r env conv m' rc)
  with assms show ?thesis
    by (auto simp: added_def resume_eqs split: sum.splits if_splits
        dest!: storage_createNotification_Inr)
next
  case (AwaitNotifier h u r m' rc n)
  with assms show ?thesis
    by (auto simp: added_def resume_eqs split: option.splits if_splits)
qed

lemma on_message_newMessage:
  "(h', NewMessage m' p) \<notin> set (sends (added s (on_message s h u m env)))"
proof (cases "u = []")
  case True
  then show ?thesis by (simp add: on_message_empty)
next
  case False
  show ?thesis
  proof (cases m)
    case (Typing r b)
    with False show ?thesis by (simp add: on_message_typing added_def split: option.split)
  next
    case (SendMessage r c i)
    with False show ?thesis by (simp add: on_message_sendMessage added_def)
  qed (simp_all add: False on_message_def openChatWindow_def closeChatWindow_def Let_def
        added_def split: option.split)
qed

lemma step_newMessage:
  assumes "(h', NewMessage m p) \<in> set (sends (added s (step s ev)))"
  shows "\<exists>k socket uid r env conv rc.
           ev = Resume k \<and> k < length (pending s)
           \<and> pending s ! k = AwaitSender socket uid r env conv m rc \<and> h' = ws rc
           \<and> p = map_option toPublicUser (pg_getUser (storage s) uid)"
proof (cases ev)
  case (Connect h req now)
  with assms show ?thesis
    by (auto simp: connection_def Let_def added_def trace_ws_close split: option.splits if_splits)
next
  case (Frame h msg env)
  with assms on_message_newMessage show ?thesis
    by (auto split: option.splits if_splits)
next
  case (Resume k)
  show ?thesis
  proof (cases "k < length (pending s)")
    case True
    with assms Resume
    have "(h', NewMessage m p) \<in> set (sends (added (s\<lparr>pending := others s k\<rparr>)
             (resume (s\<lparr>pending := others s k\<rparr>) (pending s ! k))))"
      by (simp add: others_def)
    from resume_newMessage [OF this] True Resume show ?thesis by auto
  next
    case False
    with assms Resume show ?thesis by simp
  qed
next
  case (Drop h now)
  with assms show ?thesis
    by (auto simp: transport_close_def on_close_eq Let_def added_def broadcast_trace
        split: option.splits if_splits dest: sends_plain)
next
  case (Logout req now)
  with assms show ?thesis
    by (auto simp: logout_eq added_def broadcast_trace trace_ws_close
        split: option.splits if_splits dest: sends_plain)
next
  case (Elsewhere db ss)
  with assms show ?thesis by (simp add: added_def)
qed

lemma get_api_users_userId_public:
  "public_only db (added s (snd (get_api_users_userId s u i uuid now)))"
proof (cases u)
  case None
  then show ?thesis by (simp add: get_api_users_userId_def)
next
  case (Some me)
  from profile_view_notified
    [where s = s and uuid = uuid and now = now and me = "id_U me" and i = i
      and ins = "\<lparr>userId_N = i, type_N = ''profile_view'', fromUserId = id_U me,
                  conversationId_N = None, data_N = None\<rparr>"
      and p = "\<lambda>notification fromUser.
         \<lparr>id_P = id_N notification, type_P = ''profile_view'', fromUserId_P = id_U me,
          fromUserName = firstName fromUser, fromUserPhoto = profilePhoto fromUser,
          message_P = firstName fromUser @ '' viewed your profile.'',
          createdAt_P = createdAt_N notification\<rparr>"]
  obtain X where
    X: "trace (case storage_createNotification s uuid now
                      \<lparr>userId_N = i, type_N = ''profile_view'', fromUserId = id_U me,
                       conversationId_N = None, data_N = None\<rparr> of
             Inl (notificationError, s') \<Rightarrow> s'
           | Inr (s1, notification) \<Rightarrow>
               (case storage_getUser s1 (id_U me) of
                  Inl notificationError \<Rightarrow> s1
                | Inr None \<Rightarrow> s1
                | Inr (Some fromUser) \<Rightarrow>
                    (case sendToUser s1 i
                            (NewNotification
                               \<lparr>id_P = id_N notification, type_P = ''profile_view'',
                                fromUserId_P = id_U me, fromUserName = firstName fromUser,
                                fromUserPhoto = profilePhoto fromUser,
                                message_P = firstName fromUser @ '' viewed your profile.'',
                                createdAt_P = createdAt_N notification\<rparr>) of
                       Inl (notificationError, s') \<Rightarrow> s'
                     | Inr (sent, s') \<Rightarrow> s'))) = trace s @ X"
    and p: "list_all (\<lambda>(h, f). users_in_frame f = []) (sends X)"
    by blast
  from p have "public_only db X"
    by (auto simp: public_only_def list_all_iff)
  with X Some show ?thesis
    by (auto simp: get_api_users_userId_def Let_def added_def split: sum.split option.split)
qed

lemma http_public: "public_only db (added s (snd (http pI tL s c)))"
proof (cases c)
  case (GET_users_userId u i uuid now)
  then show ?thesis by (simp add: get_api_users_userId_public)
next
  case (GET_conversations_messages u i uuid now)
  then show ?thesis
    by (auto simp: get_api_conversations_messages_def added_def storage_getConversation_def
        storage_getMessages_def resolve_def
        split: option.split sum.split dest!: storage_createConversation_Inr
        dest: storage_createConversation_Inl)
next
  case (POST_logout req now)
  have "snd (case logout s req now of Inl (error, s') \<Rightarrow> (NextError, s') | Inr (r, s') \<Rightarrow> (r, s'))
          = (case logout s req now of Inl (error, s') \<Rightarrow> s' | Inr (r, s') \<Rightarrow> s')"
    by (simp split: sum.split prod.split)
  with POST_logout logout_public [of db s req now] show ?thesis by simp
next
  case (PATCH_profile u body)
  then show ?thesis
    by (auto simp: patch_api_profile_def Let_def added_def
        split: option.split sum.split dest!: storage_updateUser_Inr dest: storage_updateUser_Inl)
next
  case (PATCH_user_filters u g l a b)
  then show ?thesis
    by (auto simp: patch_api_user_filters_def Let_def added_def
        split: option.split sum.split dest!: storage_updateUser_Inr dest: storage_updateUser_Inl)
next
  case (DELETE_user_filters u)
  then show ?thesis
    by (auto simp: delete_api_user_filters_def Let_def added_def
        split: option.split sum.split dest!: storage_updateUser_Inr dest: storage_updateUser_Inl)
next
  case (POST_upload_profile u f)
  then show ?thesis
    by (auto simp: post_api_upload_profile_def Let_def added_def
        split: option.split sum.split dest!: storage_updateUser_Inr dest: storage_updateUser_Inl)
next
  case (POST_upload_photos u fs)
  then show ?thesis
    by (auto simp: post_api_upload_photos_def Let_def added_def storage_getUser_def resolve_def
        split: option.split sum.split dest!: storage_updateUser_Inr dest: storage_updateUser_Inl)
next
  case (DELETE_photos u p)
  then show ?thesis
    by (auto simp: delete_api_photos_def Let_def added_def storage_getUser_def resolve_def
        split: option.split sum.split dest!: storage_updateUser_Inr dest: storage_updateUser_Inl)
qed (simp_all add: get_api_users_def get_api_users_online_def get_api_conversations_def
      get_api_user_filters_def post_api_upload_message_def get_api_notifications_def
      get_api_notifications_unread_count_def post_api_notifications_mark_read_def
      post_api_notifications_mark_all_read_def delete_api_notifications_def
      storage_markNotificationAsRead_def storage_markAllNotificationsAsRead_def
      storage_deleteNotification_def
      Let_def added_def split: option.split sum.split)

text \<open>
  Claim C8. The object \<open>toPublicUser\<close> builds has none of the properties \<open>password\<close>,
  \<open>email\<close>, \<open>filterGender\<close>, \<open>filterLocation\<close>, \<open>filterAgeMin\<close>, \<open>filterAgeMax\<close>, and does
  not depend on their values. A \<open>newMessage\<close> frame is written only by the piece of the
  \<open>sendMessage\<close> case that goes on after \<open>storage.getUser(userId)\<close>, to the socket of the
  receiver's entry, and its sender is that object for the row of the handler's \<open>userId\<close>
  in storage (or \<open>null\<close>); every user object in a frame that a step of the event loop or a
  route writes, and every user object in the answer of a route that \<open>registerRoutes\<close>
  defines, is that object for a user in storage.
\<close>

theorem only_public_profiles_leave:
  "fst ` set (toPublicUser u) \<inter> private_fields = {}
   \<and> toPublicUser (u\<lparr>password := p, email := e, filterGender := g, filterLocation := l,
                      filterAgeMin := a, filterAgeMax := b\<rparr>) = toPublicUser u
   \<and> (\<forall>h' m sender. (h', NewMessage m sender) \<in> set (sends (added s (step s ev)))
          \<longrightarrow> (\<exists>k socket S R env conv rc.
                  ev = Resume k \<and> k < length (pending s)
                  \<and> pending s ! k = AwaitSender socket S R env conv m rc \<and> h' = ws rc
                  \<and> sender = map_option toPublicUser (pg_getUser (storage s) S)))
   \<and> public_only (storage s) (added s (step s ev))
   \<and> set (users_in (fst (http parseInt toLowerCase s request)))
        \<subseteq> toPublicUser ` set (pg_getAllUsers (storage (snd (http parseInt toLowerCase s request))))
   \<and> public_only (storage s) (added s (snd (http parseInt toLowerCase s request)))"
proof (intro conjI allI impI)
  show "fst ` set (toPublicUser u) \<inter> private_fields = {}"
    by (rule toPublicUser_keys)
  show "toPublicUser (u\<lparr>password := p, email := e, filterGender := g, filterLocation := l,
                      filterAgeMin := a, filterAgeMax := b\<rparr>) = toPublicUser u"
    by (rule toPublicUser_independent)
  show "\<exists>k socket S R env conv rc.
          ev = Resume k \<and> k < length (pending s)
          \<and> pending s ! k = AwaitSender socket S R env conv m rc \<and> h' = ws rc
          \<and> sender = map_option toPublicUser (pg_getUser (storage s) S)"
    if "(h', NewMessage m sender) \<in> set (sends (added s (step s ev)))"
    for h' m sender
    using that by (rule step_newMessage)
  show "public_only (storage s) (added s (step s ev))"
    by (rule step_public)
  show "set (users_in (fst (http parseInt toLowerCase s request)))
        \<subseteq> toPublicUser ` set (pg_getAllUsers (storage (snd (http parseInt toLowerCase s request))))"
    by (rule http_users)
  show "public_only (storage s) (added s (snd (http parseInt toLowerCase s request)))"
    by (rule http_public)
qed


theorem only_public_profiles_leave_witness:
  "users_in (fst (http (\<lambda>x. None) (\<lambda>x. x) ex_online
                    (GET_users_userId (Some (ex_user ''alice'' ''Alice'')) ''bob'' ''n9'' 50)))
     = [toPublicUser (ex_user ''bob'' ''Bob'')]
   \<and> sends (added (run ex_online [Frame 1 ex_frame ex_env, Resume 0, Resume 0, Resume 0])
              (step (run ex_online [Frame 1 ex_frame ex_env, Resume 0, Resume 0, Resume 0])
                 (Resume 0)))
       = [(2, NewMessage \<lparr>conversationId_M = ''c1'', senderId = ''alice'', content = Some ''hi'',
                          imageUrl = None, id_M = ''m1'', timestamp_M = Some 100\<rparr>
                (Some (toPublicUser (ex_user ''alice'' ''Alice''))))]
   \<and> fst ` set (toPublicUser (ex_user ''bob'' ''Bob'')) \<inter> private_fields = {}
   \<and> map fst (toPublicUser (ex_user ''bob'' ''Bob''))
       = [''id'', ''username'', ''firstName'', ''lastName'', ''gender'', ''age'', ''location'',
          ''bio'', ''profilePhoto'', ''photos'', ''isOnline'', ''lastSeen'']
   \<and> filterGender (ex_user ''bob'' ''Bob'') = Some ''female''"
proof -
  have 1: "users_in (fst (http (\<lambda>x. None) (\<lambda>x. x) ex_online
                    (GET_users_userId (Some (ex_user ''alice'' ''Alice'')) ''bob'' ''n9'' 50)))
     = [toPublicUser (ex_user ''bob'' ''Bob'')]"
    by code_simp
  have 2: "sends (added (run ex_online [Frame 1 ex_frame ex_env, Resume 0, Resume 0, Resume 0])
              (step (run ex_online [Frame 1 ex_frame ex_env, Resume 0, Resume 0, Resume 0])
                 (Resume 0)))
       = [(2, NewMessage \<lparr>conversationId_M = ''c1'', senderId = ''alice'', content = Some ''hi'',
                          imageUrl = None, id_M = ''m1'', timestamp_M = Some 100\<rparr>
                (Some (toPublicUser (ex_user ''alice'' ''Alice''))))]"
    by code_simp
  have 3: "map fst (toPublicUser (ex_user ''bob'' ''Bob''))
       = [''id'', ''username'', ''firstName'', ''lastName'', ''gender'', ''age'', ''location'',
          ''bio'', ''profilePhoto'', ''photos'', ''isOnline'', ''lastSeen'']"
    by (simp add: toPublicUser_def)
  have 4: "filterGender (ex_user ''bob'' ''Bob'') = Some ''female''"
    by (simp add: ex_user_def)
  from only_public_profiles_leave [of "ex_user ''bob'' ''Bob''", THEN conjunct1]
  have 5: "fst ` set (toPublicUser (ex_user ''bob'' ''Bob'')) \<inter> private_fields = {}" .
  from 1 2 5 3 4 show ?thesis by (intro conjI)
qed

end
